(* ===== verification/Prelude.thy ===== *)
theory Prelude
  imports Main "HOL-Library.Word"
begin

text \<open>
  What every component of the emulator shares: the machine integers of the C code as words, the
  result type whose left side is C's undefined behaviour, the C \<open>switch\<close> statement as a
  function, and the generic lemmas on them.

  The dialect is that of the repository's Makefile (gcc, C99, x86-64): unsigned arithmetic wraps,
  narrowing conversions and shifts of signed values are two's complement (gcc defines them so),
  overflow of signed addition, subtraction, multiplication and division, an access outside an
  object and a floating-point value converted to an integer type that cannot hold it are
  undefined, and the model says so with a value of type \<open>undef\<close>.
\<close>

unbundle bit_operations_syntax

section \<open>Machine integers\<close>

type_synonym u8 = "8 word"
type_synonym u16 = "16 word"
type_synonym u32 = "32 word"
type_synonym u64 = "64 word"

lemma unat_bounds:
  "unat (b :: u8) < 256" "unat (h :: u16) < 65536" "unat (w :: u32) < 4294967296"
  by (rule order_less_le_trans [OF unsigned_less], simp)+

abbreviation (input) int32_min :: int where "int32_min \<equiv> - (2 ^ 31)"
abbreviation (input) int32_max :: int where "int32_max \<equiv> 2 ^ 31 - 1"

text \<open>Does a mathematical integer fit a signed type of \<open>w\<close> bits?\<close>

definition fits_signed :: "nat \<Rightarrow> int \<Rightarrow> bool" where
  "fits_signed w x \<longleftrightarrow> - (2 ^ (w - 1)) \<le> x \<and> x < 2 ^ (w - 1)"

text \<open>The value of a comparison operator of C, as the unsigned word it is stored into.\<close>

definition of_cond :: "bool \<Rightarrow> u32" where
  "of_cond b = (if b then 1 else 0)"

lemma of_cond_simps [simp]:
  "of_cond True = 1" "of_cond False = 0"
  "of_cond b = 0 \<longleftrightarrow> \<not> b" "of_cond b = 1 \<longleftrightarrow> b"
  by (simp_all add: of_cond_def)

section \<open>Results\<close>

text \<open>
  The ways an execution of the emulator leaves what C (and gcc) define. A model function that can
  meet one of them returns a sum, with the undefined behaviour on the left.
\<close>

datatype undef =
    Out_of_bounds          \<comment> \<open>an access outside an array or outside the emulated memory\<close>
  | Signed_overflow        \<comment> \<open>overflow of a signed addition, subtraction or multiplication\<close>
  | Division_overflow      \<comment> \<open>\<open>INT_MIN / -1\<close>\<close>
  | Conversion_range       \<comment> \<open>a floating-point value outside the target integer type\<close>
  | Scan_range             \<comment> \<open>an integer read by \<open>scanf\<close> that does not fit an \<open>int\<close>\<close>
  | Uninitialised          \<comment> \<open>a branch on memory that was never written\<close>
  | Illegal_code           \<comment> \<open>native code that is no instruction the code generator emits\<close>

type_synonym 'a result = "undef + 'a"

definition rbind :: "'a result \<Rightarrow> ('a \<Rightarrow> 'b result) \<Rightarrow> 'b result" where
  "rbind r f = (case r of Inl u \<Rightarrow> Inl u | Inr x \<Rightarrow> f x)"

lemma rbind_simps [simp]:
  "rbind (Inl u) f = Inl u" "rbind (Inr x) f = f x"
  by (simp_all add: rbind_def)

lemma rbind_Inr_iff: "rbind r f = Inr y \<longleftrightarrow> (\<exists>x. r = Inr x \<and> f x = Inr y)"
  by (cases r) auto

lemma rbind_Inl_iff: "rbind r f = Inl u \<longleftrightarrow> r = Inl u \<or> (\<exists>x. r = Inr x \<and> f x = Inl u)"
  by (cases r) auto

lemma rbind_InrE:
  assumes "rbind r f = Inr y"
  obtains x where "r = Inr x" "f x = Inr y"
  using assms by (auto simp: rbind_Inr_iff)

text \<open>A predicate on the value of a result, true of every undefined one.\<close>

definition on_ok :: "('a \<Rightarrow> bool) \<Rightarrow> 'a result \<Rightarrow> bool" where
  "on_ok P r \<longleftrightarrow> (\<forall>x. r = Inr x \<longrightarrow> P x)"

lemma on_ok_simps [simp]:
  "on_ok P (Inl u)" "on_ok P (Inr x) \<longleftrightarrow> P x"
  by (simp_all add: on_ok_def)

lemma on_ok_rbind: "on_ok P (rbind r f) \<longleftrightarrow> on_ok (\<lambda>x. on_ok P (f x)) r"
  by (cases r) simp_all

lemma on_ok_mono: "on_ok P r \<Longrightarrow> (\<And>x. P x \<Longrightarrow> Q x) \<Longrightarrow> on_ok Q r"
  by (cases r) simp_all

text \<open>No undefined behaviour was met.\<close>

definition defined :: "'a result \<Rightarrow> bool" where
  "defined r \<longleftrightarrow> (case r of Inl u \<Rightarrow> False | Inr x \<Rightarrow> True)"

lemma defined_simps [simp]: "\<not> defined (Inl u)" "defined (Inr x)"
  by (simp_all add: defined_def)

lemma defined_on_okE:
  assumes "defined r" "on_ok P r"
  obtains x where "r = Inr x" "P x"
  using assms by (cases r) auto

section \<open>The switch statement\<close>

text \<open>
  \<open>switch k cs d\<close> is the C statement: the first case whose label is \<open>k\<close>, or the default.
\<close>

primrec switch :: "'k \<Rightarrow> ('k \<times> 'v) list \<Rightarrow> 'v \<Rightarrow> 'v" where
  "switch k [] d = d"
| "switch k (c # cs) d = (if k = fst c then snd c else switch k cs d)"

lemma switch_rule:
  assumes "\<And>c. c \<in> set cs \<Longrightarrow> P (snd c)" and "P d"
  shows "P (switch k cs d)"
  using assms by (induction cs) auto

lemma switch_default: "k \<notin> fst ` set cs \<Longrightarrow> switch k cs d = d"
  by (induction cs) auto

text \<open>The label of the case is known in it.\<close>

lemma switch_cases:
  assumes "\<And>c. c \<in> set cs \<Longrightarrow> k = fst c \<Longrightarrow> P (snd c)" and "k \<notin> fst ` set cs \<Longrightarrow> P d"
  shows "P (switch k cs d)"
  using assms by (induction cs) auto

lemma switch_labels:
  assumes "list_all (\<lambda>c. k = fst c \<longrightarrow> P (snd c)) cs" and "list_all (\<lambda>c. k \<noteq> fst c) cs \<Longrightarrow> P d"
  shows "P (switch k cs d)"
  using assms by (induction cs) auto

lemma switch_all:
  assumes "list_all (\<lambda>c. k = fst c \<longrightarrow> P (snd c)) cs" and "P d"
  shows "P (switch k cs d)"
  by (rule switch_labels) (rule assms)+

lemma switch_rel:
  assumes "list_all2 (\<lambda>c c'. fst c = fst c' \<and> R (snd c) (snd c')) cs cs'" and "R d d'"
  shows "R (switch k cs d) (switch k cs' d')"
  using assms by (induction cs cs' rule: list_all2_induct) auto

text \<open>A predicate that only the default has tells whether the key is one of the labels.\<close>

lemma switch_iff_default:
  assumes "\<forall>c\<in>set cs. \<not> P (snd c)" and "P d"
  shows "P (switch k cs d) \<longleftrightarrow> k \<notin> fst ` set cs"
  using assms by (induction cs) auto

lemma switch_map: "f (switch k cs d) = switch k (map (\<lambda>c. (fst c, f (snd c))) cs) (f d)"
  by (induction cs) auto

end
