(* ===== verification/Decode.thy ===== *)
theory Decode
  imports Prelude
begin

text \<open>
  The instruction formats (include/decode.h): the field accessors and the opcode and function
  constants the decoders, the disassembler and the code generator switch on. The accessors return
  the C types of the header; every five-bit field is a valid register index.
\<close>

section \<open>Field accessors\<close>

definition op :: "u32 \<Rightarrow> u8" where
  "op i = ucast (drop_bit 26 i)"

definition rs :: "u32 \<Rightarrow> u8" where
  "rs i = ucast (drop_bit 21 i AND 0x1F)"

definition rt :: "u32 \<Rightarrow> u8" where
  "rt i = ucast (drop_bit 16 i AND 0x1F)"

definition rd :: "u32 \<Rightarrow> u8" where
  "rd i = ucast (drop_bit 11 i AND 0x1F)"

definition shamt :: "u32 \<Rightarrow> u8" where
  "shamt i = ucast (drop_bit 6 i AND 0x1F)"

definition funct :: "u32 \<Rightarrow> u8" where
  "funct i = ucast (i AND 0x3F)"

definition imm16 :: "u32 \<Rightarrow> u16" where
  "imm16 i = ucast (i AND 0xFFFF)"

definition target26 :: "u32 \<Rightarrow> u32" where
  "target26 i = i AND 0x3FFFFFF"

text \<open>The cast \<open>(int16_t)imm16(i)\<close>, converted to the type of the other operand.\<close>

definition simm :: "u32 \<Rightarrow> u32" where
  "simm i = scast (imm16 i)"

lemmas field_defs = op_def rs_def rt_def rd_def shamt_def funct_def imm16_def target26_def simm_def

section \<open>Opcodes and function codes\<close>

text \<open>
  The constants of the header, prefixed by the field they are compared with (\<open>OP_\<close> for the
  opcode, \<open>RT_\<close> for the selector of the REGIMM branches, \<open>FN_\<close> and \<open>FN2_\<close> for the function
  codes of SPECIAL and SPECIAL2), because \<open>AND\<close>, \<open>OR\<close> and \<open>XOR\<close> are operators here.
\<close>

abbreviation OP_SPECIAL :: u8 where "OP_SPECIAL \<equiv> 0x00"
abbreviation OP_REGIMM :: u8 where "OP_REGIMM \<equiv> 0x01"
abbreviation OP_COP1 :: u8 where "OP_COP1 \<equiv> 0x11"
abbreviation OP_SPECIAL2 :: u8 where "OP_SPECIAL2 \<equiv> 0x1c"
abbreviation OP_LWC1 :: u8 where "OP_LWC1 \<equiv> 0x31"
abbreviation OP_LDC1 :: u8 where "OP_LDC1 \<equiv> 0x35"
abbreviation OP_SWC1 :: u8 where "OP_SWC1 \<equiv> 0x39"
abbreviation OP_SDC1 :: u8 where "OP_SDC1 \<equiv> 0x3d"
abbreviation FMT_MFC1 :: u8 where "FMT_MFC1 \<equiv> 0x00"
abbreviation FMT_MTC1 :: u8 where "FMT_MTC1 \<equiv> 0x04"
abbreviation FMT_BC1 :: u8 where "FMT_BC1 \<equiv> 0x08"
abbreviation FMT_S :: u8 where "FMT_S \<equiv> 0x10"
abbreviation FMT_D :: u8 where "FMT_D \<equiv> 0x11"
abbreviation FMT_W :: u8 where "FMT_W \<equiv> 0x14"
abbreviation OP_J :: u8 where "OP_J \<equiv> 0x2"
abbreviation OP_JAL :: u8 where "OP_JAL \<equiv> 0x3"
abbreviation OP_BEQ :: u8 where "OP_BEQ \<equiv> 0x4"
abbreviation OP_BNE :: u8 where "OP_BNE \<equiv> 0x5"
abbreviation OP_BLEZ :: u8 where "OP_BLEZ \<equiv> 0x6"
abbreviation OP_BGTZ :: u8 where "OP_BGTZ \<equiv> 0x7"
abbreviation OP_ADDI :: u8 where "OP_ADDI \<equiv> 0x8"
abbreviation OP_ADDIU :: u8 where "OP_ADDIU \<equiv> 0x9"
abbreviation OP_SLTI :: u8 where "OP_SLTI \<equiv> 0xa"
abbreviation OP_SLTIU :: u8 where "OP_SLTIU \<equiv> 0xb"
abbreviation OP_ANDI :: u8 where "OP_ANDI \<equiv> 0xc"
abbreviation OP_ORI :: u8 where "OP_ORI \<equiv> 0xd"
abbreviation OP_XORI :: u8 where "OP_XORI \<equiv> 0xe"
abbreviation OP_LUI :: u8 where "OP_LUI \<equiv> 0xf"
abbreviation OP_LB :: u8 where "OP_LB \<equiv> 0x20"
abbreviation OP_LH :: u8 where "OP_LH \<equiv> 0x21"
abbreviation OP_LWL :: u8 where "OP_LWL \<equiv> 0x22"
abbreviation OP_LW :: u8 where "OP_LW \<equiv> 0x23"
abbreviation OP_LBU :: u8 where "OP_LBU \<equiv> 0x24"
abbreviation OP_LHU :: u8 where "OP_LHU \<equiv> 0x25"
abbreviation OP_LWR :: u8 where "OP_LWR \<equiv> 0x26"
abbreviation OP_SB :: u8 where "OP_SB \<equiv> 0x28"
abbreviation OP_SH :: u8 where "OP_SH \<equiv> 0x29"
abbreviation OP_SWL :: u8 where "OP_SWL \<equiv> 0x2a"
abbreviation OP_SW :: u8 where "OP_SW \<equiv> 0x2b"
abbreviation OP_SWR :: u8 where "OP_SWR \<equiv> 0x2e"
abbreviation RT_BLTZ :: u8 where "RT_BLTZ \<equiv> 0x0"
abbreviation RT_BGEZ :: u8 where "RT_BGEZ \<equiv> 0x1"
abbreviation RT_BLTZAL :: u8 where "RT_BLTZAL \<equiv> 0x10"
abbreviation RT_BGEZAL :: u8 where "RT_BGEZAL \<equiv> 0x11"
abbreviation FN_SLL :: u8 where "FN_SLL \<equiv> 0x0"
abbreviation FN_SRL :: u8 where "FN_SRL \<equiv> 0x2"
abbreviation FN_SRA :: u8 where "FN_SRA \<equiv> 0x3"
abbreviation FN_SLLV :: u8 where "FN_SLLV \<equiv> 0x4"
abbreviation FN_SRLV :: u8 where "FN_SRLV \<equiv> 0x6"
abbreviation FN_SRAV :: u8 where "FN_SRAV \<equiv> 0x7"
abbreviation FN_JR :: u8 where "FN_JR \<equiv> 0x8"
abbreviation FN_JALR :: u8 where "FN_JALR \<equiv> 0x9"
abbreviation FN_MOVZ :: u8 where "FN_MOVZ \<equiv> 0xa"
abbreviation FN_MOVN :: u8 where "FN_MOVN \<equiv> 0xb"
abbreviation FN_SYSCALL :: u8 where "FN_SYSCALL \<equiv> 0xc"
abbreviation FN_BREAK :: u8 where "FN_BREAK \<equiv> 0xd"
abbreviation FN_MFHI :: u8 where "FN_MFHI \<equiv> 0x10"
abbreviation FN_MTHI :: u8 where "FN_MTHI \<equiv> 0x11"
abbreviation FN_MFLO :: u8 where "FN_MFLO \<equiv> 0x12"
abbreviation FN_MTLO :: u8 where "FN_MTLO \<equiv> 0x13"
abbreviation FN_MULT :: u8 where "FN_MULT \<equiv> 0x18"
abbreviation FN_MULTU :: u8 where "FN_MULTU \<equiv> 0x19"
abbreviation FN_DIV :: u8 where "FN_DIV \<equiv> 0x1a"
abbreviation FN_DIVU :: u8 where "FN_DIVU \<equiv> 0x1b"
abbreviation FN_ADD :: u8 where "FN_ADD \<equiv> 0x20"
abbreviation FN_ADDU :: u8 where "FN_ADDU \<equiv> 0x21"
abbreviation FN_SUB :: u8 where "FN_SUB \<equiv> 0x22"
abbreviation FN_SUBU :: u8 where "FN_SUBU \<equiv> 0x23"
abbreviation FN_AND :: u8 where "FN_AND \<equiv> 0x24"
abbreviation FN_OR :: u8 where "FN_OR \<equiv> 0x25"
abbreviation FN_XOR :: u8 where "FN_XOR \<equiv> 0x26"
abbreviation FN_NOR :: u8 where "FN_NOR \<equiv> 0x27"
abbreviation FN_SLT :: u8 where "FN_SLT \<equiv> 0x2a"
abbreviation FN_SLTU :: u8 where "FN_SLTU \<equiv> 0x2b"
abbreviation FN2_MADD :: u8 where "FN2_MADD \<equiv> 0x0"
abbreviation FN2_MADDU :: u8 where "FN2_MADDU \<equiv> 0x1"
abbreviation FN2_MUL :: u8 where "FN2_MUL \<equiv> 0x2"
abbreviation FN2_MSUB :: u8 where "FN2_MSUB \<equiv> 0x4"
abbreviation FN2_MSUBU :: u8 where "FN2_MSUBU \<equiv> 0x5"
abbreviation FN2_CLZ :: u8 where "FN2_CLZ \<equiv> 0x20"
abbreviation FN2_CLO :: u8 where "FN2_CLO \<equiv> 0x21"

section \<open>The formats partition the word\<close>

lemma masks:
  "(0x1F :: u32) = mask 5" "(0x3F :: u32) = mask 6" "(0xFFFF :: u32) = mask 16"
  "(0x3FFFFFF :: u32) = mask 26"
  by (simp_all add: mask_eq_exp_minus_1)

lemma bit_fields:
  "bit (op i) n \<longleftrightarrow> n < 6 \<and> bit i (n + 26)"
  "bit (rs i) n \<longleftrightarrow> n < 5 \<and> bit i (n + 21)"
  "bit (rt i) n \<longleftrightarrow> n < 5 \<and> bit i (n + 16)"
  "bit (rd i) n \<longleftrightarrow> n < 5 \<and> bit i (n + 11)"
  "bit (shamt i) n \<longleftrightarrow> n < 5 \<and> bit i (n + 6)"
  "bit (funct i) n \<longleftrightarrow> n < 6 \<and> bit i n"
  "bit (imm16 i) n \<longleftrightarrow> n < 16 \<and> bit i n"
  "bit (target26 i) n \<longleftrightarrow> n < 26 \<and> bit i n"
  unfolding field_defs masks
  by (auto simp: bit_ucast_iff bit_and_iff bit_drop_bit_eq bit_mask_iff add.commute
      dest: bit_imp_le_length)

lemma five_bits: "(ucast (x AND 0x1F :: u32) :: u8) < 32"
proof -
  have "unat (x AND 0x1F) \<le> 31"
    using word_and_le1 [of x "0x1F"] by (simp add: word_le_nat_alt)
  then show ?thesis by (simp add: word_less_nat_alt unsigned_ucast_eq take_bit_eq_mod)
qed

lemma register_fields_less: "rs i < 32" "rt i < 32" "rd i < 32" "shamt i < 32"
  unfolding rs_def rt_def rd_def shamt_def by (rule five_bits)+

text \<open>The assembler's side of the formats: an instruction word put together from its fields.\<close>

definition enc_r :: "u8 \<Rightarrow> u8 \<Rightarrow> u8 \<Rightarrow> u8 \<Rightarrow> u8 \<Rightarrow> u8 \<Rightarrow> u32" where
  "enc_r opc s t d sh f = push_bit 26 (ucast opc) OR push_bit 21 (ucast s) OR push_bit 16 (ucast t)
     OR push_bit 11 (ucast d) OR push_bit 6 (ucast sh) OR ucast f"

definition enc_i :: "u8 \<Rightarrow> u8 \<Rightarrow> u8 \<Rightarrow> u16 \<Rightarrow> u32" where
  "enc_i opc s t imm =
     push_bit 26 (ucast opc) OR push_bit 21 (ucast s) OR push_bit 16 (ucast t) OR ucast imm"

definition enc_j :: "u8 \<Rightarrow> u32 \<Rightarrow> u32" where
  "enc_j opc target = push_bit 26 (ucast opc) OR target"

lemma bit_at:
  "bit (push_bit k (ucast (b :: u8)) :: u32) n \<longleftrightarrow> k \<le> n \<and> n < 32 \<and> bit b (n - k)"
  by (auto simp: bit_push_bit_iff bit_ucast_iff)

lemma field_at:
  "bit (push_bit 26 (ucast (op i)) :: u32) n \<longleftrightarrow> 26 \<le> n \<and> n < 32 \<and> bit i n"
  "bit (push_bit 21 (ucast (rs i)) :: u32) n \<longleftrightarrow> 21 \<le> n \<and> n < 26 \<and> bit i n"
  "bit (push_bit 16 (ucast (rt i)) :: u32) n \<longleftrightarrow> 16 \<le> n \<and> n < 21 \<and> bit i n"
  "bit (push_bit 11 (ucast (rd i)) :: u32) n \<longleftrightarrow> 11 \<le> n \<and> n < 16 \<and> bit i n"
  "bit (push_bit 6 (ucast (shamt i)) :: u32) n \<longleftrightarrow> 6 \<le> n \<and> n < 11 \<and> bit i n"
  "bit (ucast (funct i) :: u32) n \<longleftrightarrow> n < 6 \<and> bit i n"
  "bit (ucast (imm16 i) :: u32) n \<longleftrightarrow> n < 16 \<and> bit i n"
  by (auto simp: bit_at bit_ucast_iff bit_fields)

lemma enc_r_fields: "enc_r (op i) (rs i) (rt i) (rd i) (shamt i) (funct i) = i"
  by (rule bit_word_eqI) (auto simp: enc_r_def bit_or_iff field_at)

lemma enc_i_fields: "enc_i (op i) (rs i) (rt i) (imm16 i) = i"
  by (rule bit_word_eqI) (auto simp: enc_i_def bit_or_iff field_at)

lemma enc_j_fields: "enc_j (op i) (target26 i) = i"
  by (rule bit_word_eqI) (auto simp: enc_j_def bit_or_iff field_at bit_fields)

text \<open>And back: the fields of an instruction word put together from fields of the right widths.\<close>

lemma bit_below:
  assumes "(b :: u8) < 2 ^ k" "bit b n"
  shows "n < k"
proof -
  have "bit (b AND mask k) n" using less_mask_eq [OF assms(1)] assms(2) by simp
  then show ?thesis by (simp add: bit_and_iff bit_mask_iff)
qed

lemma bit_above:
  "(b :: u8) < 32 \<Longrightarrow> 5 \<le> n \<Longrightarrow> \<not> bit b n" "(b :: u8) < 64 \<Longrightarrow> 6 \<le> n \<Longrightarrow> \<not> bit b n"
  using bit_below [of b 5 n] bit_below [of b 6 n] by auto

lemma bit_enc:
  assumes "opc < 64" "s < 32" "t < 32" "d < 32" "sh < 32" "f < 64"
  shows "bit (enc_r opc s t d sh f) n \<longleftrightarrow> n < 32 \<and>
      (if 26 \<le> n then bit opc (n - 26) else if 21 \<le> n then bit s (n - 21)
       else if 16 \<le> n then bit t (n - 16) else if 11 \<le> n then bit d (n - 11)
       else if 6 \<le> n then bit sh (n - 6) else bit f n)"
    "bit (enc_i opc s t imm) n \<longleftrightarrow> n < 32 \<and>
      (if 26 \<le> n then bit opc (n - 26) else if 21 \<le> n then bit s (n - 21)
       else if 16 \<le> n then bit t (n - 16) else bit imm n)"
  using assms bit_below [of opc 6 "n - 26"] bit_below [of s 5 "n - 21"] bit_below [of t 5 "n - 16"]
    bit_below [of d 5 "n - 11"] bit_below [of sh 5 "n - 6"] bit_below [of f 6 n]
    bit_imp_le_length [of imm n]
  by (auto simp: enc_r_def enc_i_def bit_or_iff bit_at bit_ucast_iff)

lemma enc_i_decode:
  assumes "opc < 64" "s < 32" "t < 32"
  shows "op (enc_i opc s t imm) = opc" "rs (enc_i opc s t imm) = s" "rt (enc_i opc s t imm) = t"
    "imm16 (enc_i opc s t imm) = imm"
proof -
  note bits = bit_fields bit_enc(2) [of opc s t 0 0 0]
  show "op (enc_i opc s t imm) = opc" "rs (enc_i opc s t imm) = s" "rt (enc_i opc s t imm) = t"
    using assms by (auto intro!: bit_word_eqI simp: bits bit_above not_less
      intro: ccontr)
  show "imm16 (enc_i opc s t imm) = imm"
    using assms by (auto intro!: bit_word_eqI simp: bits)
qed

lemma enc_r_decode:
  assumes "opc < 64" "s < 32" "t < 32" "d < 32" "sh < 32" "f < 64"
  shows "op (enc_r opc s t d sh f) = opc" "rs (enc_r opc s t d sh f) = s"
    "rt (enc_r opc s t d sh f) = t" "rd (enc_r opc s t d sh f) = d"
    "shamt (enc_r opc s t d sh f) = sh" "funct (enc_r opc s t d sh f) = f"
  using assms by (auto intro!: bit_word_eqI simp: bit_fields bit_enc(1) [OF assms]
      bit_above not_less intro: ccontr)

text \<open>
  The R and I formats are bijections. Every instruction word is put together again from the
  fields the accessors return, all register fields are indices of the 32-element register files,
  and every choice of fields is returned by the accessors.
\<close>

lemma formats_bijective:
  "enc_r (op i) (rs i) (rt i) (rd i) (shamt i) (funct i) = i
   \<and> enc_i (op i) (rs i) (rt i) (imm16 i) = i \<and> enc_j (op i) (target26 i) = i
   \<and> rs i < 32 \<and> rt i < 32 \<and> rd i < 32 \<and> shamt i < 32
   \<and> (opc < 64 \<longrightarrow> s < 32 \<longrightarrow> t < 32 \<longrightarrow>
        (op (enc_i opc s t imm), rs (enc_i opc s t imm), rt (enc_i opc s t imm),
         imm16 (enc_i opc s t imm)) = (opc, s, t, imm))
   \<and> (opc < 64 \<longrightarrow> s < 32 \<longrightarrow> t < 32 \<longrightarrow> d < 32 \<longrightarrow> sh < 32 \<longrightarrow> f < 64 \<longrightarrow>
        (op (enc_r opc s t d sh f), rs (enc_r opc s t d sh f), rt (enc_r opc s t d sh f),
         rd (enc_r opc s t d sh f), shamt (enc_r opc s t d sh f), funct (enc_r opc s t d sh f))
        = (opc, s, t, d, sh, f))"
  by (simp add: enc_r_fields enc_i_fields enc_j_fields register_fields_less enc_i_decode
      enc_r_decode)

lemma formats_bijective_witness: "rd (enc_r 0 4 5 6 0 FN_ADD) = 6"
  using formats_bijective [of 0 0 4 5 0 6 0 FN_ADD] by simp

end
