(* ===== verification/Machine.thy ===== *)
theory Machine
  imports Decode
begin

text \<open>
  The state of the emulator (\<open>struct global\<close> of include/utils.h and the static variables of
  cpu.c and device.c), the register numbers of include/define.h, and the host: what the emulator
  asks of the operating system, of SDL and of the floating-point hardware, as a record of
  functions that every operation reaching them takes as an argument.
\<close>

section \<open>Constants\<close>

abbreviation (input) MEM_SIZE :: nat where "MEM_SIZE \<equiv> 0x100000000"

abbreviation R0 :: u8 where "R0 \<equiv> 0"
abbreviation V0 :: u8 where "V0 \<equiv> 2"
abbreviation A0 :: u8 where "A0 \<equiv> 4"
abbreviation A1 :: u8 where "A1 \<equiv> 5"
abbreviation A2 :: u8 where "A2 \<equiv> 6"
abbreviation K0 :: u8 where "K0 \<equiv> 26"
abbreviation SP :: u8 where "SP \<equiv> 29"
abbreviation RA :: u8 where "RA \<equiv> 31"

section \<open>The emulator state\<close>

text \<open>
  \<open>reg\<close> and \<open>fpr\<close> are the arrays of 32 registers, indexed by the \<open>uint8_t\<close> the accessors return;
  only indices below 32 are in the array (\<open>formats_bijective\<close> and the guards of
  the double-precision accesses). \<open>memory\<close> is the mapping of \<open>MEM_SIZE\<close> bytes: an address is a
  \<open>uint32_t\<close>, so every access by address is inside it. \<open>branch_pending\<close> and \<open>branch_target\<close> are
  the statics of cpu.c, \<open>gpu_ready\<close> and \<open>last_key\<close> those of device.c. \<open>stdin_chars\<close> holds the characters
  the stream stdin still has to deliver, \<open>stdout_chars\<close> and \<open>stderr_chars\<close> what was printed on stdout and stderr,
  and \<open>world\<close> is everything outside the process, which only the host functions read or change.
\<close>

record 'w machine =
  reg :: "u8 \<Rightarrow> u32"
  hi :: u32
  lo :: u32
  fpr :: "u8 \<Rightarrow> u32"
  fp_cond :: int
  memory :: "u32 \<Rightarrow> u8"
  pc :: u32
  log_on :: bool
  branch_pending :: bool
  branch_target :: u32
  gpu_ready :: bool
  last_key :: u32
  stdin_chars :: string
  stdout_chars :: string
  stderr_chars :: string
  world :: 'w

text \<open>\<open>glob->reg[n] = v\<close> and \<open>glob->fpr[n] = v\<close>.\<close>

definition set_reg :: "u8 \<Rightarrow> u32 \<Rightarrow> 'w machine \<Rightarrow> 'w machine" where
  "set_reg n v g = g\<lparr>reg := (reg g)(n := v)\<rparr>"

definition set_fpr :: "u8 \<Rightarrow> u32 \<Rightarrow> 'w machine \<Rightarrow> 'w machine" where
  "set_fpr n v g = g\<lparr>fpr := (fpr g)(n := v)\<rparr>"

definition put_stdout :: "string \<Rightarrow> 'w machine \<Rightarrow> 'w machine" where
  "put_stdout s g = g\<lparr>stdout_chars := stdout_chars g @ s\<rparr>"

definition put_stderr :: "string \<Rightarrow> 'w machine \<Rightarrow> 'w machine" where
  "put_stderr s g = g\<lparr>stderr_chars := stderr_chars g @ s\<rparr>"

lemma set_reg_simps [simp]:
  "reg (set_reg n v g) = (reg g)(n := v)"
  "hi (set_reg n v g) = hi g" "lo (set_reg n v g) = lo g"
  "fpr (set_reg n v g) = fpr g" "fp_cond (set_reg n v g) = fp_cond g"
  "memory (set_reg n v g) = memory g" "pc (set_reg n v g) = pc g"
  "log_on (set_reg n v g) = log_on g"
  "branch_pending (set_reg n v g) = branch_pending g"
  "branch_target (set_reg n v g) = branch_target g"
  "gpu_ready (set_reg n v g) = gpu_ready g" "last_key (set_reg n v g) = last_key g"
  "stdin_chars (set_reg n v g) = stdin_chars g"
  "stdout_chars (set_reg n v g) = stdout_chars g"
  "stderr_chars (set_reg n v g) = stderr_chars g" "world (set_reg n v g) = world g"
  by (simp_all add: set_reg_def)

lemma set_fpr_simps [simp]:
  "reg (set_fpr n v g) = reg g" "hi (set_fpr n v g) = hi g" "lo (set_fpr n v g) = lo g"
  "fpr (set_fpr n v g) = (fpr g)(n := v)" "fp_cond (set_fpr n v g) = fp_cond g"
  "memory (set_fpr n v g) = memory g" "pc (set_fpr n v g) = pc g"
  "log_on (set_fpr n v g) = log_on g"
  "branch_pending (set_fpr n v g) = branch_pending g"
  "branch_target (set_fpr n v g) = branch_target g"
  "gpu_ready (set_fpr n v g) = gpu_ready g" "last_key (set_fpr n v g) = last_key g"
  "stdin_chars (set_fpr n v g) = stdin_chars g"
  "stdout_chars (set_fpr n v g) = stdout_chars g"
  "stderr_chars (set_fpr n v g) = stderr_chars g" "world (set_fpr n v g) = world g"
  by (simp_all add: set_fpr_def)

lemma put_simps [simp]:
  "reg (put_stdout s g) = reg g" "reg (put_stderr s g) = reg g"
  "hi (put_stdout s g) = hi g" "hi (put_stderr s g) = hi g"
  "lo (put_stdout s g) = lo g" "lo (put_stderr s g) = lo g"
  "fpr (put_stdout s g) = fpr g" "fpr (put_stderr s g) = fpr g"
  "fp_cond (put_stdout s g) = fp_cond g" "fp_cond (put_stderr s g) = fp_cond g"
  "memory (put_stdout s g) = memory g" "memory (put_stderr s g) = memory g"
  "pc (put_stdout s g) = pc g" "pc (put_stderr s g) = pc g"
  "log_on (put_stdout s g) = log_on g" "log_on (put_stderr s g) = log_on g"
  "branch_pending (put_stdout s g) = branch_pending g" "branch_pending (put_stderr s g) = branch_pending g"
  "branch_target (put_stdout s g) = branch_target g" "branch_target (put_stderr s g) = branch_target g"
  "gpu_ready (put_stdout s g) = gpu_ready g" "gpu_ready (put_stderr s g) = gpu_ready g"
  "last_key (put_stdout s g) = last_key g" "last_key (put_stderr s g) = last_key g"
  "stdin_chars (put_stdout s g) = stdin_chars g" "stdin_chars (put_stderr s g) = stdin_chars g"
  "world (put_stdout s g) = world g" "world (put_stderr s g) = world g"
  "stdout_chars (put_stdout s g) = stdout_chars g @ s"
  "stdout_chars (put_stderr s g) = stdout_chars g"
  "stderr_chars (put_stdout s g) = stderr_chars g"
  "stderr_chars (put_stderr s g) = stderr_chars g @ s"
  by (simp_all add: put_stdout_def put_stderr_def)

lemma set_reg_twice [simp]: "set_reg n v (set_reg n u g) = set_reg n v g"
  by (simp add: set_reg_def)

lemma set_reg_same: "set_reg n (reg g n) g = g"
  by (simp add: set_reg_def)

lemma set_reg_commute: "m \<noteq> n \<Longrightarrow> set_reg n v (set_reg m u g) = set_reg m u (set_reg n v g)"
  by (simp add: set_reg_def fun_upd_twist)

section \<open>The host\<close>

datatype sdl_event = SDL_QUIT | SDL_KEYDOWN u32 | SDL_OTHER

text \<open>
  The functions the sources call outside the C library: open(2), read(2), write(2) and close(2)
  on file descriptors, SDL, and the payload of a floating-point result that is a NaN, which the C
  standard leaves open. Each gets the world and returns it changed. \<open>have_sdl\<close> is the build's
  \<open>HAVE_SDL\<close>. \<open>sys_read fd n w\<close> returns the \<open>ssize_t\<close> result and the bytes stored in the buffer;
  \<open>sys_strerror\<close> is the text of \<open>errno\<close> after a call; \<open>sdl_poll\<close> gives the events \<open>SDL_PollEvent\<close> delivers until it returns 0; \<open>sdl_create\<close> whether the
  window, the renderer and the texture are not NULL; \<open>sdl_present\<close> shows a frame of pixel bytes;
  \<open>sdl_destroy\<close> destroys the three objects and quits SDL.
\<close>

record 'w host =
  sys_open :: "string \<Rightarrow> int \<Rightarrow> nat \<Rightarrow> 'w \<Rightarrow> int \<times> 'w"
  sys_read :: "int \<Rightarrow> nat \<Rightarrow> 'w \<Rightarrow> int \<times> u8 list \<times> 'w"
  sys_write :: "int \<Rightarrow> u8 list \<Rightarrow> 'w \<Rightarrow> int \<times> 'w"
  sys_close :: "int \<Rightarrow> 'w \<Rightarrow> int \<times> 'w"
  sys_strerror :: "'w \<Rightarrow> string"
  have_sdl :: bool
  sdl_init :: "'w \<Rightarrow> int \<times> 'w"
  sdl_create :: "'w \<Rightarrow> (bool \<times> bool \<times> bool) \<times> 'w"
  sdl_present :: "u8 list \<Rightarrow> 'w \<Rightarrow> 'w"
  sdl_poll :: "'w \<Rightarrow> sdl_event list \<times> 'w"
  sdl_destroy :: "'w \<Rightarrow> 'w"
  nan_single :: "u32 \<Rightarrow> u64 list \<Rightarrow> u32"
  nan_double :: "u32 \<Rightarrow> u64 list \<Rightarrow> u64"

text \<open>
  What POSIX documents of \<open>read\<close>: it stores at most the bytes asked for, and its result is their
  number, or -1 when it fails and stores none.
\<close>

definition host_reads :: "'w host \<Rightarrow> bool" where
  "host_reads h \<longleftrightarrow> (\<forall>fd n w. case sys_read h fd n w of (r, bs, w') \<Rightarrow>
     length bs \<le> n \<and> (r = int (length bs) \<or> r = -1 \<and> bs = []))"

text \<open>A host without files, keys or display, for closed examples: the world is the unit type.\<close>

definition quiet_host :: "unit host" where
  "quiet_host = \<lparr>sys_open = (\<lambda>_ _ _ w. (-1, w)), sys_read = (\<lambda>_ _ w. (0, [], w)),
     sys_write = (\<lambda>_ bs w. (int (length bs), w)), sys_close = (\<lambda>_ w. (0, w)),
     sys_strerror = (\<lambda>_. ''Success''),
     have_sdl = False, sdl_init = (\<lambda>w. (-1, w)), sdl_create = (\<lambda>w. ((False, False, False), w)),
     sdl_present = (\<lambda>_ w. w), sdl_poll = (\<lambda>w. ([], w)), sdl_destroy = (\<lambda>w. w),
     nan_single = (\<lambda>_ _. 0x7FC00000), nan_double = (\<lambda>_ _. 0x7FF8000000000000)\<rparr>"

lemma host_reads_quiet: "host_reads quiet_host"
  by (simp add: host_reads_def quiet_host_def)

text \<open>A machine with every register and every byte zero, for closed examples.\<close>

definition zero_machine :: "unit machine" where
  "zero_machine = \<lparr>reg = (\<lambda>_. 0), hi = 0, lo = 0, fpr = (\<lambda>_. 0), fp_cond = 0,
     memory = (\<lambda>_. 0), pc = 0, log_on = False, branch_pending = False, branch_target = 0,
     gpu_ready = False, last_key = 0, stdin_chars = [], stdout_chars = [], stderr_chars = [],
     world = ()\<rparr>"

end
