(* ===== verification/Device.thy ===== *)
theory Device
  imports Machine
begin

text \<open>
  The memory-mapped GPU (src/device.c, include/device.h), in both builds: with SDL, a store to
  \<open>GPU_FLUSH\<close> presents the framebuffer and collects key presses, and a load from \<open>GPU_INPUT\<close>
  reports the last key once; without SDL the two registers are accepted and do nothing.
\<close>

section \<open>Address map\<close>

abbreviation GPU_W :: nat where "GPU_W \<equiv> 160"
abbreviation GPU_H :: nat where "GPU_H \<equiv> 120"
abbreviation GPU_FB :: u32 where "GPU_FB \<equiv> 0x0F000000"
abbreviation GPU_FLUSH :: u32 where "GPU_FLUSH \<equiv> 0x0F0F0000"
abbreviation GPU_INPUT :: u32 where "GPU_INPUT \<equiv> 0x0F0F0004"

section \<open>The SDL backend\<close>

text \<open>
  \<open>gpu_shutdown\<close>, which \<open>gpu_init\<close> registers with \<open>atexit\<close> once the window, the renderer and the texture
  exist: all three are destroyed. \<open>exit_handlers\<close> is what the C library runs when \<open>main\<close> returns.
\<close>

definition gpu_shutdown :: "'w host \<Rightarrow> 'w machine \<Rightarrow> 'w machine" where
  "gpu_shutdown h g = g\<lparr>world := sdl_destroy h (world g)\<rparr>"

definition exit_handlers :: "'w host \<Rightarrow> 'w machine \<Rightarrow> 'w machine" where
  "exit_handlers h g = (if gpu_ready g then gpu_shutdown h g else g)"

text \<open>
  \<open>gpu_init\<close> returns whether the window, renderer and texture could be made; only then is the
  device ready.
\<close>

definition gpu_init :: "'w host \<Rightarrow> 'w machine \<Rightarrow> bool \<times> 'w machine" where
  "gpu_init h g =
     (let (rc, w) = sdl_init h (world g) in
      if rc \<noteq> 0 then (False, g\<lparr>world := w\<rparr>)
      else let ((window, renderer, texture), w') = sdl_create h w in
        if \<not> window \<or> \<not> renderer \<or> \<not> texture then (False, g\<lparr>world := w'\<rparr>)
        else (True, g\<lparr>gpu_ready := True, world := w'\<rparr>))"

text \<open>One event of the queue: closing the window counts as the key q.\<close>

fun handle_event :: "u32 \<Rightarrow> sdl_event \<Rightarrow> u32" where
  "handle_event key SDL_QUIT = of_char (CHR ''q'')"
| "handle_event key (SDL_KEYDOWN keysym) = keysym AND 0xFF"
| "handle_event key SDL_OTHER = key"

definition pump_events :: "'w host \<Rightarrow> 'w machine \<Rightarrow> 'w machine" where
  "pump_events h g =
     (let (events, w) = sdl_poll h (world g)
      in g\<lparr>last_key := foldl handle_event (last_key g) events, world := w\<rparr>)"

text \<open>The bytes of the texture: \<open>GPU_H\<close> rows of \<open>GPU_W * 4\<close> bytes from \<open>GPU_FB\<close> on.\<close>

definition framebuffer :: "'w machine \<Rightarrow> u8 list" where
  "framebuffer g = map (\<lambda>k. memory g (GPU_FB + of_nat k)) [0..<GPU_W * 4 * GPU_H]"

definition gpu_flush :: "'w host \<Rightarrow> 'w machine \<Rightarrow> 'w machine" where
  "gpu_flush h g =
     (let (ok, g') = (if gpu_ready g then (True, g) else gpu_init h g) in
      if \<not> ok then g'
      else pump_events h (g'\<lparr>world := sdl_present h (framebuffer g') (world g')\<rparr>))"

section \<open>The device registers\<close>

text \<open>
  Both functions return whether the address was a device register; the value loaded from one is
  the \<open>Some\<close> of the option.
\<close>

definition device_store_word :: "'w host \<Rightarrow> u32 \<Rightarrow> u32 \<Rightarrow> 'w machine \<Rightarrow> bool \<times> 'w machine" where
  "device_store_word h addr value g =
     (if have_sdl h
      then (if addr = GPU_FLUSH then (True, gpu_flush h g) else (False, g))
      else (addr = GPU_FLUSH, g))"

definition device_load_word :: "'w host \<Rightarrow> u32 \<Rightarrow> 'w machine \<Rightarrow> u32 option \<times> 'w machine" where
  "device_load_word h addr g =
     (if addr = GPU_INPUT
      then (if have_sdl h then (Some (last_key g), g\<lparr>last_key := 0\<rparr>) else (Some 0, g))
      else (None, g))"

section \<open>What the device leaves alone\<close>

text \<open>
  The device writes \<open>gpu_ready\<close>, \<open>last_key\<close> and the world and nothing else. \<open>cpu_part\<close> is the
  rest of the state, everything the emulated program can see but by reading \<open>GPU_INPUT\<close>.
\<close>

definition cpu_part :: "'w machine \<Rightarrow> 'w machine" where
  "cpu_part g = g\<lparr>gpu_ready := False, last_key := 0, world := undefined\<rparr>"

lemma cpu_part_fields:
  assumes "cpu_part g = cpu_part g'"
  shows "reg g = reg g'" "hi g = hi g'" "lo g = lo g'" "fpr g = fpr g'"
    "fp_cond g = fp_cond g'" "memory g = memory g'" "pc g = pc g'" "log_on g = log_on g'"
    "branch_pending g = branch_pending g'" "branch_target g = branch_target g'"
    "stdin_chars g = stdin_chars g'" "stdout_chars g = stdout_chars g'"
    "stderr_chars g = stderr_chars g'"
  using assms by (cases g; cases g'; simp add: cpu_part_def)+

lemma cpu_part_updates [simp]:
  "cpu_part (g\<lparr>world := w\<rparr>) = cpu_part g"
  "cpu_part (g\<lparr>last_key := k\<rparr>) = cpu_part g"
  "cpu_part (g\<lparr>gpu_ready := b\<rparr>) = cpu_part g"
  by (simp_all add: cpu_part_def)

lemma gpu_init_cpu_part: "cpu_part (snd (gpu_init h g)) = cpu_part g"
  by (simp add: gpu_init_def Let_def case_prod_beta cpu_part_def)

lemma pump_events_cpu_part: "cpu_part (pump_events h g) = cpu_part g"
  by (simp add: pump_events_def case_prod_beta cpu_part_def)

lemma gpu_flush_cpu_part: "cpu_part (gpu_flush h g) = cpu_part g"
  by (simp add: gpu_flush_def Let_def case_prod_beta pump_events_cpu_part gpu_init_cpu_part)

lemma device_store_cpu_part: "cpu_part (snd (device_store_word h a v g)) = cpu_part g"
  by (simp add: device_store_word_def gpu_flush_cpu_part)

lemma device_load_cpu_part: "cpu_part (snd (device_load_word h a g)) = cpu_part g"
  by (simp add: device_load_word_def)

lemmas device_load_frame [simp] = cpu_part_fields [OF device_load_cpu_part]
lemmas device_store_frame [simp] = cpu_part_fields [OF device_store_cpu_part]

lemma device_store_ram: "a \<noteq> GPU_FLUSH \<Longrightarrow> device_store_word h a v g = (False, g)"
  by (simp add: device_store_word_def)

lemma device_load_ram: "a \<noteq> GPU_INPUT \<Longrightarrow> device_load_word h a g = (None, g)"
  by (simp add: device_load_word_def)

lemma handle_events_last:
  "foldl handle_event key (events @ [SDL_KEYDOWN keysym]) = keysym AND 0xFF"
  by simp

end
