(* ===== verification/Word_Port.thy ===== *)
theory Word_Port
  imports Prelude
begin

text \<open>
  Words in byte-addressed memory: the little-endian reading and writing of four consecutive bytes
  (src/functions.c), the merges of the unaligned loads and stores (src/cpu.c), and the locale
  \<open>word_port\<close>, the contract between the provider of word accesses and the instructions that use
  them.
\<close>

section \<open>Four bytes, little-endian\<close>

text \<open>
  The expression \<open>load_word\<close> returns and the four assignments of \<open>store_word\<close>. The addresses are
  \<open>uint32_t\<close>: they wrap at the end of the memory.
\<close>

definition le_word :: "(u32 \<Rightarrow> u8) \<Rightarrow> u32 \<Rightarrow> u32" where
  "le_word m a = ucast (m a) OR push_bit 8 (ucast (m (a + 1)))
     OR push_bit 16 (ucast (m (a + 2))) OR push_bit 24 (ucast (m (a + 3)))"

definition le_update :: "u32 \<Rightarrow> u32 \<Rightarrow> (u32 \<Rightarrow> u8) \<Rightarrow> (u32 \<Rightarrow> u8)" where
  "le_update a v m = m(a := ucast (v AND 0xFF),
     a + 1 := ucast (drop_bit 8 v AND 0xFF),
     a + 2 := ucast (drop_bit 16 v AND 0xFF),
     a + 3 := ucast (drop_bit 24 v AND 0xFF))"

lemma bit_byte_at:
  "bit (push_bit k (ucast (b :: u8)) :: u32) n \<longleftrightarrow> k \<le> n \<and> n < 32 \<and> n < k + 8 \<and> bit b (n - k)"
  by (auto simp: bit_push_bit_iff bit_ucast_iff dest: bit_imp_le_length)

text \<open>The bits of the word, byte by byte.\<close>

lemma bit_le_word_bytes:
  assumes "r < 8"
  shows "bit (le_word m a) r = bit (m a) r"
    "bit (le_word m a) (8 + r) = bit (m (a + 1)) r"
    "bit (le_word m a) (16 + r) = bit (m (a + 2)) r"
    "bit (le_word m a) (24 + r) = bit (m (a + 3)) r"
  using assms bit_byte_at [of 0 "m a"] by (simp_all add: le_word_def bit_or_iff bit_byte_at)

lemma bit_le_word_bytes':
  assumes "r < 8"
  shows "bit (le_word m a) (r + 8) = bit (m (a + 1)) r"
    "bit (le_word m a) (r + 16) = bit (m (a + 2)) r"
    "bit (le_word m a) (r + 24) = bit (m (a + 3)) r"
  using bit_le_word_bytes [OF assms, of m a] by (simp_all add: add.commute)

text \<open>Equality of words byte by byte.\<close>

lemma word_bytes_eqI:
  fixes v w :: u32
  assumes "\<And>r. r < 8 \<Longrightarrow> bit v r = bit w r" and "\<And>r. r < 8 \<Longrightarrow> bit v (8 + r) = bit w (8 + r)"
    and "\<And>r. r < 8 \<Longrightarrow> bit v (16 + r) = bit w (16 + r)"
    and "\<And>r. r < 8 \<Longrightarrow> bit v (24 + r) = bit w (24 + r)"
  shows "v = w"
proof (rule bit_word_eqI)
  fix n assume "n < LENGTH(32)"
  then have n: "n < 32" by simp
  consider "n < 8" | "8 \<le> n" "n < 16" | "16 \<le> n" "n < 24" | "24 \<le> n"
    by linarith
  then show "bit v n = bit w n"
  proof cases
    case 1
    then show ?thesis by (rule assms(1))
  next
    case 2
    then show ?thesis using assms(2) [of "n - 8"] by simp
  next
    case 3
    then show ?thesis using assms(3) [of "n - 16"] by simp
  next
    case 4
    then show ?thesis using assms(4) [of "n - 24"] n by simp
  qed
qed

lemma byte_of_word: "bit (ucast (drop_bit k v AND 0xFF) :: u8) n \<longleftrightarrow> n < 8 \<and> bit (v :: u32) (k + n)"
proof -
  have ff: "(0xFF :: u32) = mask 8" by (simp add: mask_eq_exp_minus_1)
  show ?thesis unfolding ff by (auto simp: bit_simps)
qed

lemma byte_of_word_0: "bit (ucast (v AND 0xFF) :: u8) n \<longleftrightarrow> n < 8 \<and> bit (v :: u32) n"
  using byte_of_word [of 0 v n] by simp

lemma le_word_update_same: "le_word (le_update a v m) a = v"
  by (rule word_bytes_eqI)
    (simp_all add: bit_le_word_bytes le_update_def byte_of_word byte_of_word_0 bit_drop_bit_eq)

text \<open>Two words do not overlap when each starts at least four bytes after the other.\<close>

definition apart :: "u32 \<Rightarrow> u32 \<Rightarrow> bool" where
  "apart a b \<longleftrightarrow> 4 \<le> b - a \<and> 4 \<le> a - b"

lemma apart_commute: "apart a b \<longleftrightarrow> apart b a"
  by (auto simp: apart_def)

lemma le_update_other:
  assumes "4 \<le> b - a"
  shows "le_update a v m b = m b"
proof -
  have "b \<noteq> a + k" if "k < 4" for k
  proof
    assume "b = a + k"
    with assms that show False by simp
  qed
  from this [of 0] this [of 1] this [of 2] this [of 3] show ?thesis
    by (simp add: le_update_def)
qed

lemma apart_bytes:
  assumes "apart a b" and "j < 4"
  shows "4 \<le> b + of_nat j - a"
proof -
  from assms(1) have ab: "4 \<le> unat (b - a)" and ba: "4 \<le> unat (a - b)"
    by (simp_all add: apart_def word_le_nat_alt)
  then have le: "unat (b - a) \<le> 2 ^ 32 - 4"
    using unat_sub_if' [of a b] unat_sub_if' [of b a] by (auto split: if_splits)
  have "unat (of_nat j :: u32) = j"
    using assms(2) by (simp add: unat_of_nat)
  then have "unat (b - a + of_nat j) = unat (b - a) + j"
    using le assms(2) by (simp add: unat_word_ariths)
  then have "4 \<le> b - a + of_nat j"
    using ab by (simp add: word_le_nat_alt)
  then show ?thesis by (simp add: algebra_simps)
qed

lemma le_word_update_apart:
  assumes "apart a b"
  shows "le_word (le_update a v m) b = le_word m b"
proof -
  have "le_update a v m (b + of_nat j) = m (b + of_nat j)" if "j < 4" for j
    by (intro le_update_other apart_bytes [OF assms that])
  from this [of 0] this [of 1] this [of 2] this [of 3] show ?thesis
    by (simp add: le_word_def)
qed

section \<open>The merges of the unaligned accesses\<close>

text \<open>
  The expressions of lwl, lwr, swl and swr in \<open>exec_immediate\<close> (src/cpu.c): \<open>a\<close> is the effective
  address, \<open>w\<close> the aligned word around it, \<open>r\<close> the value of the register.
\<close>

definition word_align :: "u32 \<Rightarrow> u32" where
  "word_align a = a AND NOT 3"

definition lwl_merge :: "u32 \<Rightarrow> u32 \<Rightarrow> u32 \<Rightarrow> u32" where
  "lwl_merge a w r =
     (let s = unat (24 - 8 * (a AND 3)) in push_bit s w OR (r AND (push_bit s 1 - 1)))"

definition lwr_merge :: "u32 \<Rightarrow> u32 \<Rightarrow> u32 \<Rightarrow> u32" where
  "lwr_merge a w r =
     (let s = unat (8 * (a AND 3)) in drop_bit s w OR (r AND NOT (drop_bit s 0xFFFFFFFF)))"

definition swl_merge :: "u32 \<Rightarrow> u32 \<Rightarrow> u32 \<Rightarrow> u32" where
  "swl_merge a w r =
     (let s = unat (24 - 8 * (a AND 3)) in drop_bit s r OR (w AND NOT (drop_bit s 0xFFFFFFFF)))"

definition swr_merge :: "u32 \<Rightarrow> u32 \<Rightarrow> u32 \<Rightarrow> u32" where
  "swr_merge a w r =
     (let s = unat (8 * (a AND 3)) in push_bit s r OR (w AND (push_bit s 1 - 1)))"

text \<open>A left part shifted up over a kept low part, and a right part shifted down under a kept high one.\<close>

lemma bit_shift_over:
  "bit (push_bit s w OR (r AND (push_bit s 1 - 1)) :: u32) n \<longleftrightarrow>
     n < 32 \<and> (if n < s then bit r n else bit w (n - s))"
proof -
  have "push_bit s 1 - 1 = (mask s :: u32)"
    by (simp add: mask_eq_exp_minus_1 push_bit_eq_mult)
  then show ?thesis
    by (auto simp: bit_simps dest: bit_imp_le_length)
qed

lemma bit_shift_under:
  assumes "s \<le> 32"
  shows "bit (drop_bit s w OR (r AND NOT (drop_bit s 0xFFFFFFFF)) :: u32) n \<longleftrightarrow>
     n < 32 \<and> (if n + s < 32 then bit w (n + s) else bit r n)"
proof -
  have ones: "(0xFFFFFFFF :: u32) = mask 32" by (simp add: mask_eq_exp_minus_1)
  have "bit (drop_bit s w) n \<longleftrightarrow> n + s < 32 \<and> bit w (n + s)"
    by (auto simp: bit_drop_bit_eq add.commute dest: bit_imp_le_length)
  then show ?thesis
    unfolding ones using assms
    by (auto simp: bit_or_iff bit_and_iff bit_not_iff bit_mask_iff bit_drop_bit_eq add.commute
        dest: bit_imp_le_length)
qed

lemma low_bits_cases:
  obtains "a AND 3 = (0 :: u32)" | "a AND 3 = 1" | "a AND 3 = 2" | "a AND 3 = 3"
proof -
  have "a AND 3 \<le> 3" by (rule word_and_le1)
  then have "a AND 3 = 0 \<or> a AND 3 = 1 \<or> a AND 3 = 2 \<or> a AND 3 = 3" by unat_arith
  then show thesis using that by blast
qed

text \<open>The aligned address and the next one, when the low bits of the address are known.\<close>

lemma word_align_split: "a = word_align a + (a AND 3)"
proof -
  have "(a AND NOT 3) + (a AND 3) = (a AND NOT 3) OR (a AND 3)"
    by (rule disjunctive_add) (auto simp: bit_simps)
  also have "\<dots> = a"
    by (rule bit_word_eqI) (auto simp: bit_simps)
  finally show ?thesis by (simp only: word_align_def)
qed

lemma word_align_diff: "word_align a = a - (a AND 3)"
  using word_align_split [of a] by (simp add: eq_diff_eq)

lemma word_align_low: "word_align a AND 3 = 0"
  unfolding word_align_def and.assoc by simp

lemma word_align_idem: "al AND 3 = 0 \<Longrightarrow> word_align al = al"
  using word_align_split [of al] by simp

lemma take_bit_add_word: "take_bit n (take_bit n a + take_bit n b) = take_bit n (a + b :: u32)"
  by transfer (simp add: take_bit_add min.commute)

lemma low_bits_eq: "a AND 3 = (take_bit 2 a :: u32)"
proof -
  have "(3 :: u32) = mask 2" by (simp add: mask_eq_exp_minus_1)
  then show ?thesis by (simp only: take_bit_eq_mask)
qed

lemma low_bits_add:
  assumes al: "al AND 3 = (0 :: u32)"
  shows "(al + j) AND 3 = j AND 3" "(j + al) AND 3 = j AND 3"
    "word_align (al + j) = al + word_align j" "word_align (j + al) = al + word_align j"
proof -
  have "take_bit 2 (al + j) = take_bit 2 (take_bit 2 al + take_bit 2 j)"
    by (simp only: take_bit_add_word)
  also have "\<dots> = take_bit 2 j"
    using al by (simp add: low_bits_eq)
  finally show low: "(al + j) AND 3 = j AND 3"
    by (simp add: low_bits_eq)
  show al_j: "word_align (al + j) = al + word_align j"
    by (simp add: word_align_diff low)
  from low al_j show "(j + al) AND 3 = j AND 3" "word_align (j + al) = al + word_align j"
    by (simp_all only: add.commute)
qed

section \<open>Unaligned words\<close>

text \<open>
  The pair lwl at \<open>a + 3\<close> and lwr at \<open>a\<close> assembles the word at any address \<open>a\<close>, whatever the
  register held before; the pair swl and swr writes it.
\<close>

lemma unaligned_cases:
  fixes a :: u32
  obtains al where "al AND 3 = 0" "a = al" | al where "al AND 3 = 0" "a = al + 1"
    | al where "al AND 3 = 0" "a = al + 2" | al where "al AND 3 = 0" "a = al + 3"
  using word_align_split [of a] word_align_low [of a] low_bits_cases [of a] by (metis add_0_right)

lemma word_align_small: "word_align 1 = 0" "word_align 2 = 0" "word_align 3 = 0"
    "word_align 4 = 4" "word_align 5 = 4" "word_align 6 = 4"
  by (simp_all add: word_align_def)

lemma shift_amounts: "24 - 8 * (a AND 3) \<le> (32 :: u32)" "8 * (a AND 3) \<le> (32 :: u32)"
  by (rule low_bits_cases [of a]; simp)+

lemma bit_lwl_merge:
  "bit (lwl_merge a w r) n \<longleftrightarrow> n < 32 \<and>
     (if n < unat (24 - 8 * (a AND 3)) then bit r n else bit w (n - unat (24 - 8 * (a AND 3))))"
  unfolding lwl_merge_def Let_def by (rule bit_shift_over)

lemma bit_swr_merge:
  "bit (swr_merge a w r) n \<longleftrightarrow> n < 32 \<and>
     (if n < unat (8 * (a AND 3)) then bit w n else bit r (n - unat (8 * (a AND 3))))"
  unfolding swr_merge_def Let_def by (rule bit_shift_over)

lemma bit_lwr_merge:
  "bit (lwr_merge a w r) n \<longleftrightarrow> n < 32 \<and>
     (if n + unat (8 * (a AND 3)) < 32 then bit w (n + unat (8 * (a AND 3))) else bit r n)"
  unfolding lwr_merge_def Let_def
  by (rule bit_shift_under) (use shift_amounts [of a] in \<open>simp add: word_le_nat_alt\<close>)

lemma bit_swl_merge:
  "bit (swl_merge a w r) n \<longleftrightarrow> n < 32 \<and>
     (if n + unat (24 - 8 * (a AND 3)) < 32 then bit r (n + unat (24 - 8 * (a AND 3))) else bit w n)"
  unfolding swl_merge_def Let_def
  by (rule bit_shift_under) (use shift_amounts [of a] in \<open>simp add: word_le_nat_alt\<close>)

lemmas merge_simps = low_bits_add word_align_idem word_align_small bit_lwl_merge bit_swr_merge
  bit_lwr_merge bit_swl_merge bit_le_word_bytes bit_le_word_bytes'

lemma unaligned_read:
  "lwr_merge a (le_word m (word_align a)) (lwl_merge (a + 3) (le_word m (word_align (a + 3))) r)
     = le_word m a"
proof (rule unaligned_cases [of a])
  fix al :: u32 assume al: "al AND 3 = 0" and a: "a = al"
  show ?thesis
    unfolding a by (rule word_bytes_eqI) (simp_all add: merge_simps al add.commute [of al])
next
  fix al :: u32 assume al: "al AND 3 = 0" and a: "a = al + 1"
  show ?thesis
    unfolding a by (rule word_bytes_eqI) (simp_all add: merge_simps al add.commute [of al])
next
  fix al :: u32 assume al: "al AND 3 = 0" and a: "a = al + 2"
  show ?thesis
    unfolding a by (rule word_bytes_eqI) (simp_all add: merge_simps al add.commute [of al])
next
  fix al :: u32 assume al: "al AND 3 = 0" and a: "a = al + 3"
  show ?thesis
    unfolding a by (rule word_bytes_eqI) (simp_all add: merge_simps al add.commute [of al])
qed

text \<open>
  The write side: the same two words, merged and stored, change exactly the four bytes at \<open>a\<close>.
  The swl comes first, so the swr reads the word the swl may already have changed.
\<close>

definition swl_bytes :: "u32 \<Rightarrow> u32 \<Rightarrow> (u32 \<Rightarrow> u8) \<Rightarrow> (u32 \<Rightarrow> u8)" where
  "swl_bytes a r m = le_update (word_align a) (swl_merge a (le_word m (word_align a)) r) m"

definition swr_bytes :: "u32 \<Rightarrow> u32 \<Rightarrow> (u32 \<Rightarrow> u8) \<Rightarrow> (u32 \<Rightarrow> u8)" where
  "swr_bytes a r m = le_update (word_align a) (swr_merge a (le_word m (word_align a)) r) m"

lemma byte_eqI: "(\<And>n. n < 8 \<Longrightarrow> bit v n = bit w n) \<Longrightarrow> v = (w :: u8)"
  by (rule bit_word_eqI) simp

lemmas write_simps = merge_simps le_update_def byte_of_word byte_of_word_0 bit_drop_bit_eq

lemma unaligned_write:
  "swr_bytes a r (swl_bytes (a + 3) r m) = le_update a r m"
proof (rule unaligned_cases [of a]; rule ext)
  fix al b :: u32 assume al: "al AND 3 = 0" and a: "a = al"
  show "swr_bytes a r (swl_bytes (a + 3) r m) b = le_update a r m b"
    unfolding a swr_bytes_def swl_bytes_def
    by (rule byte_eqI) (simp add: write_simps al add.commute [of al]; simp add: add.commute)
next
  fix al b :: u32 assume al: "al AND 3 = 0" and a: "a = al + 1"
  show "swr_bytes a r (swl_bytes (a + 3) r m) b = le_update a r m b"
    unfolding a swr_bytes_def swl_bytes_def
    by (rule byte_eqI) (simp add: write_simps al add.commute [of al]; simp add: add.commute)
next
  fix al b :: u32 assume al: "al AND 3 = 0" and a: "a = al + 2"
  show "swr_bytes a r (swl_bytes (a + 3) r m) b = le_update a r m b"
    unfolding a swr_bytes_def swl_bytes_def
    by (rule byte_eqI) (simp add: write_simps al add.commute [of al]; simp add: add.commute)
next
  fix al b :: u32 assume al: "al AND 3 = 0" and a: "a = al + 3"
  show "swr_bytes a r (swl_bytes (a + 3) r m) b = le_update a r m b"
    unfolding a swr_bytes_def swl_bytes_def
    by (rule byte_eqI) (simp add: write_simps al add.commute [of al]; simp add: add.commute)
qed

section \<open>The contract of word accesses\<close>

text \<open>
  A provider of word accesses: \<open>load\<close> and \<open>store\<close> on a state whose memory is \<open>bytes\<close>. At an address
  that is not one of its \<open>device\<close> registers a load returns the four bytes and changes nothing, and
  a store changes exactly the four bytes. The instructions (lw, sw, the unaligned pairs and the
  floating-point loads and stores) need no more of it.
\<close>

locale word_port =
  fixes load :: "u32 \<Rightarrow> 's \<Rightarrow> u32 \<times> 's"
    and store :: "u32 \<Rightarrow> u32 \<Rightarrow> 's \<Rightarrow> 's"
    and bytes :: "'s \<Rightarrow> u32 \<Rightarrow> u8"
    and device :: "u32 \<Rightarrow> bool"
  assumes load_ram: "\<not> device a \<Longrightarrow> load a s = (le_word (bytes s) a, s)"
    and store_ram: "\<not> device a \<Longrightarrow> bytes (store a v s) = le_update a v (bytes s)"
begin

lemma load_store_same: "\<not> device a \<Longrightarrow> load a (store a v s) = (v, store a v s)"
  by (simp add: load_ram store_ram le_word_update_same)

lemma load_store_apart:
  "\<not> device a \<Longrightarrow> \<not> device b \<Longrightarrow> apart a b \<Longrightarrow> fst (load b (store a v s)) = fst (load b s)"
  by (simp add: load_ram store_ram le_word_update_apart)

lemma store_frame: "\<not> device a \<Longrightarrow> 4 \<le> b - a \<Longrightarrow> bytes (store a v s) b = bytes s b"
  by (simp add: store_ram le_update_other)

text \<open>Two words stored one after the other are both there (sdc1, ldc1).\<close>

lemma load_store_pair:
  fixes s :: 's and v w :: u32
  assumes "\<not> device a" "\<not> device (a + 4)"
  defines "s' \<equiv> store (a + 4) w (store a v s)"
  shows "load a s' = (v, s')" "load (a + 4) s' = (w, s')"
proof -
  have "apart (a + 4) a" by (simp add: apart_def word_le_nat_alt)
  then show "load a s' = (v, s')"
    using assms(1,2) unfolding s'_def
    by (simp add: load_ram store_ram le_word_update_apart le_word_update_same)
  show "load (a + 4) s' = (w, s')"
    using assms(2) unfolding s'_def by (rule load_store_same)
qed

text \<open>An unaligned load through the two aligned words around it.\<close>

lemma unaligned_load:
  assumes "\<not> device (word_align a)" "\<not> device (word_align (a + 3))"
  shows "lwr_merge a (fst (load (word_align a) s))
      (lwl_merge (a + 3) (fst (load (word_align (a + 3)) s)) r) = le_word (bytes s) a"
  using assms by (simp add: load_ram unaligned_read)

text \<open>An unaligned store through the same two words.\<close>

lemma unaligned_store:
  fixes s :: 's and r :: u32
  assumes "\<not> device (word_align a)" "\<not> device (word_align (a + 3))"
  defines "s1 \<equiv> store (word_align (a + 3))
      (swl_merge (a + 3) (fst (load (word_align (a + 3)) s)) r) s"
  shows "bytes (store (word_align a) (swr_merge a (fst (load (word_align a) s1)) r) s1)
      = le_update a r (bytes s)"
proof -
  have "bytes s1 = swl_bytes (a + 3) r (bytes s)"
    unfolding s1_def using assms(2) by (simp add: load_ram store_ram swl_bytes_def)
  then show ?thesis
    using assms(1) unaligned_write [of a r "bytes s"]
    by (simp add: load_ram store_ram swr_bytes_def)
qed

end

end
