(* ===== verification/Functions.thy ===== *)
theory Functions
  imports Device Word_Port "HOL-Library.Signed_Division"
begin

text \<open>
  The instruction semantics that need more than an expression (src/functions.c): signed
  arithmetic that reports overflow in \<open>$k0\<close>, 64-bit multiplication and division into HI and LO,
  and the byte-addressed little-endian memory accesses. The word accesses ask the device first.

  The interface the rest of the emulator relies on for memory is the locale \<open>word_port\<close>: outside
  the device registers a load and a store of a word act on four consecutive bytes, little-endian.
\<close>

section \<open>Arithmetic\<close>

definition sreg :: "'w machine \<Rightarrow> u8 \<Rightarrow> int" where
  "sreg g n = sint (reg g n)"

definition add_instr :: "u32 \<Rightarrow> 'w machine \<Rightarrow> 'w machine" where
  "add_instr i g =
     (let res = sreg g (rs i) + sreg g (rt i) in
      if \<not> fits_signed 32 res then set_reg K0 1 g
      else set_reg (rd i) (word_of_int res) (set_reg K0 0 g))"

definition sub_instr :: "u32 \<Rightarrow> 'w machine \<Rightarrow> 'w machine" where
  "sub_instr i g =
     (let res = sreg g (rs i) - sreg g (rt i) in
      if \<not> fits_signed 32 res then set_reg K0 1 g
      else set_reg (rd i) (word_of_int res) (set_reg K0 0 g))"

definition addi_instr :: "u32 \<Rightarrow> 'w machine \<Rightarrow> 'w machine" where
  "addi_instr i g =
     (let res = sreg g (rs i) + sint (imm16 i) in
      if \<not> fits_signed 32 res then set_reg K0 1 g
      else set_reg (rt i) (word_of_int res) (set_reg K0 0 g))"

text \<open>
  The product of two \<open>int32_t\<close> is computed in \<open>int64_t\<close>, where it always fits; \<open>>>\<close> on it is the
  arithmetic shift.
\<close>

definition mult_instr :: "u32 \<Rightarrow> 'w machine \<Rightarrow> 'w machine" where
  "mult_instr i g =
     (let res = (word_of_int (sreg g (rs i) * sreg g (rt i)) :: u64)
      in g\<lparr>lo := ucast res, hi := ucast (signed_drop_bit 32 res)\<rparr>)"

definition multu_instr :: "u32 \<Rightarrow> 'w machine \<Rightarrow> 'w machine" where
  "multu_instr i g =
     (let res = (ucast (reg g (rs i)) * ucast (reg g (rt i)) :: u64)
      in g\<lparr>lo := ucast res, hi := ucast (drop_bit 32 res)\<rparr>)"

text \<open>
  \<open>/\<close> and \<open>%\<close> of C truncate towards zero. \<open>INT_MIN / -1\<close> does not fit an \<open>int32_t\<close>: undefined.
\<close>

definition div_instr :: "u32 \<Rightarrow> 'w machine \<Rightarrow> 'w machine result" where
  "div_instr i g =
     (let a = sreg g (rs i); b = sreg g (rt i) in
      if b = 0 then Inr g
      else if \<not> fits_signed 32 (a sdiv b) then Inl Division_overflow
      else Inr (g\<lparr>lo := word_of_int (a sdiv b), hi := word_of_int (a smod b)\<rparr>))"

definition divu_instr :: "u32 \<Rightarrow> 'w machine \<Rightarrow> 'w machine" where
  "divu_instr i g =
     (let a = reg g (rs i); b = reg g (rt i) in
      if b = 0 then g else g\<lparr>lo := a div b, hi := a mod b\<rparr>)"

text \<open>HI and LO as one 64-bit word.\<close>

definition acc_u64 :: "'w machine \<Rightarrow> u64" where
  "acc_u64 g = push_bit 32 (ucast (hi g)) OR ucast (lo g)"

section \<open>Byte-addressed little-endian memory\<close>

text \<open>\<open>m[address] = v\<close>.\<close>

definition poke :: "u32 \<Rightarrow> u8 \<Rightarrow> 'w machine \<Rightarrow> 'w machine" where
  "poke a v g = g\<lparr>memory := (memory g)(a := v)\<rparr>"

definition load_byte :: "u32 \<Rightarrow> 'w machine \<Rightarrow> u32" where
  "load_byte a g = ucast (memory g a)"

definition load_half :: "u32 \<Rightarrow> 'w machine \<Rightarrow> u32" where
  "load_half a g = ucast (memory g a) OR push_bit 8 (ucast (memory g (a + 1)))"

definition load_word :: "'w host \<Rightarrow> u32 \<Rightarrow> 'w machine \<Rightarrow> u32 \<times> 'w machine" where
  "load_word h a g =
     (case device_load_word h a g of
        (Some dev, g') \<Rightarrow> (dev, g')
      | (None, g') \<Rightarrow> (le_word (memory g') a, g'))"

definition store_byte :: "u32 \<Rightarrow> u32 \<Rightarrow> 'w machine \<Rightarrow> 'w machine" where
  "store_byte a v g = poke a (ucast (v AND 0xFF)) g"

definition store_half :: "u32 \<Rightarrow> u32 \<Rightarrow> 'w machine \<Rightarrow> 'w machine" where
  "store_half a v g =
     poke (a + 1) (ucast (drop_bit 8 v AND 0xFF)) (poke a (ucast (v AND 0xFF)) g)"

definition store_word :: "'w host \<Rightarrow> u32 \<Rightarrow> u32 \<Rightarrow> 'w machine \<Rightarrow> 'w machine" where
  "store_word h a v g =
     (case device_store_word h a v g of
        (True, g') \<Rightarrow> g'
      | (False, g') \<Rightarrow>
          poke (a + 3) (ucast (drop_bit 24 v AND 0xFF))
            (poke (a + 2) (ucast (drop_bit 16 v AND 0xFF))
              (poke (a + 1) (ucast (drop_bit 8 v AND 0xFF))
                (poke a (ucast (v AND 0xFF)) g'))))"

section \<open>The memory accesses meet the contract\<close>

definition device_register :: "u32 \<Rightarrow> bool" where
  "device_register a \<longleftrightarrow> a = GPU_FLUSH \<or> a = GPU_INPUT"

lemma poke_simps [simp]:
  "memory (poke a v g) = (memory g)(a := v)"
  "reg (poke a v g) = reg g" "hi (poke a v g) = hi g" "lo (poke a v g) = lo g"
  "fpr (poke a v g) = fpr g" "fp_cond (poke a v g) = fp_cond g" "pc (poke a v g) = pc g"
  "log_on (poke a v g) = log_on g" "branch_pending (poke a v g) = branch_pending g"
  "branch_target (poke a v g) = branch_target g" "gpu_ready (poke a v g) = gpu_ready g"
  "last_key (poke a v g) = last_key g" "stdin_chars (poke a v g) = stdin_chars g"
  "stdout_chars (poke a v g) = stdout_chars g" "stderr_chars (poke a v g) = stderr_chars g"
  "world (poke a v g) = world g"
  by (simp_all add: poke_def)

interpretation ram: word_port "load_word h" "store_word h" memory device_register for h
  by unfold_locales
    (auto simp: device_register_def load_word_def store_word_def device_load_ram
      device_store_ram le_update_def)

text \<open>A load changes only what the device changes, a store also the memory.\<close>

lemma load_word_cpu_part: "cpu_part (snd (load_word h a g)) = cpu_part g"
  using device_load_cpu_part [of h a g]
  by (cases "device_load_word h a g") (auto simp: load_word_def split: option.split)

lemma store_word_cpu_part:
  "cpu_part (store_word h a v g) = cpu_part (g\<lparr>memory := memory (store_word h a v g)\<rparr>)"
proof (cases "a = GPU_FLUSH")
  case True
  then have "store_word h a v g = snd (device_store_word h a v g)"
    by (simp add: store_word_def device_store_word_def)
  then show ?thesis by (simp add: device_store_cpu_part)
next
  case False
  then show ?thesis by (simp add: store_word_def device_store_ram poke_def cpu_part_def)
qed

lemmas load_word_frame [simp] = cpu_part_fields [OF load_word_cpu_part]
lemmas store_word_frame [simp] =
  cpu_part_fields(1-5,7-13) [OF store_word_cpu_part, simplified]

lemma store_byte_frame [simp]:
  "reg (store_byte a v g) = reg g" "fpr (store_byte a v g) = fpr g" "pc (store_byte a v g) = pc g"
  "hi (store_byte a v g) = hi g" "lo (store_byte a v g) = lo g"
  "branch_pending (store_byte a v g) = branch_pending g"
  "branch_target (store_byte a v g) = branch_target g" "log_on (store_byte a v g) = log_on g"
  by (simp_all add: store_byte_def)

lemma store_half_frame [simp]:
  "reg (store_half a v g) = reg g" "fpr (store_half a v g) = fpr g" "pc (store_half a v g) = pc g"
  "hi (store_half a v g) = hi g" "lo (store_half a v g) = lo g"
  "branch_pending (store_half a v g) = branch_pending g"
  "branch_target (store_half a v g) = branch_target g" "log_on (store_half a v g) = log_on g"
  by (simp_all add: store_half_def)

end
