(* ===== verification/Pipeline.thy ===== *)
theory Pipeline
  imports Functions
begin

text \<open>
  The branch-delay pipeline and the helpers of src/cpu.c that src/fpu.c shares: a taken branch
  records its target; the step function applies it after the next instruction. Also the contract
  \<open>executor\<close> that every group of instructions keeps towards that step function.
\<close>

section \<open>Helpers\<close>

definition pc_step :: "u32 \<Rightarrow> 'w machine \<Rightarrow> 'w machine" where
  "pc_step n g = g\<lparr>pc := pc g + n\<rparr>"

definition schedule_branch :: "u32 \<Rightarrow> 'w machine \<Rightarrow> 'w machine" where
  "schedule_branch target g = g\<lparr>branch_pending := True, branch_target := target\<rparr>"

definition branch_is_pending :: "'w machine \<Rightarrow> bool" where
  "branch_is_pending g = branch_pending g"

text \<open>The target of a taken branch: the signed offset, in words, relative to the delay slot.\<close>

definition branch_dest :: "u32 \<Rightarrow> 'w machine \<Rightarrow> u32" where
  "branch_dest i g = pc g + 4 + push_bit 2 (simm i)"

definition mem_addr :: "u32 \<Rightarrow> 'w machine \<Rightarrow> u32" where
  "mem_addr i g = reg g (rs i) + simm i"

lemma schedule_branch_simps [simp]:
  "reg (schedule_branch t g) = reg g" "hi (schedule_branch t g) = hi g"
  "lo (schedule_branch t g) = lo g" "fpr (schedule_branch t g) = fpr g"
  "fp_cond (schedule_branch t g) = fp_cond g" "memory (schedule_branch t g) = memory g"
  "pc (schedule_branch t g) = pc g" "log_on (schedule_branch t g) = log_on g"
  "branch_pending (schedule_branch t g)" "branch_target (schedule_branch t g) = t"
  by (simp_all add: schedule_branch_def)

section \<open>Status of a switch\<close>

text \<open>
  The decoders share one shape: a switch whose cases end in \<open>break\<close> and whose default returns 1.
  \<open>finish g r\<close> is the rest of the function, with \<open>None\<close> for the default: the status 1 and the
  state as it was, or the status 0 and the state the case left.
\<close>

definition finish :: "'w machine \<Rightarrow> 'w machine result option \<Rightarrow> (int \<times> 'w machine) result" where
  "finish g r = (case r of None \<Rightarrow> Inr (1, g) | Some s \<Rightarrow> rbind s (\<lambda>g'. Inr (0, g')))"

text \<open>The same with \<open>glob->reg[R0] = 0\<close> before \<open>return 0\<close>.\<close>

definition finish_r0 :: "'w machine \<Rightarrow> 'w machine result option \<Rightarrow> (int \<times> 'w machine) result" where
  "finish_r0 g r =
     (case r of None \<Rightarrow> Inr (1, g) | Some s \<Rightarrow> rbind s (\<lambda>g'. Inr (0, set_reg R0 0 g')))"

section \<open>The contract of an instruction group\<close>

text \<open>
  What the step function relies on: whatever the instruction word, a group returns 0 or 1, never
  writes the program counter or the log flag, keeps register 0 zero, leaves the state alone when it
  returns 1, and only ever sets the pending-branch flag.
\<close>

definition keeps :: "'w machine \<Rightarrow> 'w machine \<Rightarrow> bool" where
  "keeps g g' \<longleftrightarrow> pc g' = pc g \<and> log_on g' = log_on g
     \<and> (branch_pending g \<longrightarrow> branch_pending g')
     \<and> (branch_target g' \<noteq> branch_target g \<longrightarrow> branch_pending g')"

lemma keeps_refl [simp]: "keeps g g"
  by (simp add: keeps_def)

fun contract :: "'w machine \<Rightarrow> int \<times> 'w machine \<Rightarrow> bool" where
  "contract g (ret, g') \<longleftrightarrow> (ret = 0 \<or> ret = 1 \<and> g' = g) \<and> keeps g g'
     \<and> (reg g R0 = 0 \<longrightarrow> reg g' R0 = 0)"

locale executor =
  fixes exec :: "'w host \<Rightarrow> u32 \<Rightarrow> 'w machine \<Rightarrow> (int \<times> 'w machine) result"
  assumes meets: "on_ok (contract g) (exec h i g)"
begin

lemma contract_holds: "exec h i g = Inr (ret, g') \<Longrightarrow> contract g (ret, g')"
  using meets [of g h i] by simp

lemma error_unchanged: "exec h i g = Inr (1, g') \<Longrightarrow> g' = g"
  using contract_holds by fastforce

lemma pc_unchanged: "exec h i g = Inr (ret, g') \<Longrightarrow> pc g' = pc g"
  using contract_holds by (fastforce simp: keeps_def)

end

text \<open>
  The contract from the cases: it is enough that every case of the switch keeps the frame, and,
  when the function does not zero register 0 itself, register 0.
\<close>

definition case_keeps :: "'w machine \<Rightarrow> 'w machine result option \<Rightarrow> bool" where
  "case_keeps g r = (case r of None \<Rightarrow> True | Some s \<Rightarrow> on_ok (keeps g) s)"

definition case_keeps_r0 :: "'w machine \<Rightarrow> 'w machine result option \<Rightarrow> bool" where
  "case_keeps_r0 g r = (case r of None \<Rightarrow> True
     | Some s \<Rightarrow> on_ok (\<lambda>g'. keeps g g' \<and> (reg g R0 = 0 \<longrightarrow> reg g' R0 = 0)) s)"

lemma finish_r0_contract:
  "case_keeps g r \<Longrightarrow> on_ok (contract g) (finish_r0 g r)"
  by (auto simp: finish_r0_def case_keeps_def on_ok_def rbind_Inr_iff keeps_def split: option.splits)

lemma finish_contract:
  "case_keeps_r0 g r \<Longrightarrow> on_ok (contract g) (finish g r)"
  by (auto simp: finish_def case_keeps_r0_def on_ok_def rbind_Inr_iff split: option.splits)

lemma finish_r0_switch:
  assumes "\<forall>c\<in>set cs. case_keeps g (snd c)"
  shows "on_ok (contract g) (finish_r0 g (switch k cs None))"
  by (rule finish_r0_contract, rule switch_rule) (use assms in \<open>auto simp: case_keeps_def\<close>)

lemma finish_switch:
  assumes "\<forall>c\<in>set cs. case_keeps_r0 g (snd c)"
  shows "on_ok (contract g) (finish g (switch k cs None))"
  by (rule finish_contract, rule switch_rule) (use assms in \<open>auto simp: case_keeps_r0_def\<close>)

lemmas case_simps = case_keeps_def case_keeps_r0_def keeps_def

end
