(* ===== verification/Ieee754.thy ===== *)
theory Ieee754
  imports Prelude
begin

text \<open>
  The floating-point types of the C implementation (Annex F of the standard, IEEE 754 binary32 and
  binary64, round to nearest even), as the meaning of the operators and library functions that
  src/fpu.c applies to \<open>float\<close> and \<open>double\<close>. A format has \<open>w\<close> exponent bits and \<open>t\<close> trailing
  significand bits: 8 and 23 for \<open>float\<close>, 11 and 52 for \<open>double\<close>. Every operation computes an exact
  value, or one with a sticky bit below the rounding position, which \<open>fp_round\<close> rounds once.
\<close>

section \<open>Data\<close>

text \<open>\<open>Fin s m e\<close> is \<open>m * 2 ^ e\<close>, negated when \<open>s\<close>; zero keeps its sign.\<close>

datatype fp = NaN | Inf bool | Fin bool nat int

definition fp_bias :: "nat \<Rightarrow> int" where
  "fp_bias w = 2 ^ (w - 1) - 1"

text \<open>The exponent of the last place of the subnormal numbers.\<close>

definition fp_emin :: "nat \<Rightarrow> nat \<Rightarrow> int" where
  "fp_emin w t = 1 - fp_bias w - int t"

definition fp_decode :: "nat \<Rightarrow> nat \<Rightarrow> nat \<Rightarrow> fp" where
  "fp_decode w t b =
     (let s = odd (b div 2 ^ (w + t)); e = b div 2 ^ t mod 2 ^ w; f = b mod 2 ^ t in
      if e = 2 ^ w - 1 then (if f = 0 then Inf s else NaN)
      else if e = 0 then Fin s f (fp_emin w t)
      else Fin s (2 ^ t + f) (fp_emin w t + int e - 1))"

text \<open>
  The bits of a number that is in the format: the exponent field and the trailing significand are
  \<open>q - emin\<close> steps of \<open>2 ^ t\<close> above the significand, subnormal or not.
\<close>

definition fp_encode :: "nat \<Rightarrow> nat \<Rightarrow> nat \<Rightarrow> fp \<Rightarrow> nat" where
  "fp_encode w t nan v =
     (case v of
        NaN \<Rightarrow> nan
      | Inf s \<Rightarrow> of_bool s * 2 ^ (w + t) + (2 ^ w - 1) * 2 ^ t
      | Fin s m q \<Rightarrow> of_bool s * 2 ^ (w + t) + nat (q - fp_emin w t) * 2 ^ t + m)"

section \<open>Rounding\<close>

fun bitlen :: "nat \<Rightarrow> nat" where
  "bitlen n = (if n = 0 then 0 else Suc (bitlen (n div 2)))"

declare bitlen.simps [simp del]

text \<open>\<open>m * 2 ^ e\<close> as a multiple of \<open>2 ^ q\<close>, rounded to nearest, ties to even.\<close>

definition round_at :: "nat \<Rightarrow> int \<Rightarrow> int \<Rightarrow> nat" where
  "round_at m e q =
     (if q \<le> e then m * 2 ^ nat (e - q)
      else let d = 2 ^ nat (q - e); k = m div d; r = m mod d
        in if 2 * r < d \<or> 2 * r = d \<and> even k then k else Suc k)"

definition fp_round :: "nat \<Rightarrow> nat \<Rightarrow> fp \<Rightarrow> fp" where
  "fp_round w t v =
     (case v of
        Fin s m e \<Rightarrow>
          if m = 0 then Fin s 0 (fp_emin w t)
          else let q = max (fp_emin w t) (e + int (bitlen m) - int t - 1);
                   k = round_at m e q;
                   (k', q') = (if k = 2 ^ Suc t then (2 ^ t, q + 1) else (k, q))
            in if fp_bias w < q' + int t then Inf s else Fin s k' q'
      | _ \<Rightarrow> v)"

section \<open>Operations\<close>

definition fp_int :: "bool \<Rightarrow> nat \<Rightarrow> int" where
  "fp_int s m = (if s then - int m else int m)"

fun fp_negate :: "fp \<Rightarrow> fp" where
  "fp_negate NaN = NaN"
| "fp_negate (Inf s) = Inf (\<not> s)"
| "fp_negate (Fin s m e) = Fin (\<not> s) m e"

text \<open>Two finite numbers as multiples of the smaller power of two.\<close>

definition fp_align :: "bool \<Rightarrow> nat \<Rightarrow> int \<Rightarrow> int \<Rightarrow> int" where
  "fp_align s m e e0 = fp_int s m * 2 ^ nat (e - e0)"

fun fp_add :: "fp \<Rightarrow> fp \<Rightarrow> fp" where
  "fp_add NaN _ = NaN"
| "fp_add _ NaN = NaN"
| "fp_add (Inf s) (Inf s') = (if s = s' then Inf s else NaN)"
| "fp_add (Inf s) (Fin _ _ _) = Inf s"
| "fp_add (Fin _ _ _) (Inf s) = Inf s"
| "fp_add (Fin s1 m1 e1) (Fin s2 m2 e2) =
     (let e = min e1 e2; v = fp_align s1 m1 e1 e + fp_align s2 m2 e2 e
      in if v = 0 then Fin (s1 \<and> s2) 0 e else Fin (v < 0) (nat \<bar>v\<bar>) e)"

definition fp_sub :: "fp \<Rightarrow> fp \<Rightarrow> fp" where
  "fp_sub x y = fp_add x (fp_negate y)"

fun fp_mul :: "fp \<Rightarrow> fp \<Rightarrow> fp" where
  "fp_mul NaN _ = NaN"
| "fp_mul _ NaN = NaN"
| "fp_mul (Inf s) (Inf s') = Inf (s \<noteq> s')"
| "fp_mul (Inf s) (Fin s' m _) = (if m = 0 then NaN else Inf (s \<noteq> s'))"
| "fp_mul (Fin s m _) (Inf s') = (if m = 0 then NaN else Inf (s \<noteq> s'))"
| "fp_mul (Fin s1 m1 e1) (Fin s2 m2 e2) = Fin (s1 \<noteq> s2) (m1 * m2) (e1 + e2)"

text \<open>The quotient has at least \<open>t + 3\<close> bits; its last bit says whether a remainder is left.\<close>

fun fp_div :: "nat \<Rightarrow> fp \<Rightarrow> fp \<Rightarrow> fp" where
  "fp_div t NaN _ = NaN"
| "fp_div t _ NaN = NaN"
| "fp_div t (Inf _) (Inf _) = NaN"
| "fp_div t (Inf s) (Fin s' _ _) = Inf (s \<noteq> s')"
| "fp_div t (Fin s _ _) (Inf s') = Fin (s \<noteq> s') 0 0"
| "fp_div t (Fin s1 m1 e1) (Fin s2 m2 e2) =
     (if m2 = 0 then (if m1 = 0 then NaN else Inf (s1 \<noteq> s2))
      else let k = t + 3 + bitlen m2; n = m1 * 2 ^ k
        in Fin (s1 \<noteq> s2) (2 * (n div m2) + of_bool (n mod m2 \<noteq> 0)) (e1 - e2 - int k - 1))"

text \<open>The integer square root, two bits at a time.\<close>

fun isqrt :: "nat \<Rightarrow> nat" where
  "isqrt n = (if n = 0 then 0
     else let r = 2 * isqrt (n div 4) in if (r + 1) * (r + 1) \<le> n then r + 1 else r)"

declare isqrt.simps [simp del]

fun fp_sqrt :: "nat \<Rightarrow> fp \<Rightarrow> fp" where
  "fp_sqrt t NaN = NaN"
| "fp_sqrt t (Inf s) = (if s then NaN else Inf s)"
| "fp_sqrt t (Fin s m e) =
     (if m = 0 then Fin s 0 e
      else if s then NaN
      else let k = 2 * (t + 4) + (if even e then 0 else 1); n = m * 2 ^ k; r = isqrt n
        in Fin False (2 * r + of_bool (r * r \<noteq> n)) ((e - int k) div 2 - 1))"

text \<open>Comparisons: every one is false when an operand is not a number.\<close>

fun fp_lt :: "fp \<Rightarrow> fp \<Rightarrow> bool" where
  "fp_lt NaN _ = False"
| "fp_lt _ NaN = False"
| "fp_lt (Inf s) (Inf s') = (s \<and> \<not> s')"
| "fp_lt (Inf s) (Fin _ _ _) = s"
| "fp_lt (Fin _ _ _) (Inf s) = (\<not> s)"
| "fp_lt (Fin s1 m1 e1) (Fin s2 m2 e2) =
     (fp_align s1 m1 e1 (min e1 e2) < fp_align s2 m2 e2 (min e1 e2))"

fun fp_eq :: "fp \<Rightarrow> fp \<Rightarrow> bool" where
  "fp_eq NaN _ = False"
| "fp_eq _ NaN = False"
| "fp_eq (Inf s) (Inf s') = (s = s')"
| "fp_eq (Inf _) (Fin _ _ _) = False"
| "fp_eq (Fin _ _ _) (Inf _) = False"
| "fp_eq (Fin s1 m1 e1) (Fin s2 m2 e2) =
     (fp_align s1 m1 e1 (min e1 e2) = fp_align s2 m2 e2 (min e1 e2))"

definition fp_le :: "fp \<Rightarrow> fp \<Rightarrow> bool" where
  "fp_le x y \<longleftrightarrow> fp_lt x y \<or> fp_eq x y"

text \<open>Conversion to an integer truncates; from an integer it is exact before rounding.\<close>

fun fp_trunc :: "fp \<Rightarrow> int option" where
  "fp_trunc (Fin s m e) =
     Some (fp_int s (if 0 \<le> e then m * 2 ^ nat e else m div 2 ^ nat (- e)))"
| "fp_trunc _ = None"

definition fp_of_int :: "int \<Rightarrow> fp" where
  "fp_of_int x = Fin (x < 0) (nat \<bar>x\<bar>) 0"

end
