(* ===== verification/Fpu.thy ===== *)
theory Fpu
  imports Pipeline Ieee754
begin

text \<open>
  The floating-point coprocessor (src/fpu.c). A \<open>float\<close> is its 32 bits and a \<open>double\<close> its 64, as the
  \<open>memcpy\<close> of the accessors has them; the operators of C on them are those of \<open>Ieee754\<close>. A double
  occupies the register pair \<open>n\<close>, \<open>n + 1\<close>: for \<open>n = 31\<close> the access is outside the array.
\<close>

section \<open>The C operators on bits\<close>

definition f32 :: "u32 \<Rightarrow> fp" where
  "f32 b = fp_decode 8 23 (unat b)"

definition f64 :: "u64 \<Rightarrow> fp" where
  "f64 b = fp_decode 11 52 (unat b)"

text \<open>A result as a \<open>float\<close> or a \<open>double\<close>; \<open>ops\<close> are the operands a NaN result may depend on.\<close>

definition to_f32 :: "'w host \<Rightarrow> u32 \<Rightarrow> u64 list \<Rightarrow> fp \<Rightarrow> u32" where
  "to_f32 h i ops v = of_nat (fp_encode 8 23 (unat (nan_single h i ops)) (fp_round 8 23 v))"

definition to_f64 :: "'w host \<Rightarrow> u32 \<Rightarrow> u64 list \<Rightarrow> fp \<Rightarrow> u64" where
  "to_f64 h i ops v = of_nat (fp_encode 11 52 (unat (nan_double h i ops)) (fp_round 11 52 v))"

text \<open>The conversion \<open>(int32_t)x\<close>: undefined when the truncated value does not fit.\<close>

definition fp_to_int32 :: "fp \<Rightarrow> u32 result" where
  "fp_to_int32 v =
     (case fp_trunc v of
        None \<Rightarrow> Inl Conversion_range
      | Some n \<Rightarrow> if fits_signed 32 n then Inr (word_of_int n) else Inl Conversion_range)"

section \<open>Register access\<close>

definition getf :: "u8 \<Rightarrow> 'w machine \<Rightarrow> u32" where
  "getf n g = fpr g n"

definition setf :: "u8 \<Rightarrow> u32 \<Rightarrow> 'w machine \<Rightarrow> 'w machine" where
  "setf n f g = set_fpr n f g"

definition getw :: "u8 \<Rightarrow> 'w machine \<Rightarrow> int" where
  "getw n g = sint (fpr g n)"

definition setw :: "u8 \<Rightarrow> u32 \<Rightarrow> 'w machine \<Rightarrow> 'w machine" where
  "setw n w g = set_fpr n w g"

definition getd :: "u8 \<Rightarrow> 'w machine \<Rightarrow> u64 result" where
  "getd n g =
     (if n < 31 then Inr (ucast (fpr g n) OR push_bit 32 (ucast (fpr g (n + 1))))
      else Inl Out_of_bounds)"

definition setd :: "u8 \<Rightarrow> u64 \<Rightarrow> 'w machine \<Rightarrow> 'w machine result" where
  "setd n bits g =
     (if n < 31
      then Inr (set_fpr (n + 1) (ucast (drop_bit 32 bits)) (set_fpr n (ucast bits) g))
      else Inl Out_of_bounds)"

definition set_cond :: "bool \<Rightarrow> 'w machine \<Rightarrow> 'w machine" where
  "set_cond c g = g\<lparr>fp_cond := of_bool c\<rparr>"

section \<open>Arithmetic by format\<close>

text \<open>\<open>fabsf\<close> and unary minus act on the sign bit; the other operators round their exact result.\<close>

definition fp_single :: "'w host \<Rightarrow> u32 \<Rightarrow> 'w machine \<Rightarrow> (int \<times> 'w machine) result" where
  "fp_single h i g =
     (let fd = shamt i; a = getf (rd i) g; b = getf (rt i) g;
          ops = [ucast a, ucast b] :: u64 list;
          arith = (\<lambda>v. Some (Inr (setf fd (to_f32 h i ops v) g)))
      in finish g (switch (funct i)
       [(0x00, arith (fp_add (f32 a) (f32 b))),
        (0x01, arith (fp_sub (f32 a) (f32 b))),
        (0x02, arith (fp_mul (f32 a) (f32 b))),
        (0x03, arith (fp_div 23 (f32 a) (f32 b))),
        (0x04, arith (fp_sqrt 23 (f32 a))),
        (0x05, Some (Inr (setf fd (a AND 0x7FFFFFFF) g))),
        (0x06, Some (Inr (setf fd a g))),
        (0x07, Some (Inr (setf fd (a XOR 0x80000000) g))),
        (0x21, Some (setd fd (to_f64 h i ops (f32 a)) g)),
        (0x24, Some (rbind (fp_to_int32 (f32 a)) (\<lambda>w. Inr (setw fd w g)))),
        (0x32, Some (Inr (set_cond (fp_eq (f32 a) (f32 b)) g))),
        (0x3c, Some (Inr (set_cond (fp_lt (f32 a) (f32 b)) g))),
        (0x3e, Some (Inr (set_cond (fp_le (f32 a) (f32 b)) g)))] None))"

text \<open>\<open>unary\<close> and \<open>binary\<close> read the operands an operation names, in the order of the source.\<close>

definition fp_double :: "'w host \<Rightarrow> u32 \<Rightarrow> 'w machine \<Rightarrow> (int \<times> 'w machine) result" where
  "fp_double h i g =
     (let fd = shamt i; fs = rd i; ft = rt i;
          unary = (\<lambda>f. Some (rbind (getd fs g) f));
          binary = (\<lambda>f. Some (rbind (getd fs g) (\<lambda>a. rbind (getd ft g) (f a))));
          arith = (\<lambda>op. binary (\<lambda>a b. setd fd (to_f64 h i [a, b] (op (f64 a) (f64 b))) g))
      in finish g (switch (funct i)
       [(0x00, arith fp_add),
        (0x01, arith fp_sub),
        (0x02, arith fp_mul),
        (0x03, arith (fp_div 52)),
        (0x04, unary (\<lambda>a. setd fd (to_f64 h i [a] (fp_sqrt 52 (f64 a))) g)),
        (0x05, unary (\<lambda>a. setd fd (a AND 0x7FFFFFFFFFFFFFFF) g)),
        (0x06, unary (\<lambda>a. setd fd a g)),
        (0x07, unary (\<lambda>a. setd fd (a XOR 0x8000000000000000) g)),
        (0x20, unary (\<lambda>a. Inr (setf fd (to_f32 h i [a] (f64 a)) g))),
        (0x24, unary (\<lambda>a. rbind (fp_to_int32 (f64 a)) (\<lambda>w. Inr (setw fd w g)))),
        (0x32, binary (\<lambda>a b. Inr (set_cond (fp_eq (f64 a) (f64 b)) g))),
        (0x3c, binary (\<lambda>a b. Inr (set_cond (fp_lt (f64 a) (f64 b)) g))),
        (0x3e, binary (\<lambda>a b. Inr (set_cond (fp_le (f64 a) (f64 b)) g)))] None))"

definition fp_word :: "'w host \<Rightarrow> u32 \<Rightarrow> 'w machine \<Rightarrow> (int \<times> 'w machine) result" where
  "fp_word h i g =
     (let fd = shamt i; x = fp_of_int (getw (rd i) g) in
      finish g (switch (funct i)
       [(0x20, Some (Inr (setf fd (to_f32 h i [] x) g))),
        (0x21, Some (setd fd (to_f64 h i [] x) g))] None))"

section \<open>Decoding\<close>

definition exec_cop1 :: "'w host \<Rightarrow> u32 \<Rightarrow> 'w machine \<Rightarrow> (int \<times> 'w machine) result" where
  "exec_cop1 h i g =
     switch (rs i)
       [(FMT_MFC1, Inr (0, set_reg R0 0 (set_reg (rt i) (fpr g (rd i)) g))),
        (FMT_MTC1, Inr (0, set_fpr (rd i) (reg g (rt i)) g)),
        (FMT_BC1,
          let tf = uint (drop_bit 16 i AND 1) in
          Inr (0, if fp_cond g = tf then schedule_branch (branch_dest i g) g else g)),
        (FMT_S, fp_single h i g),
        (FMT_D, fp_double h i g),
        (FMT_W, fp_word h i g)] (Inr (1, g))"

definition exec_cop1_ldst :: "'w host \<Rightarrow> u32 \<Rightarrow> 'w machine \<Rightarrow> (int \<times> 'w machine) result" where
  "exec_cop1_ldst h i g =
     (let addr = reg g (rs i) + simm i; ft = rt i in
      finish g (switch (op i)
       [(OP_LWC1, Some (let (w, g1) = load_word h addr g in Inr (set_fpr ft w g1))),
        (OP_SWC1, Some (Inr (store_word h addr (fpr g ft) g))),
        (OP_LDC1, Some
          (let (w, g1) = load_word h addr g; g2 = set_fpr ft w g1 in
           if \<not> ft < 31 then Inl Out_of_bounds
           else let (w', g3) = load_word h (addr + 4) g2 in Inr (set_fpr (ft + 1) w' g3))),
        (OP_SDC1, Some
          (let g1 = store_word h addr (fpr g ft) g in
           if \<not> ft < 31 then Inl Out_of_bounds
           else Inr (store_word h (addr + 4) (fpr g1 (ft + 1)) g1)))] None))"

section \<open>The contract\<close>

lemma set_cond_simps [simp]:
  "reg (set_cond c g) = reg g" "pc (set_cond c g) = pc g" "log_on (set_cond c g) = log_on g"
  "branch_pending (set_cond c g) = branch_pending g" "fpr (set_cond c g) = fpr g"
  "branch_target (set_cond c g) = branch_target g" "fp_cond (set_cond c g) = of_bool c"
  by (simp_all add: set_cond_def)

text \<open>The operations on the register file write nothing else.\<close>

definition fp_frame :: "'w machine \<Rightarrow> 'w machine \<Rightarrow> bool" where
  "fp_frame g g' \<longleftrightarrow> keeps g g' \<and> reg g' = reg g \<and> branch_pending g' = branch_pending g"

lemma fp_frame_ops [simp]:
  "fp_frame g (setf n f g)" "fp_frame g (setw n w g)" "fp_frame g (set_cond c g)"
  by (simp_all add: fp_frame_def setf_def setw_def keeps_def)

lemma fp_frame_setd [simp]: "on_ok (fp_frame g) (setd n d g)"
  by (simp add: fp_frame_def setd_def keeps_def)

lemma case_keeps_fp: "on_ok (fp_frame g) r \<Longrightarrow> case_keeps_r0 g (Some r)"
  unfolding case_keeps_r0_def option.case by (erule on_ok_mono) (simp add: fp_frame_def)

lemma on_ok_rbindI: "(\<And>x. on_ok P (f x)) \<Longrightarrow> on_ok P (rbind r f)"
  by (cases r) simp_all

lemma fp_single_contract: "on_ok (contract g) (fp_single h i g)"
  unfolding fp_single_def Let_def
  by (rule finish_switch) (simp add: case_keeps_fp on_ok_rbindI)

lemma fp_double_contract: "on_ok (contract g) (fp_double h i g)"
  unfolding fp_double_def Let_def
  by (rule finish_switch) (simp add: case_keeps_fp on_ok_rbindI)

lemma fp_word_contract: "on_ok (contract g) (fp_word h i g)"
  unfolding fp_word_def Let_def
  by (rule finish_switch) (simp add: case_keeps_fp on_ok_rbindI)

interpretation cop1: executor exec_cop1
proof unfold_locales
  fix h :: "'w host" and i and g :: "'w machine"
  show "on_ok (contract g) (exec_cop1 h i g)"
    unfolding exec_cop1_def
    by (rule switch_rule)
      (auto simp: keeps_def Let_def fp_single_contract fp_double_contract fp_word_contract)
qed

interpretation cop1_ldst: executor exec_cop1_ldst
proof unfold_locales
  fix h :: "'w host" and i and g :: "'w machine"
  show "on_ok (contract g) (exec_cop1_ldst h i g)"
    unfolding exec_cop1_ldst_def Let_def
    by (rule finish_switch) (simp add: case_simps case_prod_beta)
qed

end
