(* ===== verification/Format.thy ===== *)
theory Format
  imports Prelude
begin

text \<open>
  The formatted input and output of the C library that the sources use: the conversions of
  \<open>printf\<close> (\<open>%d\<close>, \<open>%u\<close>, \<open>%x\<close>, \<open>%08x\<close>), the truncation of \<open>snprintf\<close>, and the integer
  conversion of \<open>scanf\<close>. Characters are HOL's \<open>char\<close>, strings are lists of them without the
  terminating NUL.
\<close>

section \<open>Numbers printed\<close>

definition digit_char :: "nat \<Rightarrow> char" where
  "digit_char d = ''0123456789abcdef'' ! d"

fun show_base :: "nat \<Rightarrow> nat \<Rightarrow> string" where
  "show_base b n =
     (if n < b \<or> b < 2 then [digit_char n] else show_base b (n div b) @ [digit_char (n mod b)])"

declare show_base.simps [simp del]

definition fmt_u :: "nat \<Rightarrow> string" where
  "fmt_u n = show_base 10 n"

definition fmt_d :: "int \<Rightarrow> string" where
  "fmt_d x = (if x < 0 then CHR ''-'' # show_base 10 (nat (- x)) else show_base 10 (nat x))"

definition fmt_x :: "nat \<Rightarrow> string" where
  "fmt_x n = show_base 16 n"

text \<open>\<open>%08x\<close>: at least eight digits, padded with zeros on the left.\<close>

definition fmt_08x :: "nat \<Rightarrow> string" where
  "fmt_08x n = replicate (8 - length (fmt_x n)) (CHR ''0'') @ fmt_x n"

text \<open>\<open>%-2d\<close>: at least two characters, padded with spaces on the right.\<close>

definition fmt_m2d :: "nat \<Rightarrow> string" where
  "fmt_m2d n = fmt_u n @ replicate (2 - length (fmt_u n)) (CHR '' '')"

text \<open>What \<open>snprintf(buf, n, ...)\<close> leaves in the buffer when the whole text is \<open>s\<close>.\<close>

definition snprintf :: "nat \<Rightarrow> string \<Rightarrow> string" where
  "snprintf n s = take (n - 1) s"

subsection \<open>Lengths and values\<close>

lemma show_base_length:
  assumes "2 \<le> b" "n < b ^ k" "0 < k"
  shows "length (show_base b n) \<le> k"
  using assms
proof (induction k arbitrary: n)
  case 0
  then show ?case by simp
next
  case (Suc k)
  show ?case
  proof (cases "n < b")
    case True
    then show ?thesis by (simp add: show_base.simps)
  next
    case False
    then have "0 < k" using Suc.prems(2) by (cases k) auto
    moreover have "n div b < b ^ k"
      using Suc.prems(1,2) by (simp add: less_mult_imp_div_less mult.commute)
    ultimately have "length (show_base b (n div b)) \<le> k"
      using Suc.IH Suc.prems(1) by blast
    with False Suc.prems(1) show ?thesis by (subst show_base.simps) simp
  qed
qed

definition digit_value :: "char \<Rightarrow> nat" where
  "digit_value c = (let n = of_char c in if n < 58 then n - 48 else n - 87)"

definition digits_value :: "nat \<Rightarrow> string \<Rightarrow> nat" where
  "digits_value b s = foldl (\<lambda>v c. v * b + digit_value c) 0 s"

lemma digit_value_digit_char:
  assumes "d < 16"
  shows "digit_value (digit_char d) = d"
proof -
  have "\<forall>d\<in>set [0..<16]. digit_value (digit_char d) = d"
    by (simp add: upt_rec digit_value_def digit_char_def)
  with assms show ?thesis by simp
qed

lemma digits_value_show_base:
  assumes "2 \<le> b" "b \<le> 16"
  shows "digits_value b (show_base b n) = n"
proof (induction n rule: less_induct)
  case (less n)
  show ?case
  proof (cases "n < b")
    case True
    with assms show ?thesis
      by (simp add: show_base.simps digits_value_def digit_value_digit_char)
  next
    case False
    with assms have "digits_value b (show_base b (n div b)) = n div b"
      by (intro less.IH) (simp add: div_less_dividend)
    with False assms show ?thesis
      by (subst show_base.simps)
        (simp add: digits_value_def digit_value_digit_char less_le_trans [of _ b])
  qed
qed

lemma fmt_u_length: "n < 10 ^ k \<Longrightarrow> 0 < k \<Longrightarrow> length (fmt_u n) \<le> k"
  by (simp add: fmt_u_def show_base_length)

lemma fmt_x_length: "n < 16 ^ k \<Longrightarrow> 0 < k \<Longrightarrow> length (fmt_x n) \<le> k"
  by (simp add: fmt_x_def show_base_length)

lemma fmt_d_length: "\<bar>x\<bar> < 10 ^ k \<Longrightarrow> 0 < k \<Longrightarrow> length (fmt_d x) \<le> Suc k"
  using show_base_length [of 10 "nat \<bar>x\<bar>" k]
  by (auto simp: fmt_d_def nat_less_iff)

lemma fmt_08x_length: "n < 2 ^ 32 \<Longrightarrow> length (fmt_08x n) = 8"
  using fmt_x_length [of n 8] by (simp add: fmt_08x_def)

lemma snprintf_all: "length s < n \<Longrightarrow> snprintf n s = s"
  by (simp add: snprintf_def)

lemma snprintf_length: "0 < n \<Longrightarrow> length (snprintf n s) < n"
  by (auto simp: snprintf_def)

section \<open>Numbers read\<close>

text \<open>\<open>isspace\<close> and \<open>isdigit\<close> in the C locale.\<close>

definition is_space :: "char \<Rightarrow> bool" where
  "is_space c \<longleftrightarrow> (let n = (of_char c :: nat) in n = 32 \<or> 9 \<le> n \<and> n \<le> 13)"

definition is_digit :: "char \<Rightarrow> bool" where
  "is_digit c \<longleftrightarrow> (let n = (of_char c :: nat) in 48 \<le> n \<and> n \<le> 57)"

text \<open>
  \<open>scanf("%d")\<close>: the number converted, if any, and the characters left in the stream. White space
  is skipped, a sign is consumed even when no digit follows it.
\<close>

definition scan_int :: "string \<Rightarrow> int option \<times> string" where
  "scan_int s =
     (let s1 = dropWhile is_space s;
          (neg, s2) = (case s1 of
              [] \<Rightarrow> (False, [])
            | c # cs \<Rightarrow> if c = CHR ''-'' then (True, cs)
                else if c = CHR ''+'' then (False, cs) else (False, c # cs));
          ds = takeWhile is_digit s2; n = int (digits_value 10 ds)
      in (if ds = [] then None else Some (if neg then - n else n), dropWhile is_digit s2))"

lemma is_digit_digit_char:
  assumes "d < 10"
  shows "is_digit (digit_char d)"
proof -
  have "\<forall>d\<in>set [0..<10]. is_digit (digit_char d)"
    by (simp add: upt_rec is_digit_def digit_char_def)
  with assms show ?thesis by simp
qed

lemma show_base_digits: "c \<in> set (show_base 10 n) \<Longrightarrow> is_digit c"
proof (induction n rule: less_induct)
  case (less n)
  have "c \<in> set (show_base 10 n) \<longleftrightarrow>
      (if n < 10 then c = digit_char n
       else c \<in> set (show_base 10 (n div 10)) \<or> c = digit_char (n mod 10))"
    by (subst show_base.simps) auto
  then show ?case
    using less.prems less.IH [of "n div 10"]
    by (auto simp: is_digit_digit_char split: if_splits)
qed

lemma show_base_nonempty: "show_base b n \<noteq> []"
  by (subst show_base.simps) simp

lemma digit_not_space: "is_digit c \<Longrightarrow> \<not> is_space c"
  by (auto simp: is_digit_def is_space_def Let_def)

lemma takeWhile_digits:
  assumes "\<forall>c\<in>set ds. is_digit c" and "rest = [] \<or> \<not> is_digit (hd rest)"
  shows "takeWhile is_digit (ds @ rest) = ds" "dropWhile is_digit (ds @ rest) = rest"
  using assms by (cases rest; simp add: takeWhile_append dropWhile_append)+

text \<open>What \<open>printf("%d")\<close> prints, \<open>scanf("%d")\<close> reads back, up to the next non-digit.\<close>

lemma scan_int_fmt_d:
  assumes "rest = [] \<or> \<not> is_digit (hd rest)"
  shows "scan_int (fmt_d x @ rest) = (Some x, rest)"
proof -
  define ds where "ds = show_base 10 (nat \<bar>x\<bar>)"
  obtain c cs where cs: "ds = c # cs"
    using show_base_nonempty unfolding ds_def by (meson neq_Nil_conv)
  have digits: "\<forall>c\<in>set ds. is_digit c"
    unfolding ds_def by (simp add: show_base_digits)
  then have "is_digit c" by (simp add: cs)
  then have c: "c \<noteq> CHR ''-''" "c \<noteq> CHR ''+''" "\<not> is_space c"
    by (auto simp: is_digit_def is_space_def Let_def)
  have minus: "\<not> is_space (CHR ''-'')" by (simp add: is_space_def)
  have split: "takeWhile is_digit (ds @ rest) = ds" "dropWhile is_digit (ds @ rest) = rest"
    using takeWhile_digits [OF digits assms] by simp_all
  have val: "digits_value 10 ds = nat \<bar>x\<bar>"
    unfolding ds_def by (simp add: digits_value_show_base)
  show ?thesis
  proof (cases "x < 0")
    case True
    then have "fmt_d x = CHR ''-'' # ds" by (simp add: fmt_d_def ds_def)
    with True minus split val cs show ?thesis by (simp add: scan_int_def del: takeWhile.simps)
  next
    case False
    then have "fmt_d x = ds" by (simp add: fmt_d_def ds_def)
    moreover have "dropWhile is_space (ds @ rest) = ds @ rest" using c cs by simp
    ultimately show ?thesis
      using False split val cs c by (simp add: scan_int_def)
  qed
qed

end
