(* ===== verification/Disasm.thy ===== *)
theory Disasm
  imports Decode Format
begin

text \<open>
  The disassembler (src/disasm.c), shared by the trace logger and the debugger: a pure function of
  the instruction word into the text \<open>snprintf\<close> leaves in a buffer of \<open>n\<close> bytes.
\<close>

section \<open>Operands\<close>

text \<open>\<open>r%d\<close>, \<open>f%d\<close>, \<open>%d\<close> of a field, \<open>%d\<close> of the signed immediate, \<open>0x%x\<close>.\<close>

definition gpr :: "u8 \<Rightarrow> string" where
  "gpr r = ''r'' @ fmt_u (unat r)"

definition fprn :: "u8 \<Rightarrow> string" where
  "fprn r = ''f'' @ fmt_u (unat r)"

definition simm_d :: "u32 \<Rightarrow> string" where
  "simm_d i = fmt_d (sint (imm16 i))"

definition hex :: "nat \<Rightarrow> string" where
  "hex v = ''0x'' @ fmt_x v"

definition sep :: string where
  "sep = '', ''"

section \<open>Formats\<close>

definition r3 :: "nat \<Rightarrow> string \<Rightarrow> u32 \<Rightarrow> string" where
  "r3 n m i = snprintf n (m @ '' '' @ gpr (rd i) @ sep @ gpr (rs i) @ sep @ gpr (rt i))"

definition rshift :: "nat \<Rightarrow> string \<Rightarrow> u32 \<Rightarrow> string" where
  "rshift n m i =
     snprintf n (m @ '' '' @ gpr (rd i) @ sep @ gpr (rt i) @ sep @ fmt_u (unat (shamt i)))"

definition rshiftv :: "nat \<Rightarrow> string \<Rightarrow> u32 \<Rightarrow> string" where
  "rshiftv n m i = snprintf n (m @ '' '' @ gpr (rd i) @ sep @ gpr (rt i) @ sep @ gpr (rs i))"

text \<open>The formats written out in the switches: one or two registers, and a branch offset.\<close>

definition one_reg :: "nat \<Rightarrow> string \<Rightarrow> u8 \<Rightarrow> string" where
  "one_reg n m r = snprintf n (m @ '' '' @ gpr r)"

definition two_regs :: "nat \<Rightarrow> string \<Rightarrow> u8 \<Rightarrow> u8 \<Rightarrow> string" where
  "two_regs n m a b = snprintf n (m @ '' '' @ gpr a @ sep @ gpr b)"

definition reg_offset :: "nat \<Rightarrow> string \<Rightarrow> u32 \<Rightarrow> string" where
  "reg_offset n m i = snprintf n (m @ '' '' @ gpr (rs i) @ sep @ simm_d i)"

definition regs_offset :: "nat \<Rightarrow> string \<Rightarrow> u32 \<Rightarrow> string" where
  "regs_offset n m i = snprintf n (m @ '' '' @ gpr (rs i) @ sep @ gpr (rt i) @ sep @ simm_d i)"

definition i3s :: "nat \<Rightarrow> string \<Rightarrow> u32 \<Rightarrow> string" where
  "i3s n m i = snprintf n (m @ '' '' @ gpr (rt i) @ sep @ gpr (rs i) @ sep @ simm_d i)"

definition i3x :: "nat \<Rightarrow> string \<Rightarrow> u32 \<Rightarrow> string" where
  "i3x n m i =
     snprintf n (m @ '' '' @ gpr (rt i) @ sep @ gpr (rs i) @ sep @ hex (unat (imm16 i)))"

definition mem :: "nat \<Rightarrow> string \<Rightarrow> u32 \<Rightarrow> string" where
  "mem n m i = snprintf n (m @ '' '' @ gpr (rt i) @ sep @ simm_d i @ ''('' @ gpr (rs i) @ '')'')"

definition fmem :: "nat \<Rightarrow> string \<Rightarrow> u32 \<Rightarrow> string" where
  "fmem n m i = snprintf n (m @ '' '' @ fprn (rt i) @ sep @ simm_d i @ ''('' @ gpr (rs i) @ '')'')"

section \<open>Instruction groups\<close>

definition disasm_special :: "nat \<Rightarrow> u32 \<Rightarrow> string" where
  "disasm_special n i = switch (funct i)
    [(FN_ADD, r3 n ''add'' i), (FN_ADDU, r3 n ''addu'' i), (FN_SUB, r3 n ''sub'' i),
     (FN_SUBU, r3 n ''subu'' i), (FN_AND, r3 n ''and'' i), (FN_OR, r3 n ''or'' i),
     (FN_XOR, r3 n ''xor'' i), (FN_NOR, r3 n ''nor'' i), (FN_SLT, r3 n ''slt'' i),
     (FN_SLTU, r3 n ''sltu'' i), (FN_MOVZ, r3 n ''movz'' i), (FN_MOVN, r3 n ''movn'' i),
     (FN_SLL, rshift n ''sll'' i), (FN_SRL, rshift n ''srl'' i), (FN_SRA, rshift n ''sra'' i),
     (FN_SLLV, rshiftv n ''sllv'' i), (FN_SRLV, rshiftv n ''srlv'' i),
     (FN_SRAV, rshiftv n ''srav'' i),
     (FN_MULT, two_regs n ''mult'' (rs i) (rt i)),
     (FN_MULTU, two_regs n ''multu'' (rs i) (rt i)),
     (FN_DIV, two_regs n ''div'' (rs i) (rt i)),
     (FN_DIVU, two_regs n ''divu'' (rs i) (rt i)),
     (FN_MFHI, one_reg n ''mfhi'' (rd i)), (FN_MFLO, one_reg n ''mflo'' (rd i)),
     (FN_MTHI, one_reg n ''mthi'' (rs i)), (FN_MTLO, one_reg n ''mtlo'' (rs i)),
     (FN_JR, one_reg n ''jr'' (rs i)), (FN_JALR, two_regs n ''jalr'' (rd i) (rs i)),
     (FN_SYSCALL, snprintf n ''syscall''), (FN_BREAK, snprintf n ''break'')]
    (snprintf n (''unknown special '' @ hex (unat (funct i))))"

definition disasm_special2 :: "nat \<Rightarrow> u32 \<Rightarrow> string" where
  "disasm_special2 n i = switch (funct i)
    [(FN2_MUL, r3 n ''mul'' i),
     (FN2_MADD, two_regs n ''madd'' (rs i) (rt i)),
     (FN2_MADDU, two_regs n ''maddu'' (rs i) (rt i)),
     (FN2_MSUB, two_regs n ''msub'' (rs i) (rt i)),
     (FN2_MSUBU, two_regs n ''msubu'' (rs i) (rt i)),
     (FN2_CLZ, two_regs n ''clz'' (rd i) (rs i)),
     (FN2_CLO, two_regs n ''clo'' (rd i) (rs i))]
    (snprintf n (''unknown special2 '' @ hex (unat (funct i))))"

definition disasm_regimm :: "nat \<Rightarrow> u32 \<Rightarrow> string" where
  "disasm_regimm n i = switch (rt i)
    [(RT_BLTZ, reg_offset n ''bltz'' i), (RT_BGEZ, reg_offset n ''bgez'' i),
     (RT_BLTZAL, reg_offset n ''bltzal'' i), (RT_BGEZAL, reg_offset n ''bgezal'' i)]
    (snprintf n (''unknown regimm '' @ hex (unat (rt i))))"

definition disasm_immediate :: "nat \<Rightarrow> u32 \<Rightarrow> string" where
  "disasm_immediate n i = switch (op i)
    [(OP_ADDI, i3s n ''addi'' i), (OP_ADDIU, i3s n ''addiu'' i), (OP_SLTI, i3s n ''slti'' i),
     (OP_SLTIU, i3s n ''sltiu'' i), (OP_ANDI, i3x n ''andi'' i), (OP_ORI, i3x n ''ori'' i),
     (OP_XORI, i3x n ''xori'' i),
     (OP_LUI, snprintf n (''lui '' @ gpr (rt i) @ sep @ hex (unat (imm16 i)))),
     (OP_BEQ, regs_offset n ''beq'' i), (OP_BNE, regs_offset n ''bne'' i),
     (OP_BGTZ, reg_offset n ''bgtz'' i), (OP_BLEZ, reg_offset n ''blez'' i),
     (OP_LB, mem n ''lb'' i), (OP_LBU, mem n ''lbu'' i), (OP_LH, mem n ''lh'' i),
     (OP_LHU, mem n ''lhu'' i), (OP_LW, mem n ''lw'' i), (OP_LWL, mem n ''lwl'' i),
     (OP_LWR, mem n ''lwr'' i), (OP_SB, mem n ''sb'' i), (OP_SH, mem n ''sh'' i),
     (OP_SW, mem n ''sw'' i), (OP_SWL, mem n ''swl'' i), (OP_SWR, mem n ''swr'' i)]
    (snprintf n (''unknown opcode '' @ hex (unat (op i))))"

definition fmt_suffix :: "u8 \<Rightarrow> string" where
  "fmt_suffix fmt = switch fmt [(FMT_S, ''s''), (FMT_D, ''d''), (FMT_W, ''w'')] ''?''"

text \<open>The formats \<open>op.fmt fd, fs, ft\<close>, \<open>op.fmt fd, fs\<close> and \<open>c.cond.fmt fs, ft\<close>.\<close>

definition fp3 :: "nat \<Rightarrow> string \<Rightarrow> u32 \<Rightarrow> string" where
  "fp3 n m i = snprintf n (m @ ''.'' @ fmt_suffix (rs i) @ '' '' @ fprn (shamt i) @ sep
     @ fprn (rd i) @ sep @ fprn (rt i))"

definition fp2 :: "nat \<Rightarrow> string \<Rightarrow> u32 \<Rightarrow> string" where
  "fp2 n m i = snprintf n (m @ ''.'' @ fmt_suffix (rs i) @ '' '' @ fprn (shamt i) @ sep
     @ fprn (rd i))"

definition fpc :: "nat \<Rightarrow> string \<Rightarrow> u32 \<Rightarrow> string" where
  "fpc n m i = snprintf n (m @ ''.'' @ fmt_suffix (rs i) @ '' '' @ fprn (rd i) @ sep
     @ fprn (rt i))"

definition disasm_cop1 :: "nat \<Rightarrow> u32 \<Rightarrow> string" where
  "disasm_cop1 n i =
    (let fmt = rs i in
     if fmt = FMT_MFC1 then snprintf n (''mfc1 '' @ gpr (rt i) @ sep @ fprn (rd i))
     else if fmt = FMT_MTC1 then snprintf n (''mtc1 '' @ gpr (rt i) @ sep @ fprn (rd i))
     else if fmt = FMT_BC1 then
       snprintf n (''bc1'' @ (if drop_bit 16 i AND 1 \<noteq> 0 then ''t'' else ''f'') @ '' '' @ simm_d i)
     else switch (funct i)
      [(0x00, fp3 n ''add'' i), (0x01, fp3 n ''sub'' i), (0x02, fp3 n ''mul'' i),
       (0x03, fp3 n ''div'' i), (0x04, fp2 n ''sqrt'' i), (0x05, fp2 n ''abs'' i),
       (0x06, fp2 n ''mov'' i), (0x07, fp2 n ''neg'' i), (0x20, fp2 n ''cvt.s'' i),
       (0x21, fp2 n ''cvt.d'' i), (0x24, fp2 n ''cvt.w'' i), (0x32, fpc n ''c.eq'' i),
       (0x3c, fpc n ''c.lt'' i), (0x3e, fpc n ''c.le'' i)]
      (snprintf n (''cop1 '' @ hex (unat (funct i)))))"

definition disassemble :: "u32 \<Rightarrow> nat \<Rightarrow> string" where
  "disassemble instr n =
    (if instr = 0 then snprintf n ''nop''
     else switch (op instr)
      [(OP_SPECIAL, disasm_special n instr),
       (OP_SPECIAL2, disasm_special2 n instr),
       (OP_REGIMM, disasm_regimm n instr),
       (OP_COP1, disasm_cop1 n instr),
       (OP_LWC1, fmem n ''lwc1'' instr),
       (OP_LDC1, fmem n ''ldc1'' instr),
       (OP_SWC1, fmem n ''swc1'' instr),
       (OP_SDC1, fmem n ''sdc1'' instr),
       (OP_J, snprintf n (''j '' @ hex (unat (push_bit 2 (target26 instr))))),
       (OP_JAL, snprintf n (''jal '' @ hex (unat (push_bit 2 (target26 instr)))))]
      (disasm_immediate n instr))"

section \<open>The buffers are large enough\<close>

text \<open>
  \<open>same_text n a b\<close>: \<open>b\<close>, printed into 64 bytes, is a short text, and \<open>a\<close> is the same text printed
  into \<open>n\<close> bytes.
\<close>

definition same_text :: "nat \<Rightarrow> string \<Rightarrow> string \<Rightarrow> bool" where
  "same_text n a b \<longleftrightarrow> length b \<le> 26 \<and> a = snprintf n b"

lemma same_text_snprintf: "length s \<le> 26 \<Longrightarrow> same_text n (snprintf n s) (snprintf 64 s)"
  by (simp add: same_text_def snprintf_def)

lemma field_lengths:
  "length (gpr r) \<le> 4" "length (fprn r) \<le> 4" "length (simm_d i) \<le> 6"
  "length (fmt_u (unat (b :: u8))) \<le> 3" "length (hex (unat (b :: u8))) \<le> 4"
  "length (hex (unat (w :: u16))) \<le> 6" "length (hex (unat (v :: u32))) \<le> 10"
  "length (fmt_suffix b) = 1"
proof -
  show u: "length (fmt_u (unat (b :: u8))) \<le> 3" for b
    using unat_bounds(1) [of b] by (intro fmt_u_length) auto
  show "length (gpr r) \<le> 4" "length (fprn r) \<le> 4"
    using u [of r] by (simp_all add: gpr_def fprn_def)
  have "\<bar>sint (imm16 i)\<bar> < 10 ^ 5"
    using sint_lt [of "imm16 i"] sint_ge [of "imm16 i"] by simp
  then show "length (simm_d i) \<le> 6"
    using fmt_d_length [of "sint (imm16 i)" 5] by (simp add: simm_d_def)
  show "length (hex (unat (b :: u8))) \<le> 4"
    using unat_bounds(1) [of b] fmt_x_length [of "unat b" 2] by (simp add: hex_def)
  show "length (hex (unat (w :: u16))) \<le> 6"
    using unat_bounds(2) [of w] fmt_x_length [of "unat w" 4] by (simp add: hex_def)
  show "length (hex (unat (v :: u32))) \<le> 10"
    using unat_bounds(3) [of v] fmt_x_length [of "unat v" 8] by (simp add: hex_def)
qed (simp add: fmt_suffix_def)

lemma same_text_formats:
  "length m \<le> 6 \<Longrightarrow> same_text n (r3 n m i) (r3 64 m i)"
  "length m \<le> 6 \<Longrightarrow> same_text n (rshift n m i) (rshift 64 m i)"
  "length m \<le> 6 \<Longrightarrow> same_text n (rshiftv n m i) (rshiftv 64 m i)"
  "length m \<le> 6 \<Longrightarrow> same_text n (one_reg n m r) (one_reg 64 m r)"
  "length m \<le> 6 \<Longrightarrow> same_text n (two_regs n m r s) (two_regs 64 m r s)"
  "length m \<le> 6 \<Longrightarrow> same_text n (reg_offset n m i) (reg_offset 64 m i)"
  "length m \<le> 6 \<Longrightarrow> same_text n (regs_offset n m i) (regs_offset 64 m i)"
  "length m \<le> 6 \<Longrightarrow> same_text n (i3s n m i) (i3s 64 m i)"
  "length m \<le> 6 \<Longrightarrow> same_text n (i3x n m i) (i3x 64 m i)"
  "length m \<le> 6 \<Longrightarrow> same_text n (mem n m i) (mem 64 m i)"
  "length m \<le> 6 \<Longrightarrow> same_text n (fmem n m i) (fmem 64 m i)"
  "length m \<le> 6 \<Longrightarrow> same_text n (fp3 n m i) (fp3 64 m i)"
  "length m \<le> 6 \<Longrightarrow> same_text n (fp2 n m i) (fp2 64 m i)"
  "length m \<le> 6 \<Longrightarrow> same_text n (fpc n m i) (fpc 64 m i)"
  unfolding r3_def rshift_def rshiftv_def one_reg_def two_regs_def reg_offset_def regs_offset_def
    i3s_def i3x_def mem_def fmem_def fp3_def fp2_def fpc_def sep_def
  using field_lengths(1) [of "rd i"] field_lengths(1) [of "rs i"] field_lengths(1) [of "rt i"]
    field_lengths(1) [of r] field_lengths(1) [of s] field_lengths(2) [of "rd i"]
    field_lengths(2) [of "rt i"] field_lengths(2) [of "shamt i"] field_lengths(3) [of i]
    field_lengths(4) [of "shamt i"] field_lengths(6) [of "imm16 i"] field_lengths(8) [of "rs i"]
  by (auto intro!: same_text_snprintf)

lemma same_text_switch:
  assumes "list_all2 (\<lambda>c c'. fst c = fst c' \<and> same_text n (snd c) (snd c')) cs cs'"
    and "same_text n d d'"
  shows "same_text n (switch k cs d) (switch k cs' d')"
  by (rule switch_rel [OF assms])

lemma same_text_groups:
  "same_text n (disasm_special n i) (disasm_special 64 i)"
  "same_text n (disasm_special2 n i) (disasm_special2 64 i)"
  "same_text n (disasm_regimm n i) (disasm_regimm 64 i)"
  "same_text n (disasm_immediate n i) (disasm_immediate 64 i)"
  "same_text n (disasm_cop1 n i) (disasm_cop1 64 i)"
proof -
  note lens = field_lengths(5) [of "funct i"] field_lengths(5) [of "rt i"]
    field_lengths(5) [of "op i"] field_lengths(6) [of "imm16 i"] field_lengths(1) [of "rt i"]
    field_lengths(2) [of "rd i"] field_lengths(3) [of i]
  show "same_text n (disasm_special n i) (disasm_special 64 i)"
    unfolding disasm_special_def
    by (rule same_text_switch) (use lens in \<open>simp_all add: same_text_formats same_text_snprintf\<close>)
  show "same_text n (disasm_special2 n i) (disasm_special2 64 i)"
    unfolding disasm_special2_def
    by (rule same_text_switch) (use lens in \<open>simp_all add: same_text_formats same_text_snprintf\<close>)
  show "same_text n (disasm_regimm n i) (disasm_regimm 64 i)"
    unfolding disasm_regimm_def
    by (rule same_text_switch) (use lens in \<open>simp_all add: same_text_formats same_text_snprintf\<close>)
  show "same_text n (disasm_immediate n i) (disasm_immediate 64 i)"
    unfolding disasm_immediate_def
    by (rule same_text_switch)
      (use lens in \<open>simp_all add: same_text_formats same_text_snprintf sep_def\<close>)
  have "same_text n (switch (funct i) cs d) (switch (funct i) cs' d')"
    if "list_all2 (\<lambda>c c'. fst c = fst c' \<and> same_text n (snd c) (snd c')) cs cs'"
      "same_text n d d'" for cs cs' d d'
    using that by (rule same_text_switch)
  then show "same_text n (disasm_cop1 n i) (disasm_cop1 64 i)"
    using lens unfolding disasm_cop1_def Let_def
    by (simp add: same_text_formats same_text_snprintf sep_def del: switch.simps)
qed

text \<open>
  C29: every buffer the emulator disassembles into (64 bytes) holds the whole text, whatever the
  instruction word: at most 26 characters, and the same text in any larger buffer.
\<close>

theorem disassembly_never_truncated:
  "length (disassemble i 64) \<le> 26 \<and> disassemble i n = snprintf n (disassemble i 64)"
proof -
  have "same_text n (disassemble i n) (disassemble i 64)"
    using same_text_groups [of n i] field_lengths(7) [of "push_bit 2 (target26 i)"]
    unfolding disassemble_def
    by (auto intro!: same_text_switch simp: same_text_formats same_text_snprintf)
  then show ?thesis by (simp add: same_text_def)
qed

end
