(* ===== verification/Logger.thy ===== *)
theory Logger
  imports Machine Disasm
begin

text \<open>
  The messages on stderr (src/logger.c): the source location shortened to a buffer of
  \<open>MAX_LOC_LEN\<close> bytes, the error messages, and the trace of the executed instructions.
\<close>

abbreviation MAX_LOC_LEN :: nat where "MAX_LOC_LEN \<equiv> 20"

text \<open>
  \<open>len_line\<close> is what \<open>snprintf\<close> returns, the length of the whole number, while \<open>line_str\<close> holds at
  most six digits of it. \<open>file + off\<close> is the rest of the file name after \<open>off\<close> characters.
\<close>

definition align_location :: "string \<Rightarrow> int \<Rightarrow> string" where
  "align_location file line =
    (let line_str = snprintf 7 (fmt_d line);
         len_total = length (fmt_d line) + length file + 1
     in if MAX_LOC_LEN < len_total
        then let off = len_total - MAX_LOC_LEN + 3
          in snprintf MAX_LOC_LEN (''...'' @ drop off file @ '':'' @ line_str)
        else snprintf MAX_LOC_LEN (file @ '':'' @ line_str))"

text \<open>\<open>logger\<close>, with the message already formatted.\<close>

definition logger :: "string \<Rightarrow> int \<Rightarrow> string \<Rightarrow> 'w machine \<Rightarrow> 'w machine" where
  "logger file line msg g =
     put_stderr (''[my_mips] '' @ msg @ '' ('' @ align_location file line @ '')'' @ [CHR 0x0A]) g"

definition log_instr :: "u32 \<Rightarrow> string \<Rightarrow> int \<Rightarrow> 'w machine \<Rightarrow> 'w machine" where
  "log_instr instru filename line g =
     put_stderr (''[my_mips] Executing pc = 0x'' @ fmt_08x (unat (pc g)) @ '': 0x''
       @ fmt_08x (unat instru) @ '': '' @ disassemble instru 64 @ '' (''
       @ filename @ '':'' @ fmt_d line @ '')'' @ [CHR 0x0A]) g"

end
