(* ===== verification/Syscalls.thy ===== *)
theory Syscalls
  imports Functions Logger
begin

text \<open>
  The SPIM system calls (src/syscalls.c), dispatched on \<open>$v0\<close>. Files are reached through the host;
  an access the C library or the kernel would make past the end of the emulated memory is
  \<open>Out_of_bounds\<close>. \<open>calloc\<close> is taken to succeed.
\<close>

section \<open>Bytes and strings in the emulated memory\<close>

definition byte_of :: "char \<Rightarrow> u8" where
  "byte_of c = of_char c"

definition char_of_byte :: "u8 \<Rightarrow> char" where
  "char_of_byte b = char_of (unat b)"

text \<open>
  The C string at offset \<open>k\<close>, without its NUL, or \<open>None\<close> when the memory ends before one.
\<close>

function c_string :: "(u32 \<Rightarrow> u8) \<Rightarrow> nat \<Rightarrow> string option" where
  "c_string m k =
     (if MEM_SIZE \<le> k then None
      else if m (of_nat k) = 0 then Some []
      else map_option ((#) (char_of_byte (m (of_nat k)))) (c_string m (Suc k)))"
  by pat_completeness auto
termination
  by (relation "measure (\<lambda>(m, k). MEM_SIZE - k)") auto

declare c_string.simps [simp del]

text \<open>\<open>n\<close> bytes from offset \<open>k\<close> on, and bytes written there, when they are inside the memory.\<close>

definition read_bytes :: "nat \<Rightarrow> nat \<Rightarrow> 'w machine \<Rightarrow> u8 list result" where
  "read_bytes k n g =
     (if MEM_SIZE < k + n then Inl Out_of_bounds
      else Inr (map (\<lambda>j. memory g (of_nat (k + j))) [0..<n]))"

fun poke_list :: "nat \<Rightarrow> u8 list \<Rightarrow> 'w machine \<Rightarrow> 'w machine" where
  "poke_list k [] g = g"
| "poke_list k (b # bs) g = poke_list (Suc k) bs (poke (of_nat k) b g)"

definition write_bytes :: "nat \<Rightarrow> u8 list \<Rightarrow> 'w machine \<Rightarrow> 'w machine result" where
  "write_bytes k bs g =
     (if MEM_SIZE < k + length bs then Inl Out_of_bounds else Inr (poke_list k bs g))"

text \<open>The bytes \<open>strncpy(_, buf, n)\<close> writes: up to the NUL of \<open>buf\<close>, then zeros.\<close>

definition strncpy_bytes :: "u8 list \<Rightarrow> nat \<Rightarrow> u8 list" where
  "strncpy_bytes buf n =
     (let s = take n (takeWhile (\<lambda>b. b \<noteq> 0) buf) in s @ replicate (n - length s) 0)"

section \<open>The calls\<close>

abbreviation (input) arg :: "'w machine \<Rightarrow> u8 \<Rightarrow> nat" where
  "arg g r \<equiv> unat (reg g r)"

definition print_int :: "'w machine \<Rightarrow> 'w machine" where
  "print_int g = put_stdout (fmt_d (sint (reg g A0))) g"

definition print_string :: "'w machine \<Rightarrow> 'w machine result" where
  "print_string g =
     (case c_string (memory g) (arg g A0) of
        None \<Rightarrow> Inl Out_of_bounds | Some s \<Rightarrow> Inr (put_stdout s g))"

definition read_int :: "'w machine \<Rightarrow> 'w machine result" where
  "read_int g =
     (let (conv, rest) = scan_int (stdin_chars g);
          value = (case conv of None \<Rightarrow> 0 | Some n \<Rightarrow> n)
      in if \<not> fits_signed 32 value then Inl Scan_range
         else Inr (set_reg V0 (word_of_int value) (g\<lparr>stdin_chars := rest\<rparr>)))"

definition read_string :: "'w host \<Rightarrow> 'w machine \<Rightarrow> 'w machine result" where
  "read_string h g =
     (let n = arg g A1; (ret, bs, w) = sys_read h 0 n (world g); g1 = g\<lparr>world := w\<rparr> in
      if ret = -1
      then Inr (put_stderr (''Fail reading string'' @ [CHR 0x0A] @ '': '' @ sys_strerror h w
        @ [CHR 0x0A]) g1)
      else write_bytes (arg g A0) (strncpy_bytes (bs @ replicate (n - length bs) 0) n) g1)"

definition print_char :: "'w machine \<Rightarrow> 'w machine" where
  "print_char g = put_stdout [char_of_byte (ucast (reg g A0))] g"

text \<open>The \<open>char\<close> that was read is signed: it is sign-extended into the register.\<close>

definition read_char :: "'w machine \<Rightarrow> 'w machine" where
  "read_char g =
     (case stdin_chars g of
        [] \<Rightarrow> set_reg V0 0 g
      | c # cs \<Rightarrow> set_reg V0 (scast (byte_of c)) (g\<lparr>stdin_chars := cs\<rparr>))"

text \<open>\<open>O_RDONLY\<close> and \<open>O_WRONLY | O_CREAT | O_TRUNC\<close> of Linux; the mode is 0644.\<close>

abbreviation (input) O_RDONLY :: int where "O_RDONLY \<equiv> 0"
abbreviation (input) O_WRONLY_CREAT_TRUNC :: int where "O_WRONLY_CREAT_TRUNC \<equiv> 577"

definition open_call :: "'w host \<Rightarrow> 'w machine \<Rightarrow> 'w machine result" where
  "open_call h g =
     (case c_string (memory g) (arg g A0) of
        None \<Rightarrow> Inl Out_of_bounds
      | Some path \<Rightarrow>
          let flags = (if reg g A1 = 0 then O_RDONLY else O_WRONLY_CREAT_TRUNC);
              (fd, w) = sys_open h path flags 0x1A4 (world g)
          in Inr (set_reg V0 (word_of_int fd) (g\<lparr>world := w\<rparr>)))"

definition read_call :: "'w host \<Rightarrow> 'w machine \<Rightarrow> 'w machine result" where
  "read_call h g =
     (let (ret, bs, w) = sys_read h (sint (reg g A0)) (arg g A2) (world g) in
      rbind (write_bytes (arg g A1) bs (g\<lparr>world := w\<rparr>))
        (\<lambda>g1. Inr (set_reg V0 (word_of_int ret) g1)))"

definition write_call :: "'w host \<Rightarrow> 'w machine \<Rightarrow> 'w machine result" where
  "write_call h g =
     rbind (read_bytes (arg g A1) (arg g A2) g)
       (\<lambda>bs. let (ret, w) = sys_write h (sint (reg g A0)) bs (world g)
         in Inr (set_reg V0 (word_of_int ret) (g\<lparr>world := w\<rparr>)))"

definition close_call :: "'w host \<Rightarrow> 'w machine \<Rightarrow> 'w machine" where
  "close_call h g = g\<lparr>world := snd (sys_close h (sint (reg g A0)) (world g))\<rparr>"

section \<open>Dispatch\<close>

text \<open>The result is whether the program halts, as the 0 or 1 the function returns.\<close>

definition call_syscall :: "'w host \<Rightarrow> 'w machine \<Rightarrow> (int \<times> 'w machine) result" where
  "call_syscall h g =
     (let syscall_value = reg g V0; continue = (\<lambda>r. rbind r (\<lambda>g'. Inr (0, g'))) in
      switch syscall_value
       [(1, continue (Inr (print_int g))),
        (4, continue (print_string g)),
        (5, continue (read_int g)),
        (8, continue (read_string h g)),
        (10, Inr (1, g)),
        (11, continue (Inr (print_char g))),
        (12, continue (Inr (read_char g))),
        (13, continue (open_call h g)),
        (14, continue (read_call h g)),
        (15, continue (write_call h g)),
        (16, continue (Inr (close_call h g))),
        (17, Inr (1, g))]
       (Inr (1, logger ''syscalls.c'' 124
          (''Unknown syscall number: '' @ fmt_u (unat syscall_value)) g)))"

end
