(* ===== verification/Steps.thy ===== *)
theory Steps
  imports Prelude
begin

text \<open>
  Runs of a step function that returns a status: 0 to go on, 1 for an error, 2 for a clean stop.
  The interpreter loop, the debugger and the code generator's dispatcher all drive such a
  function; what they share is proved here once, in the locales \<open>stepper\<close> and \<open>driver\<close>.
\<close>

section \<open>Runs\<close>

text \<open>The state after \<open>n\<close> steps that all returned 0.\<close>

fun steps :: "('s \<Rightarrow> (int \<times> 's) result) \<Rightarrow> nat \<Rightarrow> 's \<Rightarrow> 's option" where
  "steps f 0 s = Some s"
| "steps f (Suc n) s =
     (case f s of Inl u \<Rightarrow> None | Inr (ret, s') \<Rightarrow> if ret = 0 then steps f n s' else None)"

text \<open>What a loop over the steps returns when the next step does not go on.\<close>

definition stops :: "(int \<times> 's) result \<Rightarrow> (int \<times> 's) result option" where
  "stops r =
     (case r of
        Inl u \<Rightarrow> Some (Inl u)
      | Inr (ret, s) \<Rightarrow> if ret = 1 then Some (Inr (1, s))
          else if ret = 2 then Some (Inr (0, s)) else None)"

inductive reaches :: "('s \<Rightarrow> (int \<times> 's) result) \<Rightarrow> 's \<Rightarrow> 's \<Rightarrow> bool" for f where
  start: "reaches f s s"
| next_step: "reaches f s t \<Longrightarrow> f t = Inr (ret, t') \<Longrightarrow> reaches f s t'"

lemma steps_add: "steps f (m + n) s = Option.bind (steps f m s) (steps f n)"
  by (induction m arbitrary: s) (auto split: sum.splits)

lemma steps_Suc_last:
  "steps f (Suc n) s = Some s'' \<longleftrightarrow> (\<exists>s'. steps f n s = Some s' \<and> f s' = Inr (0, s''))"
proof -
  have "steps f (Suc n) s = Option.bind (steps f n s) (steps f 1)"
    using steps_add [of f n 1 s] by simp
  then show ?thesis
    by (cases "steps f n s") (auto split: sum.splits prod.splits if_splits)
qed

lemma steps_reaches: "steps f n s = Some s' \<Longrightarrow> reaches f s s'"
proof (induction n arbitrary: s')
  case 0
  then show ?case by (simp add: reaches.start)
next
  case (Suc n)
  then obtain t where "steps f n s = Some t" "f t = Inr (0, s')"
    unfolding steps_Suc_last by blast
  with Suc.IH show ?case by (blast intro: reaches.next_step)
qed

section \<open>Invariants\<close>

locale stepper =
  fixes step :: "'s \<Rightarrow> (int \<times> 's) result" and inv :: "'s \<Rightarrow> bool"
  assumes step_inv: "inv s \<Longrightarrow> step s = Inr (ret, s') \<Longrightarrow> inv s'"
begin

lemma reaches_inv: "reaches step s t \<Longrightarrow> inv s \<Longrightarrow> inv t"
  by (induction rule: reaches.induct) (blast intro: step_inv)+

lemma steps_inv: "steps step n s = Some s' \<Longrightarrow> inv s \<Longrightarrow> inv s'"
  by (blast dest: steps_reaches reaches_inv)

lemma stops_inv: "inv s \<Longrightarrow> stops (step s) = Some (Inr (ret, s')) \<Longrightarrow> inv s'"
  by (auto simp: stops_def dest: step_inv split: sum.splits if_splits)

end

section \<open>The driving loop\<close>

text \<open>
  \<open>while (1)\<close> over a step, until it returns 1 or 2. The loop may run forever: \<open>None\<close> is not
  returning. It returns 1 after an error and 0 after a clean stop.
\<close>

partial_function (option) loop ::
  "('s \<Rightarrow> (int \<times> 's) result) \<Rightarrow> 's \<Rightarrow> (int \<times> 's) result option" where
  "loop f s =
     (case f s of
        Inl u \<Rightarrow> Some (Inl u)
      | Inr (ret, s') \<Rightarrow>
          if ret = 1 then Some (Inr (1, s'))
          else if ret = 2 then Some (Inr (0, s'))
          else loop f s')"

lemma loop_step:
  "loop f s = (case stops (f s) of
     Some r \<Rightarrow> Some r
   | None \<Rightarrow> (case f s of Inr (ret, s') \<Rightarrow> loop f s'))"
  by (subst loop.simps) (simp add: stops_def split: sum.split prod.split)

lemma loop_after:
  "steps f n s = Some s' \<Longrightarrow> stops (f s') = Some r \<Longrightarrow> loop f s = Some r"
proof (induction n arbitrary: s)
  case 0
  then show ?case by (subst loop_step) simp
next
  case (Suc n)
  then obtain s1 where s: "f s = Inr (0, s1)" "steps f n s1 = Some s'"
    by (auto split: sum.splits if_splits)
  then have "loop f s1 = Some r" using Suc.IH Suc.prems(2) by blast
  with s(1) show ?case by (simp add: loop_step [of f s] stops_def)
qed

locale driver =
  fixes step :: "'s \<Rightarrow> (int \<times> 's) result"
  assumes status: "step s = Inr (ret, s') \<Longrightarrow> ret \<in> {0, 1, 2}"
begin

lemma goes_on: "stops (step s) = None \<Longrightarrow> \<exists>s'. step s = Inr (0, s')"
  using status [of s] by (cases "step s") (auto simp: stops_def split: if_splits)

lemma loop_returns:
  assumes "loop step s = Some r"
  shows "\<exists>n s'. steps step n s = Some s' \<and> stops (step s') = Some r"
proof -
  have "f = step \<longrightarrow> (\<exists>n s'. steps step n s = Some s' \<and> stops (step s') = Some r)"
    if "loop f s = Some r" for f s r
  proof (rule loop.raw_induct [where P = "\<lambda>f s r. f = step \<longrightarrow>
      (\<exists>n s'. steps step n s = Some s' \<and> stops (step s') = Some r)", OF _ that], rule impI)
    fix rec and f :: "'s \<Rightarrow> (int \<times> 's) result" and s r
    assume IH: "\<And>f s r. rec f s = Some r \<Longrightarrow> f = step \<longrightarrow>
        (\<exists>n s'. steps step n s = Some s' \<and> stops (step s') = Some r)"
      and eq: "(case f s of Inl u \<Rightarrow> Some (Inl u)
        | Inr (ret, s') \<Rightarrow> if ret = 1 then Some (Inr (1, s'))
            else if ret = 2 then Some (Inr (0, s')) else rec f s') = Some r"
      and f: "f = step"
    show "\<exists>n s'. steps step n s = Some s' \<and> stops (step s') = Some r"
    proof (cases "stops (step s)")
      case (Some r')
      with eq f have "r' = r" by (auto simp: stops_def split: sum.splits if_splits)
      with Some have "steps step 0 s = Some s" "stops (step s) = Some r" by simp_all
      then show ?thesis by blast
    next
      case None
      then obtain s1 where s: "step s = Inr (0, s1)" using goes_on by blast
      with eq f have "rec step s1 = Some r" by simp
      then obtain n s' where "steps step n s1 = Some s'" "stops (step s') = Some r"
        using IH by blast
      then have "steps step (Suc n) s = Some s'" using s by simp
      with \<open>stops (step s') = Some r\<close> show ?thesis by blast
    qed
  qed
  with assms show ?thesis by blast
qed

lemma loop_iff:
  "loop step s = Some r \<longleftrightarrow> (\<exists>n s'. steps step n s = Some s' \<and> stops (step s') = Some r)"
proof
  assume "\<exists>n s'. steps step n s = Some s' \<and> stops (step s') = Some r"
  then obtain n s' where "steps step n s = Some s'" "stops (step s') = Some r" by blast
  then show "loop step s = Some r" by (rule loop_after)
qed (rule loop_returns)

lemma loop_forever_iff: "loop step s = None \<longleftrightarrow> (\<forall>n. \<exists>s'. steps step n s = Some s')"
proof
  assume none: "loop step s = None"
  show "\<forall>n. \<exists>s'. steps step n s = Some s'"
  proof
    fix n show "\<exists>s'. steps step n s = Some s'"
    proof (induction n)
      case (Suc n)
      then obtain t where t: "steps step n s = Some t" by blast
      then have "stops (step t) = None"
        using none loop_after by (metis not_Some_eq)
      then show ?case using goes_on t unfolding steps_Suc_last by blast
    qed simp
  qed
next
  assume all: "\<forall>n. \<exists>s'. steps step n s = Some s'"
  show "loop step s = None"
  proof (rule ccontr)
    assume "loop step s \<noteq> None"
    then obtain n t r where s: "steps step n s = Some t" "stops (step t) = Some r"
      using loop_iff by blast
    with all [rule_format, of "Suc n"] show False
      unfolding steps_Suc_last by (auto simp: stops_def)
  qed
qed

text \<open>Steps are deterministic: a run that stops after \<open>n\<close> steps makes no more.\<close>

lemma stops_last:
  assumes "steps step n s = Some t" "stops (step t) = Some r" "steps step m s = Some u"
  shows "m \<le> n"
proof (rule ccontr)
  assume "\<not> m \<le> n"
  then obtain k where "m = Suc n + k" using less_iff_Suc_add [of n m] by auto
  with assms(3) obtain v where "steps step (Suc n) s = Some v"
    using steps_add [of step "Suc n" k s] by (cases "steps step (Suc n) s") simp_all
  then show False using assms(1,2) unfolding steps_Suc_last by (auto simp: stops_def)
qed

end

section \<open>Simulation\<close>

text \<open>
  Two drivers in lock step: related states make related steps, which go on together or stop
  together, in states related by \<open>final\<close>. Then the loops return together, in such states.
\<close>

locale simulation = left: driver f + right: driver g
  for f :: "'s \<Rightarrow> (int \<times> 's) result" and g :: "'t \<Rightarrow> (int \<times> 't) result" +
  fixes related :: "'s \<Rightarrow> 't \<Rightarrow> bool" and final :: "'s \<Rightarrow> 't \<Rightarrow> bool"
  assumes sim: "related s t \<Longrightarrow> rel_sum (=) (\<lambda>(ret, s') (ret', t'). (ret = 0 \<longleftrightarrow> ret' = 0)
      \<and> (if ret = 0 then related s' t' else final s' t')) (f s) (g t)"
begin

lemma sim_goes_on:
  assumes "related s t"
  shows "(\<exists>s'. f s = Inr (0, s')) \<longleftrightarrow> (\<exists>t'. g t = Inr (0, t'))"
    "f s = Inr (0, s') \<Longrightarrow> g t = Inr (0, t') \<Longrightarrow> related s' t'"
  using sim [OF assms] by (auto elim!: rel_sum.cases)

lemma steps_sim:
  assumes "related s t"
  shows "rel_option related (steps f n s) (steps g n t)"
proof (induction n)
  case (Suc n)
  show ?case
  proof (cases "steps f n s")
    case None
    then have "steps f (Suc n) s = None" using steps_add [of f n 1 s] by simp
    moreover from None Suc have "steps g n t = None" by simp
    then have "steps g (Suc n) t = None" using steps_add [of g n 1 t] by simp
    ultimately show ?thesis by simp
  next
    case (Some s')
    with Suc obtain t' where t': "steps g n t = Some t'" "related s' t'" by (auto simp: option_rel_Some1)
    have "steps f (Suc n) s = steps f 1 s'" "steps g (Suc n) t = steps g 1 t'"
      using Some t' steps_add [of f n 1 s] steps_add [of g n 1 t] by simp_all
    with sim [OF t'(2)] show ?thesis by (auto elim!: rel_sum.cases split: if_splits)
  qed
qed (simp add: assms)

lemma stops_sim:
  assumes "related s t"
  shows "rel_option (rel_sum (=) (\<lambda>x y. final (snd x) (snd y))) (stops (f s)) (stops (g t))"
proof (cases "f s")
  case (Inl u)
  with sim [OF assms] show ?thesis by (auto simp: stops_def elim: rel_sum.cases)
next
  case (Inr p)
  with sim [OF assms] obtain ret s' ret' t' where eq: "f s = Inr (ret, s')" "g t = Inr (ret', t')"
    and r: "ret = 0 \<longleftrightarrow> ret' = 0" "ret \<noteq> 0 \<longrightarrow> final s' t'"
    by (cases p) (auto elim!: rel_sum.cases split: if_splits)
  have "ret \<in> {0, 1, 2}" "ret' \<in> {0, 1, 2}"
    using left.status [OF eq(1)] right.status [OF eq(2)] by auto
  with eq r show ?thesis by (auto simp: stops_def)
qed

lemma loop_sim:
  assumes "related s t"
  shows "rel_option (rel_sum (=) (\<lambda>x y. final (snd x) (snd y))) (loop f s) (loop g t)"
proof (cases "loop f s")
  case None
  have "\<exists>t'. steps g n t = Some t'" for n
    using None steps_sim [OF assms, of n] unfolding left.loop_forever_iff
    by (metis option_rel_Some1)
  then have "loop g t = None" unfolding right.loop_forever_iff by blast
  with None show ?thesis by simp
next
  case (Some r)
  then obtain n s' where s': "steps f n s = Some s'" "stops (f s') = Some r"
    unfolding left.loop_iff by blast
  then obtain t' where t': "steps g n t = Some t'" "related s' t'"
    using steps_sim [OF assms, of n] by (auto simp: option_rel_Some1)
  with stops_sim [OF t'(2)] s'(2) obtain r' where
    r': "stops (g t') = Some r'" "rel_sum (=) (\<lambda>x y. final (snd x) (snd y)) r r'"
    by (auto simp: option_rel_Some1)
  then have "loop g t = Some r'" using t'(1) unfolding right.loop_iff by blast
  with Some r'(2) show ?thesis by simp
qed

end

end
