(* ===== verification/Cpu.thy ===== *)
theory Cpu
  imports Fpu Syscalls Steps
begin

text \<open>
  The processor (src/cpu.c): the instruction groups, the decoder, one step with its branch-delay
  pipeline, and the execution loop. \<open>exec_register\<close>, \<open>exec_immediate\<close>, \<open>exec_jump\<close> and
  \<open>exec_special2\<close> keep the contract \<open>executor\<close>, and so does what the decoder routes to.
\<close>

section \<open>R-type instructions\<close>

definition exec_register :: "'w host \<Rightarrow> u32 \<Rightarrow> 'w machine \<Rightarrow> (int \<times> 'w machine) result" where
  "exec_register h i g =
    (let s = reg g (rs i); t = reg g (rt i); d = rd i;
         wr = (\<lambda>v. Some (Inr (set_reg d v g)))
     in finish_r0 g (switch (funct i)
      [(FN_ADD, Some (Inr (add_instr i g))),
       (FN_SUB, Some (Inr (sub_instr i g))),
       (FN_ADDU, wr (s + t)),
       (FN_SUBU, wr (s - t)),
       (FN_MULT, Some (Inr (mult_instr i g))),
       (FN_MULTU, Some (Inr (multu_instr i g))),
       (FN_DIV, Some (div_instr i g)),
       (FN_DIVU, Some (Inr (divu_instr i g))),
       (FN_AND, wr (s AND t)),
       (FN_OR, wr (s OR t)),
       (FN_XOR, wr (s XOR t)),
       (FN_NOR, wr (NOT (s OR t))),
       (FN_SLT, wr (of_cond (sint s < sint t))),
       (FN_SLTU, wr (of_cond (s < t))),
       (FN_SLL, wr (push_bit (unat (shamt i)) t)),
       (FN_SRL, wr (drop_bit (unat (shamt i)) t)),
       (FN_SRA, wr (signed_drop_bit (unat (shamt i)) t)),
       (FN_SLLV, wr (push_bit (unat (s AND 0x1F)) t)),
       (FN_SRLV, wr (drop_bit (unat (s AND 0x1F)) t)),
       (FN_SRAV, wr (signed_drop_bit (unat (s AND 0x1F)) t)),
       (FN_MFHI, wr (hi g)),
       (FN_MFLO, wr (lo g)),
       (FN_MTHI, Some (Inr (g\<lparr>hi := s\<rparr>))),
       (FN_MTLO, Some (Inr (g\<lparr>lo := s\<rparr>))),
       (FN_MOVZ, Some (Inr (if t = 0 then set_reg d s g else g))),
       (FN_MOVN, Some (Inr (if t \<noteq> 0 then set_reg d s g else g))),
       (FN_JR, Some (Inr (schedule_branch s g))),
       (FN_JALR, Some (let g1 = set_reg d (pc g + 8) g
          in Inr (schedule_branch (reg g1 (rs i)) g1)))] None))"

section \<open>I-type instructions\<close>

text \<open>\<open>bltz\<close>, \<open>bgez\<close>, \<open>bltzal\<close> and \<open>bgezal\<close>, selected by the \<open>rt\<close> field.\<close>

definition exec_regimm :: "u32 \<Rightarrow> 'w machine \<Rightarrow> 'w machine" where
  "exec_regimm i g =
    (let negative = sint (reg g (rs i)) < 0;
         take = (if rt i = RT_BGEZ \<or> rt i = RT_BGEZAL then \<not> negative else negative);
         g1 = (if rt i = RT_BGEZAL \<or> rt i = RT_BLTZAL then set_reg RA (pc g + 8) g else g)
     in if take then schedule_branch (branch_dest i g1) g1 else g1)"

text \<open>
  The unaligned accesses read the aligned word around the address through \<open>load_word\<close>, and swl and
  swr store it back merged with the register.
\<close>

definition exec_lwl :: "'w host \<Rightarrow> u32 \<Rightarrow> 'w machine \<Rightarrow> 'w machine" where
  "exec_lwl h i g =
    (let a = mem_addr i g; (w, g1) = load_word h (word_align a) g
     in set_reg (rt i) (lwl_merge a w (reg g1 (rt i))) g1)"

definition exec_lwr :: "'w host \<Rightarrow> u32 \<Rightarrow> 'w machine \<Rightarrow> 'w machine" where
  "exec_lwr h i g =
    (let a = mem_addr i g; (w, g1) = load_word h (word_align a) g
     in set_reg (rt i) (lwr_merge a w (reg g1 (rt i))) g1)"

definition exec_swl :: "'w host \<Rightarrow> u32 \<Rightarrow> 'w machine \<Rightarrow> 'w machine" where
  "exec_swl h i g =
    (let a = mem_addr i g; al = word_align a; (w, g1) = load_word h al g
     in store_word h al (swl_merge a w (reg g (rt i))) g1)"

definition exec_swr :: "'w host \<Rightarrow> u32 \<Rightarrow> 'w machine \<Rightarrow> 'w machine" where
  "exec_swr h i g =
    (let a = mem_addr i g; al = word_align a; (w, g1) = load_word h al g
     in store_word h al (swr_merge a w (reg g (rt i))) g1)"

definition exec_immediate :: "'w host \<Rightarrow> u32 \<Rightarrow> 'w machine \<Rightarrow> (int \<times> 'w machine) result" where
  "exec_immediate h i g =
    (let s = reg g (rs i); t = reg g (rt i); a = mem_addr i g;
         done = (\<lambda>g'. Some (Inr g')); wr = (\<lambda>v. Some (Inr (set_reg (rt i) v g)));
         branch = (\<lambda>c. Some (Inr (if c then schedule_branch (branch_dest i g) g else g)))
     in finish_r0 g (switch (op i)
      [(OP_ADDI, done (addi_instr i g)),
       (OP_ADDIU, wr (s + simm i)),
       (OP_ANDI, wr (s AND ucast (imm16 i))),
       (OP_ORI, wr (s OR ucast (imm16 i))),
       (OP_XORI, wr (s XOR ucast (imm16 i))),
       (OP_SLTI, wr (of_cond (sint s < sint (imm16 i)))),
       (OP_SLTIU, wr (of_cond (s < simm i))),
       (OP_LUI, wr (push_bit 16 (ucast (imm16 i)))),
       (OP_BEQ, branch (s = t)),
       (OP_BNE, branch (s \<noteq> t)),
       (OP_BGTZ, branch (0 < sint s)),
       (OP_BLEZ, branch (sint s \<le> 0)),
       (OP_REGIMM, done (exec_regimm i g)),
       (OP_LB, wr (scast (ucast (load_byte a g) :: u8))),
       (OP_LBU, wr (load_byte a g)),
       (OP_LH, wr (scast (ucast (load_half a g) :: u16))),
       (OP_LHU, wr (load_half a g)),
       (OP_LW, done (let (w, g1) = load_word h a g in set_reg (rt i) w g1)),
       (OP_LWL, done (exec_lwl h i g)),
       (OP_LWR, done (exec_lwr h i g)),
       (OP_SB, done (store_byte a t g)),
       (OP_SH, done (store_half a t g)),
       (OP_SW, done (store_word h a t g)),
       (OP_SWL, done (exec_swl h i g)),
       (OP_SWR, done (exec_swr h i g))] None))"

section \<open>J-type instructions\<close>

definition exec_jump :: "'w host \<Rightarrow> u32 \<Rightarrow> 'w machine \<Rightarrow> (int \<times> 'w machine) result" where
  "exec_jump h i g =
    (let target = (pc g AND 0xF0000000) OR push_bit 2 (target26 i) in
     finish g (switch (op i)
      [(OP_J, Some (Inr (schedule_branch target g))),
       (OP_JAL, Some (Inr (schedule_branch target (set_reg RA (pc g + 8) g))))] None))"

section \<open>MIPS32 instructions\<close>

text \<open>
  The loops of clz and clo: \<open>n\<close> counts the shifts, at most 32. The accumulators of madd and msub
  are \<open>int64_t\<close>, so their overflow is undefined; those of maddu and msubu wrap.
\<close>

function clz_loop :: "u32 \<Rightarrow> nat \<Rightarrow> nat" where
  "clz_loop v n =
     (if n < 32 \<and> v AND 0x80000000 = 0 then clz_loop (push_bit 1 v) (Suc n) else n)"
  by pat_completeness auto
termination
  by (relation "measure (\<lambda>(v, n). 32 - n)") auto

function clo_loop :: "u32 \<Rightarrow> nat \<Rightarrow> nat" where
  "clo_loop v n =
     (if n < 32 \<and> v AND 0x80000000 \<noteq> 0 then clo_loop (push_bit 1 v) (Suc n) else n)"
  by pat_completeness auto
termination
  by (relation "measure (\<lambda>(v, n). 32 - n)") auto

declare clz_loop.simps [simp del] clo_loop.simps [simp del]

text \<open>
  The low word of \<open>acc >> 32\<close> is the high half of \<open>acc\<close>, whether the shift is arithmetic or not.
\<close>

definition set_hilo :: "u64 \<Rightarrow> 'w machine \<Rightarrow> 'w machine" where
  "set_hilo acc g = g\<lparr>hi := ucast (drop_bit 32 acc), lo := ucast acc\<rparr>"

definition acc_s64 :: "'w machine \<Rightarrow> int" where
  "acc_s64 g = sint (acc_u64 g)"

definition accumulate :: "int \<Rightarrow> 'w machine \<Rightarrow> 'w machine result" where
  "accumulate x g =
     (if fits_signed 64 x then Inr (set_hilo (word_of_int x) g) else Inl Signed_overflow)"

definition exec_special2 :: "'w host \<Rightarrow> u32 \<Rightarrow> 'w machine \<Rightarrow> (int \<times> 'w machine) result" where
  "exec_special2 h i g =
    (let s = reg g (rs i); t = reg g (rt i); sp = sint s * sint t;
         up = (ucast s * ucast t :: u64)
     in finish_r0 g (switch (funct i)
      [(FN2_MUL, Some (if fits_signed 32 sp then Inr (set_reg (rd i) (word_of_int sp) g)
          else Inl Signed_overflow)),
       (FN2_MADD, Some (accumulate (acc_s64 g + sp) g)),
       (FN2_MADDU, Some (Inr (set_hilo (acc_u64 g + up) g))),
       (FN2_MSUB, Some (accumulate (acc_s64 g - sp) g)),
       (FN2_MSUBU, Some (Inr (set_hilo (acc_u64 g - up) g))),
       (FN2_CLZ, Some (Inr (set_reg (rd i) (of_nat (clz_loop s 0)) g))),
       (FN2_CLO, Some (Inr (set_reg (rd i) (of_nat (clo_loop s 0)) g)))] None))"

section \<open>Decoding and stepping\<close>

text \<open>The status: 0 to continue, 1 on a decoding error, 2 to stop cleanly.\<close>

definition exec_decoded :: "'w host \<Rightarrow> u32 \<Rightarrow> 'w machine \<Rightarrow> (int \<times> 'w machine) result" where
  "exec_decoded h i g =
    (if i = 0 then Inr (0, g)
     else if op i = OP_SPECIAL \<and> funct i = FN_SYSCALL
     then rbind (call_syscall h g) (\<lambda>(r, g'). Inr (if r \<noteq> 0 then 2 else 0, g'))
     else if op i = OP_SPECIAL \<and> funct i = FN_BREAK then Inr (2, set_reg K0 1 g)
     else switch (op i)
      [(OP_SPECIAL, exec_register h i g),
       (OP_SPECIAL2, exec_special2 h i g),
       (OP_COP1, exec_cop1 h i g),
       (OP_LWC1, exec_cop1_ldst h i g),
       (OP_LDC1, exec_cop1_ldst h i g),
       (OP_SWC1, exec_cop1_ldst h i g),
       (OP_SDC1, exec_cop1_ldst h i g),
       (OP_J, exec_jump h i g),
       (OP_JAL, exec_jump h i g)]
      (exec_immediate h i g))"

text \<open>With \<open>-l\<close> the instruction is traced first.\<close>

definition exec_inst :: "'w host \<Rightarrow> u32 \<Rightarrow> 'w machine \<Rightarrow> (int \<times> 'w machine) result" where
  "exec_inst h i g =
     exec_decoded h i (if log_on g then log_instr i ''cpu.c'' 291 g else g)"

text \<open>
  The instruction at \<open>pc\<close>: element \<open>pc / 4\<close> of the memory as an array of words, on the
  little-endian host.
\<close>

definition fetch :: "'w machine \<Rightarrow> u32" where
  "fetch g = le_word (memory g) (4 * (pc g div 4))"

text \<open>A branch scheduled before takes effect once the instruction at \<open>pc\<close>, its delay slot, has run.\<close>

definition step_instruction :: "'w host \<Rightarrow> 'w machine \<Rightarrow> (int \<times> 'w machine) result" where
  "step_instruction h g =
    (let instru = fetch g; take = branch_pending g; target = branch_target g in
     rbind (exec_inst h instru (g\<lparr>branch_pending := False\<rparr>))
       (\<lambda>(ret, g1).
          if ret = 0
          then let g2 = pc_step 4 g1 in Inr (ret, if take then g2\<lparr>pc := target\<rparr> else g2)
          else Inr (ret, g1)))"

text \<open>\<open>execute\<close>: the step, until it returns 1 (a decoding error) or 2 (a clean stop).\<close>

definition execute :: "'w host \<Rightarrow> 'w machine \<Rightarrow> (int \<times> 'w machine) result option" where
  "execute h g = loop (step_instruction h) g"

text \<open>The decoder sends the word 0, a nop, past the group it belongs to: it is \<open>sll $0, $0, 0\<close>.\<close>

lemma special_decoded:
  assumes "op i = OP_SPECIAL" "funct i \<noteq> FN_SYSCALL" "funct i \<noteq> FN_BREAK" "reg g R0 = 0"
  shows "exec_decoded h i g = exec_register h i g"
proof (cases "i = 0")
  case True
  have "rd 0 = 0" "rt 0 = 0" "rs 0 = 0" "shamt 0 = 0" "funct 0 = 0" by (simp_all add: field_defs)
  with True assms(4) show ?thesis
    using set_reg_same [of R0 g] by (simp add: exec_decoded_def exec_register_def finish_r0_def)
qed (use assms in \<open>simp add: exec_decoded_def\<close>)

section \<open>The contracts\<close>

lemma arith_keeps [simp]:
  "keeps g (add_instr i g)" "keeps g (sub_instr i g)" "keeps g (addi_instr i g)"
  "keeps g (mult_instr i g)" "keeps g (multu_instr i g)" "keeps g (divu_instr i g)"
  "on_ok (keeps g) (div_instr i g)"
  by (simp_all add: keeps_def add_instr_def sub_instr_def addi_instr_def mult_instr_def
      multu_instr_def divu_instr_def div_instr_def Let_def)

lemma keeps_updates [simp]:
  "keeps g (set_reg n v g)" "keeps g (schedule_branch t g)" "keeps g (store_byte a v g)"
  "keeps g (store_half a v g)" "keeps g (store_word h a v g)" "keeps g (snd (load_word h a g))"
  "keeps g (set_hilo acc g)" "keeps g (g\<lparr>hi := v\<rparr>)" "keeps g (g\<lparr>lo := v\<rparr>)"
  "keeps g (g\<lparr>world := w\<rparr>)" "keeps g (g\<lparr>stdin_chars := s\<rparr>)"
  "keeps g (put_stdout s g)" "keeps g (put_stderr s g)" "keeps g (poke a b g)"
  by (simp_all add: keeps_def set_hilo_def)

lemma keeps_trans: "keeps g g1 \<Longrightarrow> keeps g1 g2 \<Longrightarrow> keeps g g2"
  by (auto simp: keeps_def)

lemma unaligned_keeps [simp]:
  "keeps g (exec_lwl h i g)" "keeps g (exec_lwr h i g)"
  "keeps g (exec_swl h i g)" "keeps g (exec_swr h i g)"
  by (simp_all add: exec_lwl_def exec_lwr_def exec_swl_def exec_swr_def Let_def case_prod_beta
      keeps_def)

lemma regimm_keeps [simp]: "keeps g (exec_regimm i g)"
  by (simp add: exec_regimm_def Let_def keeps_def)

lemma accumulate_keeps [simp]: "on_ok (keeps g) (accumulate x g)"
  by (simp add: accumulate_def)

interpretation register: executor exec_register
proof unfold_locales
  fix h :: "'w host" and i and g :: "'w machine"
  show "on_ok (contract g) (exec_register h i g)"
    unfolding exec_register_def Let_def
    by (rule finish_r0_switch) (simp add: case_keeps_def, simp add: keeps_def)
qed

interpretation immediate: executor exec_immediate
proof unfold_locales
  fix h :: "'w host" and i and g :: "'w machine"
  show "on_ok (contract g) (exec_immediate h i g)"
    unfolding exec_immediate_def Let_def
    by (rule finish_r0_switch) (simp add: case_keeps_def case_prod_beta, simp add: keeps_def)
qed

interpretation jump: executor exec_jump
proof unfold_locales
  fix h :: "'w host" and i and g :: "'w machine"
  show "on_ok (contract g) (exec_jump h i g)"
    unfolding exec_jump_def Let_def
    by (rule finish_switch) (simp add: case_simps)
qed

interpretation special2: executor exec_special2
proof unfold_locales
  fix h :: "'w host" and i and g :: "'w machine"
  show "on_ok (contract g) (exec_special2 h i g)"
    unfolding exec_special2_def Let_def
    by (rule finish_r0_switch) (simp add: case_keeps_def)
qed

text \<open>System calls keep the same frame; none writes register 0.\<close>

definition call_keeps :: "'w machine \<Rightarrow> 'w machine \<Rightarrow> bool" where
  "call_keeps g g' \<longleftrightarrow> keeps g g' \<and> (reg g R0 = 0 \<longrightarrow> reg g' R0 = 0)
     \<and> branch_pending g' = branch_pending g"

lemma poke_list_keeps [simp]: "keeps g (poke_list k bs g') = keeps g g'"
  by (induction bs arbitrary: k g') (simp_all add: keeps_def)

lemma poke_list_reg [simp]: "reg (poke_list k bs g) = reg g"
  by (induction bs arbitrary: k g) simp_all

lemma poke_list_pending [simp]: "branch_pending (poke_list k bs g) = branch_pending g"
  by (induction bs arbitrary: k g) simp_all

lemma on_ok_rbindI': "(\<And>x. r = Inr x \<Longrightarrow> on_ok P (f x)) \<Longrightarrow> on_ok P (rbind r f)"
  by (cases r) simp_all

lemma call_keeps_set [simp]:
  "n \<noteq> R0 \<Longrightarrow> call_keeps g (set_reg n v g') = call_keeps g g'"
  "call_keeps g (put_stdout s g') = call_keeps g g'"
  "call_keeps g (put_stderr s g') = call_keeps g g'"
  "call_keeps g (g'\<lparr>world := w\<rparr>) = call_keeps g g'"
  "call_keeps g (g'\<lparr>stdin_chars := cs\<rparr>) = call_keeps g g'"
  "call_keeps g (poke_list k bs g') = call_keeps g g'"
  "call_keeps g g"
  by (simp_all add: call_keeps_def) (simp_all add: keeps_def)

lemma write_bytes_call_keeps [simp]:
  "call_keeps g g' \<Longrightarrow> on_ok (call_keeps g) (write_bytes k bs g')"
  by (simp add: write_bytes_def)

lemma calls_keep [simp]:
  "call_keeps g (print_int g)" "call_keeps g (print_char g)" "call_keeps g (read_char g)"
  "call_keeps g (close_call h g)" "on_ok (call_keeps g) (print_string g)"
  "on_ok (call_keeps g) (read_int g)" "on_ok (call_keeps g) (open_call h g)"
  by (simp_all add: print_int_def print_char_def read_char_def close_call_def print_string_def
      read_int_def open_call_def Let_def case_prod_beta split: list.split option.split)

lemma read_string_keeps [simp]: "on_ok (call_keeps g) (read_string h g)"
  by (simp add: read_string_def Let_def case_prod_beta)

lemma read_call_keeps [simp]: "on_ok (call_keeps g) (read_call h g)"
  by (simp add: read_call_def case_prod_beta on_ok_rbind)

lemma write_call_keeps [simp]: "on_ok (call_keeps g) (write_call h g)"
  unfolding write_call_def by (rule on_ok_rbindI) (simp add: case_prod_beta)

lemma call_syscall_keeps:
  "on_ok (\<lambda>p. (fst p = 0 \<or> fst p = 1) \<and> call_keeps g (snd p)) (call_syscall h g)"
  unfolding call_syscall_def Let_def
  by (rule switch_rule) (auto simp: on_ok_rbind logger_def)

section \<open>One instruction\<close>

definition inst_contract :: "'w machine \<Rightarrow> int \<times> 'w machine \<Rightarrow> bool" where
  "inst_contract g p \<longleftrightarrow> fst p \<in> {0, 1, 2} \<and> keeps g (snd p)
     \<and> (reg g R0 = 0 \<longrightarrow> reg (snd p) R0 = 0)"

lemma contract_inst: "on_ok (contract g) r \<Longrightarrow> on_ok (inst_contract g) r"
  by (erule on_ok_mono) (auto simp: inst_contract_def)

lemma inst_contract_log:
  "on_ok (inst_contract (log_instr i f l g)) r \<Longrightarrow> on_ok (inst_contract g) r"
  by (erule on_ok_mono) (simp add: inst_contract_def keeps_def log_instr_def)

lemma exec_decoded_contract: "on_ok (inst_contract g) (exec_decoded h i g)"
proof -
  have sys: "on_ok (inst_contract g)
      (rbind (call_syscall h g) (\<lambda>(r, g'). Inr (if r \<noteq> 0 then 2 else 0, g')))"
    unfolding on_ok_rbind
    by (rule on_ok_mono [OF call_syscall_keeps]) (auto simp: inst_contract_def call_keeps_def)
  have "on_ok (inst_contract g) (switch (op i)
      [(OP_SPECIAL, exec_register h i g), (OP_SPECIAL2, exec_special2 h i g),
       (OP_COP1, exec_cop1 h i g), (OP_LWC1, exec_cop1_ldst h i g),
       (OP_LDC1, exec_cop1_ldst h i g), (OP_SWC1, exec_cop1_ldst h i g),
       (OP_SDC1, exec_cop1_ldst h i g), (OP_J, exec_jump h i g), (OP_JAL, exec_jump h i g)]
      (exec_immediate h i g))"
    by (rule switch_rule)
      (auto intro!: contract_inst register.meets special2.meets cop1.meets cop1_ldst.meets
        jump.meets immediate.meets)
  with sys show ?thesis
    by (simp add: exec_decoded_def inst_contract_def)
qed

lemma exec_inst_contract: "on_ok (inst_contract g) (exec_inst h i g)"
  unfolding exec_inst_def
  by (cases "log_on g") (auto intro: inst_contract_log exec_decoded_contract)

section \<open>One step\<close>

text \<open>The program counter after a step depends on the pending branch, not on the instruction.\<close>

lemma step_contract:
  assumes "step_instruction h g = Inr (ret, g')"
  shows "ret \<in> {0, 1, 2}" "log_on g' = log_on g" "reg g R0 = 0 \<Longrightarrow> reg g' R0 = 0"
    "ret = 0 \<Longrightarrow> pc g' = (if branch_pending g then branch_target g else pc g + 4)"
    "ret \<noteq> 0 \<Longrightarrow> pc g' = pc g"
proof -
  obtain g1 where e: "exec_inst h (fetch g) (g\<lparr>branch_pending := False\<rparr>) = Inr (ret, g1)"
    and g': "g' = (if ret = 0 then (if branch_pending g
        then (pc_step 4 g1)\<lparr>pc := branch_target g\<rparr> else pc_step 4 g1) else g1)"
    using assms unfolding step_instruction_def Let_def
    by (auto simp: rbind_Inr_iff split: if_splits)
  have "inst_contract (g\<lparr>branch_pending := False\<rparr>) (ret, g1)"
    using exec_inst_contract [of "g\<lparr>branch_pending := False\<rparr>" h "fetch g"] e by simp
  then show "ret \<in> {0, 1, 2}" "log_on g' = log_on g" "reg g R0 = 0 \<Longrightarrow> reg g' R0 = 0"
    "ret = 0 \<Longrightarrow> pc g' = (if branch_pending g then branch_target g else pc g + 4)"
    "ret \<noteq> 0 \<Longrightarrow> pc g' = pc g"
    by (auto simp: inst_contract_def keeps_def g' pc_step_def)
qed

interpretation cpu: stepper "step_instruction h" "\<lambda>g. reg g R0 = 0" for h :: "'w host"
  by unfold_locales (rule step_contract(3))

interpretation cpu_log: stepper "step_instruction h" "\<lambda>g. log_on g = b" for h :: "'w host" and b
  by unfold_locales (simp add: step_contract(2))

interpretation cpu_loop: driver "step_instruction h" for h :: "'w host"
  by unfold_locales (rule step_contract(1))

end
