(* ===== verification/Control.thy ===== *)
theory Control
  imports Cpu
begin

text \<open>
  Control flow: which instructions transfer control and where to, as a specification separate from
  the instruction groups, the proof that the executed instruction schedules exactly that branch,
  and what the branch-delay pipeline and the execution loop make of it.
\<close>

section \<open>The specification\<close>

text \<open>
  The target of the branch or jump \<open>i\<close> when it is taken in state \<open>g\<close>. A REGIMM selector that is
  none of the four known ones is tested like bltz. jalr reads its target register after it has
  written the link, which shows when both are the same register.
\<close>

definition relative_target :: "u32 \<Rightarrow> 'w machine \<Rightarrow> u32" where
  "relative_target i g = word_of_int (uint (pc g) + 4 + 4 * sint (imm16 i))"

definition region_target :: "u32 \<Rightarrow> 'w machine \<Rightarrow> u32" where
  "region_target i g = (pc g AND 0xF0000000) OR push_bit 2 (target26 i)"

definition condition_holds :: "u32 \<Rightarrow> 'w machine \<Rightarrow> bool" where
  "condition_holds i g =
    (let s = sint (reg g (rs i)) in
     if op i = OP_BEQ then reg g (rs i) = reg g (rt i)
     else if op i = OP_BNE then reg g (rs i) \<noteq> reg g (rt i)
     else if op i = OP_BGTZ then 0 < s
     else if op i = OP_BLEZ then s \<le> 0
     else if op i = OP_REGIMM then (if rt i \<in> {RT_BGEZ, RT_BGEZAL} then 0 \<le> s else s < 0)
     else op i = OP_COP1 \<and> rs i = FMT_BC1 \<and> fp_cond g = (if bit i 16 then 1 else 0))"

definition control_target :: "u32 \<Rightarrow> 'w machine \<Rightarrow> u32 option" where
  "control_target i g =
    (if op i = OP_SPECIAL \<and> funct i = FN_JR then Some (reg g (rs i))
     else if op i = OP_SPECIAL \<and> funct i = FN_JALR
     then Some (if rd i = rs i then pc g + 8 else reg g (rs i))
     else if op i = OP_J \<or> op i = OP_JAL then Some (region_target i g)
     else if condition_holds i g then Some (relative_target i g)
     else None)"

section \<open>The instruction groups meet it\<close>

text \<open>From a state with no branch pending: a branch is pending exactly when there is a target.\<close>

definition branches_to :: "u32 option \<Rightarrow> 'w machine \<Rightarrow> bool" where
  "branches_to t g \<longleftrightarrow> branch_pending g = (t \<noteq> None) \<and> (t \<noteq> None \<longrightarrow> branch_target g = the t)"

lemma branches_to_simps [simp]:
  "branches_to t (set_reg n v g) = branches_to t g"
  "branches_to (Some d) (schedule_branch d g)"
  "branches_to None g \<longleftrightarrow> \<not> branch_pending g"
  by (auto simp: branches_to_def)

text \<open>What a status other than "go on" leaves is not constrained.\<close>

definition transfers :: "u32 option \<Rightarrow> (int \<times> 'w machine) result \<Rightarrow> bool" where
  "transfers t r \<longleftrightarrow> on_ok (\<lambda>(ret, g'). ret = 0 \<longrightarrow> branches_to t g') r"

lemma transfers_simps [simp]:
  "transfers t (Inl u)" "transfers t (Inr (ret, g)) \<longleftrightarrow> (ret = 0 \<longrightarrow> branches_to t g)"
  by (simp_all add: transfers_def)

lemma transfers_finish [simp]:
  "transfers t (finish g None)" "transfers t (finish_r0 g None)"
  "transfers t (finish g (Some r)) \<longleftrightarrow> on_ok (branches_to t) r"
  "transfers t (finish_r0 g (Some r)) \<longleftrightarrow> on_ok (branches_to t) r"
  by (cases r; simp add: finish_def finish_r0_def)+

lemma finish_cases:
  assumes "\<And>c. c \<in> set cs \<Longrightarrow> k = fst c \<Longrightarrow> transfers t (finish g (snd c))"
  shows "transfers t (finish g (switch k cs None))"
  by (rule switch_cases [of cs k "\<lambda>r. transfers t (finish g r)"]) (auto intro: assms)

lemma finish_r0_cases:
  assumes "\<And>c. c \<in> set cs \<Longrightarrow> k = fst c \<Longrightarrow> transfers t (finish_r0 g (snd c))"
  shows "transfers t (finish_r0 g (switch k cs None))"
  by (rule switch_cases [of cs k "\<lambda>r. transfers t (finish_r0 g r)"]) (auto intro: assms)

lemma branch_dest_relative: "branch_dest i g = relative_target i g"
proof -
  have "push_bit 2 (simm i) = 4 * (word_of_int (sint (imm16 i)) :: u32)"
    by (simp add: simm_def push_bit_eq_mult)
  then show ?thesis
    by (simp add: branch_dest_def relative_target_def)
qed

text \<open>Nothing but the branches writes the two pipeline fields.\<close>

lemma arith_no_branch [simp]:
  "branch_pending (add_instr i g) = branch_pending g"
  "branch_pending (sub_instr i g) = branch_pending g"
  "branch_pending (addi_instr i g) = branch_pending g"
  "branch_pending (mult_instr i g) = branch_pending g"
  "branch_pending (multu_instr i g) = branch_pending g"
  "branch_pending (divu_instr i g) = branch_pending g"
  "on_ok (\<lambda>g'. branch_pending g' = branch_pending g) (div_instr i g)"
  "branch_pending (set_hilo acc g) = branch_pending g"
  "on_ok (\<lambda>g'. branch_pending g' = branch_pending g) (accumulate x g)"
  "branch_pending (exec_lwl h i g) = branch_pending g"
  "branch_pending (exec_lwr h i g) = branch_pending g"
  "branch_pending (exec_swl h i g) = branch_pending g"
  "branch_pending (exec_swr h i g) = branch_pending g"
  by (simp_all add: add_instr_def sub_instr_def addi_instr_def mult_instr_def multu_instr_def
      divu_instr_def div_instr_def set_hilo_def accumulate_def exec_lwl_def exec_lwr_def
      exec_swl_def exec_swr_def Let_def case_prod_beta)

lemma arith_branches_to [simp]:
  "\<not> branch_pending g \<Longrightarrow> on_ok (branches_to None) (div_instr i g)"
  "\<not> branch_pending g \<Longrightarrow> on_ok (branches_to None) (accumulate x g)"
  using arith_no_branch(7) [of g i] arith_no_branch(9) [of g x] by (auto elim: on_ok_mono)

lemma register_transfers:
  assumes "\<not> branch_pending g" "op i = OP_SPECIAL"
  shows "transfers (control_target i g) (exec_register h i g)"
  unfolding exec_register_def Let_def
  by (rule finish_r0_cases) (use assms in \<open>auto simp: control_target_def condition_holds_def\<close>)

lemma special2_transfers:
  assumes "\<not> branch_pending g" "op i = OP_SPECIAL2"
  shows "transfers (control_target i g) (exec_special2 h i g)"
  unfolding exec_special2_def Let_def
  by (rule finish_r0_cases) (use assms in \<open>auto simp: control_target_def condition_holds_def\<close>)

lemma jump_transfers:
  assumes "\<not> branch_pending g" "op i \<in> {OP_J, OP_JAL}"
  shows "transfers (control_target i g) (exec_jump h i g)"
  unfolding exec_jump_def Let_def
  by (rule finish_cases) (use assms in \<open>auto simp: control_target_def region_target_def\<close>)

lemma regimm_branches:
  assumes "\<not> branch_pending g" "op i = OP_REGIMM"
  shows "branches_to (control_target i g) (exec_regimm i g)"
  using assms by (auto simp: exec_regimm_def Let_def control_target_def condition_holds_def
      branch_dest_relative branch_dest_def [symmetric] relative_target_def)

lemma control_target_branch:
  "op i = OP_BEQ \<Longrightarrow> control_target i g =
     (if reg g (rs i) = reg g (rt i) then Some (relative_target i g) else None)"
  "op i = OP_BNE \<Longrightarrow> control_target i g =
     (if reg g (rs i) \<noteq> reg g (rt i) then Some (relative_target i g) else None)"
  "op i = OP_BGTZ \<Longrightarrow> control_target i g =
     (if 0 < sint (reg g (rs i)) then Some (relative_target i g) else None)"
  "op i = OP_BLEZ \<Longrightarrow> control_target i g =
     (if sint (reg g (rs i)) \<le> 0 then Some (relative_target i g) else None)"
  by (simp_all add: control_target_def condition_holds_def)

lemma control_target_none:
  "op i \<notin> {OP_SPECIAL, OP_REGIMM, OP_COP1, OP_J, OP_JAL, OP_BEQ, OP_BNE, OP_BGTZ, OP_BLEZ} \<Longrightarrow>
    control_target i g = None"
  by (simp add: control_target_def condition_holds_def)

lemma immediate_transfers:
  assumes "\<not> branch_pending g"
    "op i \<notin> {OP_SPECIAL, OP_SPECIAL2, OP_COP1, OP_J, OP_JAL}"
  shows "transfers (control_target i g) (exec_immediate h i g)"
proof (cases "op i = OP_REGIMM")
  case True
  then show ?thesis
    using assms regimm_branches [of g i] by (simp add: exec_immediate_def)
next
  case False
  then show ?thesis
    unfolding exec_immediate_def Let_def
    by (intro finish_r0_cases)
      (use assms False in \<open>auto simp: control_target_branch control_target_none
        branch_dest_relative case_prod_beta\<close>)
qed

lemma fp_frame_transfers [simp]:
  "\<not> branch_pending g \<Longrightarrow> on_ok (fp_frame g) r \<Longrightarrow> on_ok (branches_to None) r"
  by (erule on_ok_mono) (simp add: fp_frame_def)

lemma fp_transfers:
  assumes "\<not> branch_pending g"
  shows "transfers None (fp_single h i g)" "transfers None (fp_double h i g)"
    "transfers None (fp_word h i g)"
  unfolding fp_single_def fp_double_def fp_word_def Let_def
  by (rule finish_cases, use assms in \<open>auto intro!: fp_frame_transfers simp: on_ok_rbindI setf_def setw_def\<close>)+

lemma cop1_transfers:
  assumes "\<not> branch_pending g" "op i = OP_COP1"
  shows "transfers (control_target i g) (exec_cop1 h i g)"
proof (cases "rs i = FMT_BC1")
  case True
  have "drop_bit 16 i AND 1 = of_bool (bit i 16)"
    by (simp add: bit_iff_odd_drop_bit and_one_eq odd_iff_mod_2_eq_one)
  with True assms show ?thesis
    by (simp add: exec_cop1_def control_target_def condition_holds_def branch_dest_relative)
next
  case False
  then have none: "control_target i g = None"
    using assms by (simp add: control_target_def condition_holds_def)
  show ?thesis
    unfolding exec_cop1_def none
    by (rule switch_cases)
      (use assms(1) False in \<open>auto simp: fp_transfers [OF assms(1)] branches_to_def\<close>)
qed

lemma cop1_ldst_transfers:
  assumes "\<not> branch_pending g" "op i \<in> {OP_LWC1, OP_LDC1, OP_SWC1, OP_SDC1}"
  shows "transfers (control_target i g) (exec_cop1_ldst h i g)"
proof -
  have "control_target i g = None" using assms(2) by (auto simp: control_target_none)
  then show ?thesis
    unfolding exec_cop1_ldst_def Let_def
    by (intro finish_cases) (use assms(1) in \<open>auto simp: case_prod_beta\<close>)
qed

section \<open>One instruction\<close>

lemma exec_decoded_transfers:
  assumes "\<not> branch_pending g"
  shows "transfers (control_target i g) (exec_decoded h i g)"
proof -
  have sys: "transfers None (rbind (call_syscall h g) (\<lambda>(r, g'). Inr (if r \<noteq> 0 then 2 else 0, g')))"
    unfolding transfers_def on_ok_rbind
    by (rule on_ok_mono [OF call_syscall_keeps]) (use assms in \<open>auto simp: call_keeps_def\<close>)
  have none: "control_target i g = None" if "op i = OP_SPECIAL" "funct i \<notin> {FN_JR, FN_JALR}"
    using that by (simp add: control_target_def condition_holds_def)
  have routed: "transfers (control_target i g) (switch (op i)
      [(OP_SPECIAL, exec_register h i g), (OP_SPECIAL2, exec_special2 h i g),
       (OP_COP1, exec_cop1 h i g), (OP_LWC1, exec_cop1_ldst h i g),
       (OP_LDC1, exec_cop1_ldst h i g), (OP_SWC1, exec_cop1_ldst h i g),
       (OP_SDC1, exec_cop1_ldst h i g), (OP_J, exec_jump h i g), (OP_JAL, exec_jump h i g)]
      (exec_immediate h i g))"
    by (rule switch_cases)
      (use assms in \<open>auto intro: register_transfers special2_transfers cop1_transfers
        cop1_ldst_transfers jump_transfers immediate_transfers\<close>)
  have zero: "op 0 = OP_SPECIAL" "funct 0 = FN_SLL" by (simp_all add: field_defs)
  show ?thesis
    unfolding exec_decoded_def using sys routed assms none zero by auto
qed

lemma control_target_put [simp]: "control_target i (put_stderr s g) = control_target i g"
  unfolding control_target_def condition_holds_def relative_target_def region_target_def put_simps
  by (rule refl)

lemma exec_inst_transfers:
  assumes "\<not> branch_pending g"
  shows "transfers (control_target i g) (exec_inst h i g)"
proof (cases "log_on g")
  case True
  define g0 where "g0 = log_instr i ''cpu.c'' 291 g"
  have "\<not> branch_pending g0" "control_target i g0 = control_target i g"
    using assms unfolding g0_def log_instr_def by simp_all
  then show ?thesis
    using True exec_decoded_transfers [of g0 i h] by (simp add: exec_inst_def g0_def)
qed (simp add: exec_inst_def exec_decoded_transfers assms)

section \<open>The delay slot\<close>

text \<open>One step from a state with no branch pending.\<close>

lemma step_branches:
  assumes "\<not> branch_pending g" and "step_instruction h g = Inr (0, g')"
  shows "pc g' = pc g + 4 \<and> branches_to (control_target (fetch g) g) g'"
proof -
  have same: "g\<lparr>branch_pending := False\<rparr> = g" using assms(1) by simp
  obtain g1 where e: "exec_inst h (fetch g) g = Inr (0, g1)" and g': "g' = pc_step 4 g1"
    using assms unfolding step_instruction_def Let_def same
    by (auto simp: rbind_Inr_iff split: if_splits)
  have "branches_to (control_target (fetch g) g) g1"
    using exec_inst_transfers [OF assms(1), of "fetch g" h] e by simp
  then show ?thesis
    using step_contract(4) [OF assms(2)] assms(1) g' by (simp add: branches_to_def pc_step_def)
qed

text \<open>A program that never returns: a beq to itself at 0, with a nop in its delay slot.\<close>

definition spin :: "unit machine" where
  "spin = zero_machine\<lparr>memory := (\<lambda>_. 0)(0 := 0xFF, 1 := 0xFF, 3 := 0x10)\<rparr>"

lemma spin_step:
  "step_instruction quiet_host spin
     = Inr (0, spin\<lparr>pc := 4, branch_pending := True, branch_target := 0\<rparr>)"
  "step_instruction quiet_host (spin\<lparr>pc := 4, branch_pending := True, branch_target := 0\<rparr>)
     = Inr (0, spin)"
  by (simp_all add: spin_def zero_machine_def step_instruction_def fetch_def le_word_def
      exec_inst_def exec_decoded_def exec_immediate_def finish_r0_def field_defs
      schedule_branch_def branch_dest_def set_reg_def pc_step_def fun_eq_iff mask_eq_exp_minus_1)

text \<open>
  C2: two steps from a state with no branch pending. The first always leaves \<open>pc\<close> at the next
  word; the second, the delay slot, is executed there and leaves \<open>pc\<close> at the target the
  specification gives for the first instruction, or at the word after when there is none.
\<close>

theorem branch_after_delay_slot:
  assumes "\<not> branch_pending g"
    and "step_instruction h g = Inr (0, g1)" and "step_instruction h g1 = Inr (0, g2)"
  shows "pc g1 = pc g + 4
    \<and> pc g2 = (case control_target (fetch g) g of Some t \<Rightarrow> t | None \<Rightarrow> pc g + 8)"
  using step_branches [OF assms(1,2)] step_contract(4) [OF assms(3)]
  by (auto simp: branches_to_def split: option.split)

lemma branch_after_delay_slot_witness:
  "pc spin = (case control_target (fetch spin) spin of Some t \<Rightarrow> t | None \<Rightarrow> pc spin + 8)"
  using branch_after_delay_slot [OF _ spin_step] by (simp add: spin_def zero_machine_def)

section \<open>Links\<close>

text \<open>The register a call writes its return address to, the word after the delay slot.\<close>

definition link_register :: "u32 \<Rightarrow> u8 option" where
  "link_register i =
    (if op i = OP_JAL then Some RA
     else if op i = OP_SPECIAL \<and> funct i = FN_JALR then Some (rd i)
     else if op i = OP_REGIMM \<and> rt i \<in> {RT_BLTZAL, RT_BGEZAL} then Some RA
     else None)"

lemma exec_decoded_links:
  assumes "link_register i = Some r" "reg g R0 = 0"
  shows "\<exists>g'. exec_decoded h i g = Inr (0, g') \<and> reg g' = (reg g)(r := pc g + 8, R0 := 0)"
proof -
  have zero: "op 0 = OP_SPECIAL" "funct 0 = FN_SLL" by (simp_all add: field_defs)
  have i: "i \<noteq> 0" using assms(1) zero by (auto simp: link_register_def split: if_splits)
  consider (jal) "op i = OP_JAL" "r = RA"
    | (jalr) "op i = OP_SPECIAL" "funct i = FN_JALR" "r = rd i"
    | (regimm) "op i = OP_REGIMM" "rt i \<in> {RT_BLTZAL, RT_BGEZAL}" "r = RA"
    using assms(1) by (auto simp: link_register_def split: if_splits)
  then show ?thesis
  proof cases
    case jal
    with i assms(2) show ?thesis
      by (simp add: exec_decoded_def exec_jump_def finish_def fun_eq_iff)
  next
    case jalr
    with i show ?thesis
      by (simp add: exec_decoded_def exec_register_def finish_r0_def Let_def)
  next
    case regimm
    with i show ?thesis
      by (auto simp: exec_decoded_def exec_immediate_def exec_regimm_def finish_r0_def Let_def)
  qed
qed

text \<open>
  A call (jal, jalr, bltzal, bgezal, the last two whether taken or not) never fails, writes the
  address after its delay slot to the link register and changes no other register.
\<close>

lemma calls_link:
  assumes "link_register i = Some r" and "reg g R0 = 0"
  shows "\<exists>g'. exec_inst h i g = Inr (0, g') \<and> reg g' = (reg g)(r := pc g + 8, R0 := 0)"
proof (cases "log_on g")
  case True
  have "reg (log_instr i ''cpu.c'' 291 g) = reg g" "pc (log_instr i ''cpu.c'' 291 g) = pc g"
    unfolding log_instr_def by simp_all
  then show ?thesis
    using True exec_decoded_links [OF assms(1), of "log_instr i ''cpu.c'' 291 g" h] assms(2)
    by (simp add: exec_inst_def)
qed (use exec_decoded_links [OF assms] in \<open>simp add: exec_inst_def\<close>)

lemma calls_link_witness:
  "\<exists>g'. exec_inst quiet_host 0x0C000010 zero_machine = Inr (0, g') \<and> reg g' RA = 8"
  using calls_link [of "0x0C000010" RA zero_machine quiet_host]
  by (auto simp: link_register_def field_defs zero_machine_def)

section \<open>The loop\<close>

text \<open>
  C9: \<open>execute\<close> returns exactly what the first step that does not go on makes of the state reached
  before it, and fails to return exactly when every number of steps can be made.
\<close>

theorem execute_runs_steps:
  "(execute h g = Some r \<longleftrightarrow>
      (\<exists>n g'. steps (step_instruction h) n g = Some g' \<and> stops (step_instruction h g') = Some r))
   \<and> (execute h g = None \<longleftrightarrow> (\<forall>n. \<exists>g'. steps (step_instruction h) n g = Some g'))"
  by (simp add: execute_def cpu_loop.loop_iff cpu_loop.loop_forever_iff)

end
