(* ===== verification/Arith.thy ===== *)
theory Arith
  imports Cpu
begin

text \<open>
  What the integer arithmetic computes: the overflow report of add, sub and addi, the 64-bit
  products, truncated division, the MIPS32 accumulators and the leading-bit counts.
\<close>

section \<open>Lemmas on words\<close>

lemma fits_signed_32: "fits_signed 32 x \<longleftrightarrow> - (2 ^ 31) \<le> x \<and> x < 2 ^ 31"
  by (simp add: fits_signed_def)

lemma sint_of_int_32: "fits_signed 32 x \<Longrightarrow> sint (word_of_int x :: u32) = x"
  by (simp add: fits_signed_def sint_sbintrunc' signed_take_bit_int_eq_self)

lemma sint_of_int_64: "fits_signed 64 x \<Longrightarrow> sint (word_of_int x :: u64) = x"
  by (simp add: fits_signed_def sint_sbintrunc' signed_take_bit_int_eq_self)

lemma sint_eq_0: "sint (w :: u32) = 0 \<longleftrightarrow> w = 0"
  by (rule signed_eq_0_iff)

lemma sint_range_32: "- (2 ^ 31) \<le> sint (w :: u32)" "sint (w :: u32) < 2 ^ 31"
  using sint_greater_eq [of w] sint_less [of w] by simp_all

lemma hilo_join: "push_bit 32 (ucast (ucast (drop_bit 32 w) :: u32)) OR ucast (ucast w :: u32) = (w :: u64)"
  by (rule bit_word_eqI) (auto simp: bit_simps)

lemma hilo_join_signed:
  "push_bit 32 (ucast (ucast (signed_drop_bit 32 w) :: u32)) OR ucast (ucast w :: u32) = (w :: u64)"
  by (rule bit_word_eqI) (auto simp: bit_simps min_def)

section \<open>Signed addition and subtraction\<close>

text \<open>
  What an instruction that reports overflow does with the exact result \<open>x\<close> and the destination
  \<open>d\<close>: only \<open>d\<close> and \<open>$k0\<close> may change; when \<open>x\<close> fits, \<open>d\<close> holds it and \<open>$k0\<close> is 0 (unless \<open>d\<close> is
  \<open>$k0\<close> itself); when it does not, \<open>$k0\<close> is 1 and \<open>d\<close> keeps its value.
\<close>

definition overflow_spec :: "u8 \<Rightarrow> int \<Rightarrow> 'w machine \<Rightarrow> 'w machine \<Rightarrow> bool" where
  "overflow_spec d x g g' \<longleftrightarrow>
     (if - (2 ^ 31) \<le> x \<and> x < 2 ^ 31
      then sint (reg g' d) = x \<and> (d \<noteq> K0 \<longrightarrow> reg g' K0 = 0)
        \<and> (\<forall>r. r \<noteq> d \<and> r \<noteq> K0 \<longrightarrow> reg g' r = reg g r)
      else reg g' K0 = 1 \<and> (\<forall>r. r \<noteq> K0 \<longrightarrow> reg g' r = reg g r))
     \<and> g'\<lparr>reg := reg g\<rparr> = g"

lemma overflow_specI:
  "overflow_spec d x g (if \<not> fits_signed 32 x then set_reg K0 1 g
     else set_reg d (word_of_int x) (set_reg K0 0 g))"
  using sint_of_int_32 [of x]
  by (auto simp: overflow_spec_def fits_signed_32 set_reg_def)

text \<open>
  C28: add, sub and addi compute the exact signed result into the destination with \<open>$k0 = 0\<close>, or, when it
  does not fit 32 bits, set \<open>$k0 = 1\<close> and leave the destination unchanged.
\<close>

theorem signed_overflow_reported:
  "overflow_spec (rd i) (sint (reg g (rs i)) + sint (reg g (rt i))) g (add_instr i g)
   \<and> overflow_spec (rd i) (sint (reg g (rs i)) - sint (reg g (rt i))) g (sub_instr i g)
   \<and> overflow_spec (rt i) (sint (reg g (rs i)) + sint (imm16 i)) g (addi_instr i g)"
  unfolding add_instr_def sub_instr_def addi_instr_def Let_def sreg_def
  by (intro conjI overflow_specI)

section \<open>Products\<close>

lemma product_fits:
  "fits_signed 64 (sint (a :: u32) * sint (b :: u32))"
proof -
  have "\<bar>sint a\<bar> \<le> 2 ^ 31" "\<bar>sint b\<bar> \<le> 2 ^ 31"
    using sint_range_32 [of a] sint_range_32 [of b] by auto
  then have "\<bar>sint a\<bar> * \<bar>sint b\<bar> \<le> 2 ^ 31 * 2 ^ 31"
    by (intro mult_mono) auto
  then have "\<bar>sint a * sint b\<bar> \<le> 2 ^ 62" by (simp add: abs_mult)
  then show ?thesis unfolding fits_signed_def by (simp add: abs_le_iff)
qed

lemma unsigned_product: "uint (ucast a * ucast b :: u64) = uint (a :: u32) * uint (b :: u32)"
proof -
  have "uint a < 2 ^ 32" "uint b < 2 ^ 32" using uint_lt2p [of a] uint_lt2p [of b] by simp_all
  then have "uint a * uint b < 2 ^ 32 * 2 ^ 32"
    by (intro mult_strict_mono) auto
  moreover have "uint (ucast a :: u64) = uint a" "uint (ucast b :: u64) = uint b"
    by (simp_all add: uint_up_ucast is_up)
  ultimately show ?thesis by (simp add: uint_word_ariths)
qed

text \<open>
  Mult and multu leave the whole 64-bit product, signed or unsigned, in HI and LO, and change nothing
  else.
\<close>

lemma products_exact:
  "sint (acc_u64 (mult_instr i g)) = sint (reg g (rs i)) * sint (reg g (rt i))
   \<and> uint (acc_u64 (multu_instr i g)) = uint (reg g (rs i)) * uint (reg g (rt i))
   \<and> (mult_instr i g)\<lparr>hi := hi g, lo := lo g\<rparr> = g
   \<and> (multu_instr i g)\<lparr>hi := hi g, lo := lo g\<rparr> = g"
  by (simp add: acc_u64_def mult_instr_def multu_instr_def Let_def sreg_def hilo_join
      hilo_join_signed sint_of_int_64 product_fits unsigned_product del: of_int_mult)

section \<open>Division\<close>

text \<open>\<open>q\<close> and \<open>r\<close> are the truncated quotient and remainder of \<open>a\<close> by \<open>b\<close>.\<close>

definition truncated_division :: "int \<Rightarrow> int \<Rightarrow> int \<Rightarrow> int \<Rightarrow> bool" where
  "truncated_division a b q r \<longleftrightarrow>
     a = q * b + r \<and> \<bar>r\<bar> < \<bar>b\<bar> \<and> (r = 0 \<or> sgn r = sgn a)"

lemma truncated_division_sdiv:
  assumes "b \<noteq> 0"
  shows "truncated_division a b (a sdiv b) (a smod b)"
proof -
  have "a smod b = 0 \<or> sgn (a smod b) = sgn a"
  proof -
    define m where "m = \<bar>a\<bar> mod \<bar>b\<bar>"
    have "0 \<le> m" using assms by (simp add: m_def)
    moreover have "a smod b = sgn a * m" by (simp add: smod_int_alt_def m_def)
    ultimately show ?thesis by (cases "m = 0") (simp_all add: sgn_mult)
  qed
  moreover have "\<bar>a smod b\<bar> < \<bar>b\<bar>"
    using smod_int_range [OF assms, of a] by auto
  ultimately show ?thesis
    by (simp add: truncated_division_def sdiv_mult_smod_eq)
qed

lemma sdiv_fits:
  fixes s t :: u32
  shows "fits_signed 32 (sint s sdiv sint t) \<longleftrightarrow> \<not> (sint s = - (2 ^ 31) \<and> sint t = -1)"
proof
  assume "fits_signed 32 (sint s sdiv sint t)"
  then show "\<not> (sint s = - (2 ^ 31) \<and> sint t = -1)"
    by (auto simp: fits_signed_def)
next
  assume not: "\<not> (sint s = - (2 ^ 31) \<and> sint t = -1)"
  have range: "sint s sdiv sint t \<in> {- \<bar>sint s\<bar>..\<bar>sint s\<bar>}" by (rule sdiv_int_range)
  have "sint s sdiv sint t \<noteq> 2 ^ 31"
  proof
    assume eq: "sint s sdiv sint t = 2 ^ 31"
    then have "sint s = - (2 ^ 31)" using range sint_range_32 [of s] by auto
    then have "sint s sdiv sint t = - sint s" "sint s \<noteq> 0" using eq by simp_all
    then have "sint t = -1" by simp
    with not \<open>sint s = - (2 ^ 31)\<close> show False by simp
  qed
  then show "fits_signed 32 (sint s sdiv sint t)"
    using range sint_range_32 [of s] by (auto simp: fits_signed_def)
qed

lemma smod_fits:
  fixes s t :: u32
  assumes "sint t \<noteq> 0"
  shows "fits_signed 32 (sint s smod sint t)"
  using smod_int_range [OF assms, of "sint s"] sint_range_32 [of t] by (auto simp: fits_signed_def)

text \<open>
  C20: div by zero leaves the machine unchanged; \<open>INT_MIN / -1\<close> is undefined behaviour of the
  emulator (a signed division that overflows), where MIPS defines no trap; every other division
  leaves the truncated quotient in LO and the remainder in HI. divu is the unsigned division.
\<close>

theorem division_correct:
  "(reg g (rt i) = 0 \<longrightarrow> div_instr i g = Inr g \<and> divu_instr i g = g)
   \<and> (div_instr i g = Inl Division_overflow
        \<longleftrightarrow> sint (reg g (rs i)) = - (2 ^ 31) \<and> sint (reg g (rt i)) = -1)
   \<and> (\<forall>g'. div_instr i g = Inr g' \<and> reg g (rt i) \<noteq> 0 \<longrightarrow>
        truncated_division (sint (reg g (rs i))) (sint (reg g (rt i))) (sint (lo g')) (sint (hi g'))
        \<and> g'\<lparr>hi := hi g, lo := lo g\<rparr> = g)
   \<and> (reg g (rt i) \<noteq> 0 \<longrightarrow>
        uint (reg g (rs i)) = uint (lo (divu_instr i g)) * uint (reg g (rt i)) + uint (hi (divu_instr i g))
        \<and> uint (hi (divu_instr i g)) < uint (reg g (rt i)))"
proof (intro conjI allI impI)
  show "div_instr i g = Inl Division_overflow
        \<longleftrightarrow> sint (reg g (rs i)) = - (2 ^ 31) \<and> sint (reg g (rt i)) = -1"
    by (auto simp: div_instr_def Let_def sreg_def sdiv_fits)
next
  fix g' assume g': "div_instr i g = Inr g' \<and> reg g (rt i) \<noteq> 0"
  then have "sint (reg g (rt i)) \<noteq> 0" by (simp add: sint_eq_0)
  with g' show "truncated_division (sint (reg g (rs i))) (sint (reg g (rt i))) (sint (lo g')) (sint (hi g'))"
    using truncated_division_sdiv [of "sint (reg g (rt i))" "sint (reg g (rs i))"]
      smod_fits [of "reg g (rt i)" "reg g (rs i)"]
    by (auto simp: div_instr_def Let_def sreg_def sint_of_int_32 split: if_splits)
  show "g'\<lparr>hi := hi g, lo := lo g\<rparr> = g"
    using g' by (auto simp: div_instr_def Let_def sreg_def sint_eq_0 split: if_splits)
next
  assume nz: "reg g (rt i) \<noteq> 0"
  then show "uint (reg g (rs i)) =
      uint (lo (divu_instr i g)) * uint (reg g (rt i)) + uint (hi (divu_instr i g))"
    by (simp add: divu_instr_def Let_def uint_div uint_mod)
  show "uint (hi (divu_instr i g)) < uint (reg g (rt i))"
    using nz by (simp add: divu_instr_def Let_def uint_mod word_less_def word_neq_0_conv)
qed (simp_all add: div_instr_def divu_instr_def Let_def sreg_def)

lemma division_correct_witness:
  "\<exists>g'. div_instr 0x0085001A (zero_machine\<lparr>reg := (\<lambda>_. 0)(4 := -7, 5 := 2)\<rparr>) = Inr g'
     \<and> truncated_division (-7) 2 (sint (lo g')) (sint (hi g'))"
  using division_correct [of "zero_machine\<lparr>reg := (\<lambda>_. 0)(4 := -7, 5 := 2)\<rparr>" "0x0085001A"]
  by (simp add: div_instr_def field_defs sreg_def fits_signed_def)

section \<open>Multiply and accumulate\<close>

lemma acc_set_hilo [simp]: "acc_u64 (set_hilo x g) = x"
  by (simp add: acc_u64_def set_hilo_def hilo_join)

text \<open>
  \<open>g'\<close> is \<open>g\<close> but for the accumulator HI:LO (and register 0, which every instruction of these groups
  clears).
\<close>

definition only_hilo :: "'w machine \<Rightarrow> 'w machine \<Rightarrow> bool" where
  "only_hilo g g' \<longleftrightarrow> g'\<lparr>hi := hi g, lo := lo g\<rparr> = set_reg R0 0 g"

lemma only_hilo_set [simp]: "only_hilo g (set_reg R0 0 (set_hilo x g))"
  by (simp add: only_hilo_def set_hilo_def set_reg_def)

lemma acc_set_reg [simp]: "acc_u64 (set_reg n v g) = acc_u64 g"
  by (simp add: acc_u64_def)

text \<open>What a signed accumulator instruction must do with the exact new value \<open>x\<close>.\<close>

definition accumulates ::
  "int \<Rightarrow> 'w machine \<Rightarrow> (int \<times> 'w machine) result \<Rightarrow> bool" where
  "accumulates x g r \<longleftrightarrow>
     (if - (2 ^ 63) \<le> x \<and> x < 2 ^ 63
      then on_ok (\<lambda>(ret, g'). ret = 0 \<and> sint (acc_u64 g') = x \<and> only_hilo g g') r \<and> defined r
      else r = Inl Signed_overflow)"

text \<open>The same for an unsigned one, whose accumulator wraps.\<close>

definition accumulates_mod ::
  "int \<Rightarrow> 'w machine \<Rightarrow> (int \<times> 'w machine) result \<Rightarrow> bool" where
  "accumulates_mod x g r \<longleftrightarrow>
     on_ok (\<lambda>(ret, g'). ret = 0 \<and> uint (acc_u64 g') = x mod 2 ^ 64 \<and> only_hilo g g') r \<and> defined r"

lemma accumulate_accumulates: "accumulates x g (finish_r0 g (Some (accumulate x g)))"
proof -
  have fits: "fits_signed 64 x \<longleftrightarrow> - (2 ^ 63) \<le> x \<and> x < 2 ^ 63"
    by (simp add: fits_signed_def)
  then show ?thesis
    using sint_of_int_64 [of x] by (simp add: accumulates_def accumulate_def finish_r0_def)
qed

lemma accumulator_sum:
  fixes a b :: u32 and acc :: u64
  shows "uint (acc + ucast a * ucast b) = (uint acc + uint a * uint b) mod 2 ^ 64"
    "uint (acc - ucast a * ucast b) = (uint acc - uint a * uint b) mod 2 ^ 64"
  by (simp_all only: uint_word_ariths(1,2)
      unsigned_product) simp_all

lemma set_hilo_accumulates:
  "uint y = x mod 2 ^ 64 \<Longrightarrow> accumulates_mod x g (finish_r0 g (Some (Inr (set_hilo y g))))"
  by (simp add: accumulates_mod_def finish_r0_def)

text \<open>
  Madd and msub leave the exact sum or difference of the accumulator and the signed product, and are
  undefined exactly when it does not fit 64 bits; maddu and msubu leave it modulo 2^64.
\<close>

lemma multiply_accumulate:
  assumes "sp = sint (reg g (rs i)) * sint (reg g (rt i))"
    and "up = uint (reg g (rs i)) * uint (reg g (rt i))"
  shows "(funct i = FN2_MADD \<longrightarrow> accumulates (sint (acc_u64 g) + sp) g (exec_special2 h i g))
    \<and> (funct i = FN2_MSUB \<longrightarrow> accumulates (sint (acc_u64 g) - sp) g (exec_special2 h i g))
    \<and> (funct i = FN2_MADDU \<longrightarrow> accumulates_mod (uint (acc_u64 g) + up) g (exec_special2 h i g))
    \<and> (funct i = FN2_MSUBU \<longrightarrow> accumulates_mod (uint (acc_u64 g) - up) g (exec_special2 h i g))"
proof (intro conjI impI)
  assume "funct i = FN2_MADD"
  then show "accumulates (sint (acc_u64 g) + sp) g (exec_special2 h i g)"
    by (simp add: exec_special2_def acc_s64_def accumulate_accumulates assms)
next
  assume "funct i = FN2_MSUB"
  then show "accumulates (sint (acc_u64 g) - sp) g (exec_special2 h i g)"
    by (simp add: exec_special2_def acc_s64_def accumulate_accumulates assms)
next
  assume "funct i = FN2_MADDU"
  then show "accumulates_mod (uint (acc_u64 g) + up) g (exec_special2 h i g)"
    by (simp add: exec_special2_def assms set_hilo_accumulates accumulator_sum)
next
  assume "funct i = FN2_MSUBU"
  then show "accumulates_mod (uint (acc_u64 g) - up) g (exec_special2 h i g)"
    by (simp add: exec_special2_def assms set_hilo_accumulates accumulator_sum)
qed

text \<open>
  C25: the multiplications. Mult and multu leave the exact 64-bit product, signed or unsigned, in HI and
  LO; mul writes the signed product to rd, and is undefined exactly when it does not fit 32 bits; madd and
  msub leave the exact sum or difference of the accumulator and the signed product, and are undefined
  exactly when it does not fit 64 bits; maddu and msubu leave it modulo 2^64. Nothing else changes.
\<close>

theorem multiplications_exact:
  assumes "sp = sint (reg g (rs i)) * sint (reg g (rt i))"
    and "up = uint (reg g (rs i)) * uint (reg g (rt i))"
  shows "sint (acc_u64 (mult_instr i g)) = sp \<and> (mult_instr i g)\<lparr>hi := hi g, lo := lo g\<rparr> = g
    \<and> uint (acc_u64 (multu_instr i g)) = up \<and> (multu_instr i g)\<lparr>hi := hi g, lo := lo g\<rparr> = g
    \<and> (funct i = FN2_MUL \<longrightarrow> exec_special2 h i g =
        (if int32_min \<le> sp \<and> sp \<le> int32_max then Inr (0, set_reg R0 0 (set_reg (rd i) (word_of_int sp) g))
         else Inl Signed_overflow))
    \<and> (funct i = FN2_MADD \<longrightarrow> accumulates (sint (acc_u64 g) + sp) g (exec_special2 h i g))
    \<and> (funct i = FN2_MSUB \<longrightarrow> accumulates (sint (acc_u64 g) - sp) g (exec_special2 h i g))
    \<and> (funct i = FN2_MADDU \<longrightarrow> accumulates_mod (uint (acc_u64 g) + up) g (exec_special2 h i g))
    \<and> (funct i = FN2_MSUBU \<longrightarrow> accumulates_mod (uint (acc_u64 g) - up) g (exec_special2 h i g))"
proof -
  have "exec_special2 h i g =
      (if int32_min \<le> sp \<and> sp \<le> int32_max then Inr (0, set_reg R0 0 (set_reg (rd i) (word_of_int sp) g))
       else Inl Signed_overflow)" if "funct i = FN2_MUL"
    using that by (auto simp: exec_special2_def finish_r0_def assms(1) fits_signed_def simp del: of_int_mult)
  then show ?thesis
    using products_exact [of i g] multiply_accumulate [OF assms, of h] unfolding assms by blast
qed

lemma multiplications_exact_witness:
  "accumulates (- 7 * 2) (zero_machine\<lparr>reg := (\<lambda>_. 0)(4 := -7, 5 := 2)\<rparr>)
     (exec_special2 quiet_host 0x70850000 (zero_machine\<lparr>reg := (\<lambda>_. 0)(4 := -7, 5 := 2)\<rparr>))"
  using multiplications_exact [of "-14" "zero_machine\<lparr>reg := (\<lambda>_. 0)(4 := -7, 5 := 2)\<rparr>" "0x70850000" _ quiet_host]
  by (simp add: field_defs acc_u64_def zero_machine_def)

section \<open>Leading bits\<close>

lemma top_bit: "v AND 0x80000000 = (0 :: u32) \<longleftrightarrow> \<not> bit v 31"
proof -
  have "v AND 0x80000000 = v AND push_bit 31 1" by simp
  also have "\<dots> = 0 \<longleftrightarrow> \<not> bit v 31"
    by (simp add: bit_iff_and_push_bit_not_eq_0)
  finally show ?thesis .
qed

lemma bit_shl1: "bit (v * 2 :: u32) k \<longleftrightarrow> k < 32 \<and> k \<noteq> 0 \<and> bit v (k - 1)"
proof -
  have "v * 2 = push_bit 1 v" by (simp add: push_bit_eq_mult)
  then show ?thesis by (simp only: bit_push_bit_iff) auto
qed

text \<open>The loop at \<open>n\<close> has seen \<open>n\<close> leading zeros of the original value \<open>v0 = v / 2 ^ n\<close>.\<close>

lemma clz_loop_spec:
  assumes "n \<le> 32" and "v = push_bit n v0" and "\<And>k. 32 - n \<le> k \<Longrightarrow> \<not> bit v0 k"
  shows "clz_loop v n \<le> 32 \<and> (\<forall>k. 32 - clz_loop v n \<le> k \<longrightarrow> \<not> bit v0 k)
    \<and> (clz_loop v n < 32 \<longrightarrow> bit v0 (31 - clz_loop v n))"
  using assms
proof (induction v n rule: clz_loop.induct)
  case (1 v n)
  have b31: "bit v 31 \<longleftrightarrow> bit v0 (31 - n)" if "n < 32"
    using that by (simp add: "1.prems"(2) bit_push_bit_iff)
  show ?case
  proof (cases "n < 32 \<and> v AND 0x80000000 = 0")
    case True
    then have "\<not> bit v0 (31 - n)" using b31 top_bit by blast
    then have "\<not> bit v0 k" if "32 - Suc n \<le> k" for k
      using "1.prems"(3) [of k] that by (cases "k = 31 - n") auto
    moreover have "push_bit 1 v = push_bit (Suc n) v0"
      by (simp add: "1.prems"(2) push_bit_push_bit)
    ultimately show ?thesis
      using "1.IH" [OF True] True by (simp add: clz_loop.simps [of v n])
  next
    case False
    then have e: "clz_loop v n = n" by (simp only: clz_loop.simps [of v n] if_False)
    have "bit v0 (31 - n)" if "n < 32" using False that b31 top_bit by blast
    then show ?thesis using "1.prems" e by simp
  qed
qed

text \<open>\<open>n\<close> is the number of leading bits of \<open>v\<close> that have the value \<open>b\<close>.\<close>

definition leading_bits :: "bool \<Rightarrow> u32 \<Rightarrow> nat \<Rightarrow> bool" where
  "leading_bits b v n \<longleftrightarrow> n \<le> 32 \<and> (\<forall>k. 32 - n \<le> k \<and> k < 32 \<longrightarrow> bit v k = b)
     \<and> (n < 32 \<longrightarrow> bit v (31 - n) \<noteq> b)"

lemma clz_leading: "leading_bits False v (clz_loop v 0)"
proof -
  have "\<not> bit v k" if "32 \<le> k" for k using that bit_imp_le_length [of v k] by auto
  then show ?thesis
    using clz_loop_spec [of 0 v v] by (auto simp: leading_bits_def)
qed

text \<open>The clo loop on \<open>v\<close> is the clz loop on its complement, but for the zeros shifted in.\<close>

lemma clo_loop_clz:
  assumes "n \<le> 32" and "\<And>k. n \<le> k \<Longrightarrow> k < 32 \<Longrightarrow> bit w k = (\<not> bit v k)"
    and "\<And>k. k < n \<Longrightarrow> \<not> bit w k" and "\<And>k. k < n \<Longrightarrow> \<not> bit v k"
  shows "clo_loop v n = clz_loop w n"
  using assms
proof (induction v n arbitrary: w rule: clo_loop.induct)
  case (1 v n)
  show ?case
  proof (cases "n < 32 \<and> v AND 0x80000000 \<noteq> 0")
    case True
    then have "bit v 31" using top_bit by blast
    then have w: "w AND 0x80000000 = 0"
      using True "1.prems"(2) [of 31] top_bit by simp
    have "clo_loop (push_bit 1 v) (Suc n) = clz_loop (push_bit 1 w) (Suc n)"
      by (rule "1.IH" [OF True]) (use True "1.prems" in \<open>auto simp: bit_shl1\<close>)
    then show ?thesis
      using True w by (simp add: clo_loop.simps [of v n] clz_loop.simps [of w n])
  next
    case False
    then have "\<not> (n < 32 \<and> w AND 0x80000000 = 0)"
      using "1.prems"(2) [of 31] top_bit by auto
    then show ?thesis
      using False by (simp only: clo_loop.simps [of v n] clz_loop.simps [of w n] if_False)
  qed
qed

lemma clo_leading: "leading_bits True v (clo_loop v 0)"
proof -
  have "clo_loop v 0 = clz_loop (NOT v) 0"
    by (rule clo_loop_clz) (auto simp: bit_not_iff)
  then show ?thesis
    using clz_leading [of "NOT v"] by (auto simp: leading_bits_def bit_not_iff)
qed

text \<open>Clz and clo leave the number of leading zeros or ones of rs in rd.\<close>

lemma leading_bits_counted:
  assumes "exec_special2 h i g = Inr (ret, g')" and "rd i \<noteq> R0"
  shows "(funct i = FN2_CLZ \<longrightarrow> leading_bits False (reg g (rs i)) (unat (reg g' (rd i))))
    \<and> (funct i = FN2_CLO \<longrightarrow> leading_bits True (reg g (rs i)) (unat (reg g' (rd i))))"
proof -
  have small: "unat (of_nat n :: u32) = n" if "leading_bits b v n" for b v n
    using that by (simp add: leading_bits_def unat_of_nat)
  show ?thesis
    using assms clz_leading [of "reg g (rs i)"] clo_leading [of "reg g (rs i)"]
    by (auto simp: exec_special2_def finish_r0_def small)
qed

lemma leading_bits_counted_witness:
  "\<exists>g'. exec_special2 quiet_host 0x70804020 (zero_machine\<lparr>reg := (\<lambda>_. 0)(4 := 0x1234)\<rparr>) = Inr (0, g')
     \<and> leading_bits False 0x1234 (unat (reg g' 8))"
  using leading_bits_counted [of quiet_host "0x70804020" "zero_machine\<lparr>reg := (\<lambda>_. 0)(4 := 0x1234)\<rparr>" 0]
  by (simp add: exec_special2_def finish_r0_def field_defs)

end
