(* ===== verification/Safety.thy ===== *)
theory Safety
  imports Control Arith
begin

text \<open>
  What the interpreter never changes, and what it does with the instruction words the architecture
  reserves.
\<close>

section \<open>Invariants of a run\<close>

text \<open>
  C18: register 0 reads as zero and the log flag keeps its value in every state a run reaches, after
  errors and clean stops too.
\<close>

theorem register_zero_stays:
  assumes "reaches (step_instruction h) g g'" and "reg g R0 = 0"
  shows "reg g' R0 = 0 \<and> log_on g' = log_on g"
  using cpu.reaches_inv [OF assms] cpu_log.reaches_inv [OF assms(1), of "log_on g"] by simp

lemma register_zero_stays_witness:
  "reg (spin\<lparr>pc := 4, branch_pending := True, branch_target := 0\<rparr>) R0 = 0"
proof -
  have "reaches (step_instruction quiet_host) spin
      (spin\<lparr>pc := 4, branch_pending := True, branch_target := 0\<rparr>)"
    by (rule reaches.next_step, rule reaches.start, rule spin_step(1))
  from register_zero_stays [OF this] show ?thesis by (simp add: spin_def zero_machine_def)
qed

section \<open>Reserved instruction words\<close>

text \<open>The interpreter refuses the word; the disassembler prints a text that starts with "unknown".\<close>

definition rejects :: "(int \<times> 'w machine) result \<Rightarrow> bool" where
  "rejects r \<longleftrightarrow> (case r of Inl u \<Rightarrow> False | Inr (ret, g) \<Rightarrow> ret = 1)"

definition says_unknown :: "string \<Rightarrow> bool" where
  "says_unknown s \<longleftrightarrow> take 7 s = ''unknown''"

lemma rejects_simps [simp]:
  "\<not> rejects (Inl u)" "rejects (Inr (ret, g)) \<longleftrightarrow> ret = 1"
  "rejects (finish g None)" "rejects (finish_r0 g None)"
  "\<not> rejects (finish g (Some r))" "\<not> rejects (finish_r0 g (Some r))"
  by (cases r; simp add: rejects_def finish_def finish_r0_def)+

lemma known_mnemonics:
  "s \<noteq> [] \<Longrightarrow> hd s \<noteq> CHR ''u'' \<Longrightarrow> \<not> says_unknown (snprintf 64 s)"
  by (cases s) (simp_all add: says_unknown_def snprintf_def)

lemma known_formats:
  assumes "m \<noteq> []" "hd m \<noteq> CHR ''u''"
  shows "\<not> says_unknown (r3 64 m i)" "\<not> says_unknown (rshift 64 m i)"
    "\<not> says_unknown (rshiftv 64 m i)" "\<not> says_unknown (one_reg 64 m r)"
    "\<not> says_unknown (two_regs 64 m r s)" "\<not> says_unknown (reg_offset 64 m i)"
    "\<not> says_unknown (regs_offset 64 m i)" "\<not> says_unknown (i3s 64 m i)"
    "\<not> says_unknown (i3x 64 m i)" "\<not> says_unknown (mem 64 m i)" "\<not> says_unknown (fmem 64 m i)"
  unfolding r3_def rshift_def rshiftv_def one_reg_def two_regs_def reg_offset_def regs_offset_def
    i3s_def i3x_def mem_def fmem_def
  using assms by (simp_all add: known_mnemonics hd_append)

lemma unknown_text: "says_unknown (snprintf 64 (''unknown'' @ s))"
  by (simp add: says_unknown_def snprintf_def)

text \<open>Which codes each group knows.\<close>

lemma rejects_register:
  "rejects (exec_register h i g) \<and> funct i \<notin> {FN_SYSCALL, FN_BREAK}
    \<longleftrightarrow> says_unknown (disasm_special 64 i)"
proof -
  have "rejects (exec_register h i g) \<longleftrightarrow> funct i \<notin> {FN_ADD, FN_SUB, FN_ADDU, FN_SUBU, FN_MULT,
      FN_MULTU, FN_DIV, FN_DIVU, FN_AND, FN_OR, FN_XOR, FN_NOR, FN_SLT, FN_SLTU, FN_SLL, FN_SRL,
      FN_SRA, FN_SLLV, FN_SRLV, FN_SRAV, FN_MFHI, FN_MFLO, FN_MTHI, FN_MTLO, FN_MOVZ, FN_MOVN,
      FN_JR, FN_JALR}"
    unfolding exec_register_def Let_def
    by (subst switch_iff_default [where P = "\<lambda>r. rejects (finish_r0 g r)"]) simp_all
  moreover have "says_unknown (disasm_special 64 i) \<longleftrightarrow> funct i \<notin> {FN_ADD, FN_ADDU, FN_SUB,
      FN_SUBU, FN_AND, FN_OR, FN_XOR, FN_NOR, FN_SLT, FN_SLTU, FN_MOVZ, FN_MOVN, FN_SLL, FN_SRL,
      FN_SRA, FN_SLLV, FN_SRLV, FN_SRAV, FN_MULT, FN_MULTU, FN_DIV, FN_DIVU, FN_MFHI, FN_MFLO,
      FN_MTHI, FN_MTLO, FN_JR, FN_JALR, FN_SYSCALL, FN_BREAK}"
    unfolding disasm_special_def
    by (subst switch_iff_default [where P = says_unknown])
      (simp_all add: known_formats known_mnemonics unknown_text [simplified])
  ultimately show ?thesis by auto
qed

lemma rejects_special2: "rejects (exec_special2 h i g) \<longleftrightarrow> says_unknown (disasm_special2 64 i)"
  unfolding exec_special2_def disasm_special2_def Let_def
  by (subst switch_iff_default [where P = "\<lambda>r. rejects (finish_r0 g r)"], simp, simp,
      subst switch_iff_default [where P = says_unknown])
    (auto simp: known_formats unknown_text [simplified])

lemma rejects_immediate:
  assumes "op i \<noteq> OP_REGIMM"
  shows "rejects (exec_immediate h i g) \<longleftrightarrow> says_unknown (disasm_immediate 64 i)"
  unfolding exec_immediate_def disasm_immediate_def Let_def
  by (subst switch_iff_default [where P = "\<lambda>r. rejects (finish_r0 g r)"], simp, simp,
      subst switch_iff_default [where P = says_unknown])
    (use assms in \<open>auto simp: known_formats known_mnemonics unknown_text [simplified]\<close>)

lemma rejects_decoded:
  assumes "op i \<noteq> OP_REGIMM" "op i \<noteq> OP_COP1"
  shows "rejects (exec_decoded h i g) \<longleftrightarrow> says_unknown (disassemble i 64)"
proof (cases "op i = OP_SPECIAL")
  case True
  have "\<not> rejects (rbind r (\<lambda>(r, g'). Inr (if r \<noteq> 0 then 2 else 0, g')))"
    for r :: "(int \<times> 'a machine) result"
    by (cases r) (auto split: if_splits)
  moreover have "funct 0 = FN_SLL" by (simp add: field_defs)
  moreover have "\<not> says_unknown (snprintf 64 ''nop'')" by (simp add: known_mnemonics)
  ultimately show ?thesis
    using True rejects_register [of h i g] by (auto simp: exec_decoded_def disassemble_def)
next
  case False
  then have i: "i \<noteq> 0" by (auto simp: field_defs)
  consider "op i = OP_SPECIAL2" | "op i \<in> {OP_LWC1, OP_LDC1, OP_SWC1, OP_SDC1}"
    | "op i \<in> {OP_J, OP_JAL}"
    | (imm) "op i \<notin> {OP_SPECIAL2, OP_LWC1, OP_LDC1, OP_SWC1, OP_SDC1, OP_J, OP_JAL}" by blast
  then show ?thesis
  proof cases
    case imm
    with False assms i show ?thesis
      by (simp add: exec_decoded_def disassemble_def rejects_immediate)
  qed (use i in \<open>auto simp: exec_decoded_def disassemble_def rejects_special2 exec_cop1_ldst_def
      exec_jump_def Let_def known_formats known_mnemonics\<close>)
qed

lemma decoder_agrees_with_disassembler:
  assumes "op i \<noteq> OP_REGIMM" "op i \<noteq> OP_COP1"
  shows "rejects (exec_inst h i g) \<longleftrightarrow> says_unknown (disassemble i 64)"
  by (simp add: exec_inst_def rejects_decoded assms)

lemma regimm_decoded:
  assumes "op i = OP_REGIMM"
  shows "exec_decoded h i g = Inr (0, set_reg R0 0 (exec_regimm i g))"
proof -
  have "i \<noteq> 0" using assms by (auto simp: field_defs)
  with assms show ?thesis
    by (simp add: exec_decoded_def exec_immediate_def finish_r0_def)
qed

text \<open>
  The interpreter refuses no REGIMM selector, and executes the 28 reserved ones exactly as bltz, where the
  disassembler calls them unknown.
\<close>

lemma reserved_regimm_runs_as_bltz:
  assumes "op i = OP_REGIMM"
  shows "(says_unknown (disassemble i 64) \<longleftrightarrow> rt i \<notin> {RT_BLTZ, RT_BGEZ, RT_BLTZAL, RT_BGEZAL})
    \<and> \<not> rejects (exec_decoded h i g)
    \<and> (rt i \<notin> {RT_BLTZ, RT_BGEZ, RT_BLTZAL, RT_BGEZAL} \<longrightarrow>
        exec_decoded h i g = exec_decoded h (enc_i OP_REGIMM (rs i) RT_BLTZ (imm16 i)) g)"
proof (intro conjI impI)
  show "says_unknown (disassemble i 64) \<longleftrightarrow> rt i \<notin> {RT_BLTZ, RT_BGEZ, RT_BLTZAL, RT_BGEZAL}"
  proof -
    have "i \<noteq> 0" using assms by (auto simp: field_defs)
    then have "disassemble i 64 = disasm_regimm 64 i" using assms by (simp add: disassemble_def)
    then show ?thesis
      unfolding disasm_regimm_def
      by (simp only:) (subst switch_iff_default [where P = says_unknown],
        auto simp: known_formats unknown_text [simplified])
  qed
next
  assume rt: "rt i \<notin> {RT_BLTZ, RT_BGEZ, RT_BLTZAL, RT_BGEZAL}"
  define j where "j = enc_i OP_REGIMM (rs i) RT_BLTZ (imm16 i)"
  have f: "op j = OP_REGIMM" "rs j = rs i" "rt j = RT_BLTZ" "imm16 j = imm16 i"
    unfolding j_def using enc_i_decode [of OP_REGIMM "rs i" RT_BLTZ "imm16 i"]
    by (simp_all add: register_fields_less)
  then have "exec_regimm j g = exec_regimm i g"
    using rt by (simp add: exec_regimm_def branch_dest_def simm_def Let_def)
  then show "exec_decoded h i g = exec_decoded h j g"
    using regimm_decoded assms f(1) by metis
qed (simp add: regimm_decoded assms)

text \<open>The floating-point words the interpreter executes; the disassembler prints every one as known.\<close>

definition cop1_known :: "u32 \<Rightarrow> bool" where
  "cop1_known i \<longleftrightarrow> rs i \<in> {FMT_MFC1, FMT_MTC1, FMT_BC1}
     \<or> rs i = FMT_S \<and> funct i \<in> {0x00, 0x01, 0x02, 0x03, 0x04, 0x05, 0x06, 0x07, 0x21, 0x24, 0x32, 0x3c, 0x3e}
     \<or> rs i = FMT_D \<and> funct i \<in> {0x00, 0x01, 0x02, 0x03, 0x04, 0x05, 0x06, 0x07, 0x20, 0x24, 0x32, 0x3c, 0x3e}
     \<or> rs i = FMT_W \<and> funct i \<in> {0x20, 0x21}"

lemma rejects_formats:
  "rejects (fp_single h i g) \<longleftrightarrow>
     funct i \<notin> {0x00, 0x01, 0x02, 0x03, 0x04, 0x05, 0x06, 0x07, 0x21, 0x24, 0x32, 0x3c, 0x3e}"
  "rejects (fp_double h i g) \<longleftrightarrow>
     funct i \<notin> {0x00, 0x01, 0x02, 0x03, 0x04, 0x05, 0x06, 0x07, 0x20, 0x24, 0x32, 0x3c, 0x3e}"
  "rejects (fp_word h i g) \<longleftrightarrow> funct i \<notin> {0x20, 0x21}"
  unfolding fp_single_def fp_double_def fp_word_def Let_def
  by (subst switch_iff_default [where P = "\<lambda>r. rejects (finish g r)"], simp, simp, simp)+

lemma rejects_cop1: "rejects (exec_cop1 h i g) \<longleftrightarrow> \<not> cop1_known i"
  unfolding exec_cop1_def Let_def
  by (rule switch_labels [where P = "\<lambda>r. rejects r \<longleftrightarrow> _"], unfold list.pred_inject fst_conv snd_conv;
    (intro conjI impI TrueI)?; simp add: cop1_known_def rejects_formats)

lemma cop1_text: "\<not> says_unknown (disasm_cop1 64 i)"
  unfolding disasm_cop1_def Let_def fp3_def fp2_def fpc_def
  by (auto intro!: switch_rule [where P = "\<lambda>s. \<not> says_unknown s"] simp: known_mnemonics)

text \<open>
  C24: the decoder against the disassembler, over all instruction words. Outside REGIMM and COP1 the
  interpreter refuses a word exactly when the disassembler calls it unknown, in every state. In REGIMM it
  refuses none and executes the 28 reserved selectors as bltz, where the disassembler calls them unknown;
  in COP1 it refuses what the table lacks (such as the arithmetic of format W), and the disassembler
  calls nothing unknown.
\<close>

theorem decoder_and_disassembler:
  "(op i \<notin> {OP_REGIMM, OP_COP1} \<longrightarrow> (rejects (exec_inst h i g) \<longleftrightarrow> says_unknown (disassemble i 64)))
   \<and> (op i = OP_REGIMM \<longrightarrow> \<not> rejects (exec_inst h i g)
       \<and> (says_unknown (disassemble i 64) \<longleftrightarrow> rt i \<notin> {RT_BLTZ, RT_BGEZ, RT_BLTZAL, RT_BGEZAL})
       \<and> (rt i \<notin> {RT_BLTZ, RT_BGEZ, RT_BLTZAL, RT_BGEZAL} \<longrightarrow>
           exec_decoded h i g = exec_decoded h (enc_i OP_REGIMM (rs i) RT_BLTZ (imm16 i)) g))
   \<and> (op i = OP_COP1 \<longrightarrow> (rejects (exec_inst h i g) \<longleftrightarrow> \<not> cop1_known i) \<and> \<not> says_unknown (disassemble i 64))"
proof (intro conjI impI)
  assume "op i = OP_COP1"
  moreover from this have "i \<noteq> 0" by (auto simp: field_defs)
  ultimately show "rejects (exec_inst h i g) \<longleftrightarrow> \<not> cop1_known i" "\<not> says_unknown (disassemble i 64)"
    by (simp_all add: exec_inst_def exec_decoded_def rejects_cop1 disassemble_def cop1_text)
next
  assume regimm: "op i = OP_REGIMM"
  then show "\<not> rejects (exec_inst h i g)" by (simp add: exec_inst_def regimm_decoded)
qed (use decoder_agrees_with_disassembler [of i h g] reserved_regimm_runs_as_bltz [of i h g] in \<open>simp_all\<close>)

text \<open>A reserved selector, and \<open>add.w $f0, $f0, $f0\<close>, which is printed but refused.\<close>

lemma decoder_and_disassembler_witness:
  "exec_decoded quiet_host 0x04830008 zero_machine
     = exec_decoded quiet_host (enc_i OP_REGIMM 4 RT_BLTZ 8) zero_machine
   \<and> rejects (exec_inst quiet_host 0x46800000 zero_machine) \<and> \<not> says_unknown (disassemble 0x46800000 64)"
  using decoder_and_disassembler [of "0x04830008" quiet_host zero_machine]
    decoder_and_disassembler [of "0x46800000" quiet_host zero_machine]
  by (simp add: field_defs cop1_known_def)

end
