(* ===== verification/Rounding.thy ===== *)
theory Rounding
  imports Complex_Main Ieee754
begin

text \<open>
  Rounding to nearest even, stated on real numbers, and the proof that \<open>fp_round\<close> meets it, also on
  values of which only the bits above a sticky bit are known.
\<close>

section \<open>The value of a number\<close>

definition fp_val :: "fp \<Rightarrow> real" where
  "fp_val v = (case v of Fin s m e \<Rightarrow> (if s then - 1 else 1) * real m * 2 powi e | _ \<Rightarrow> 0)"

definition fp_finite :: "fp \<Rightarrow> bool" where
  "fp_finite v \<longleftrightarrow> (case v of Fin s m e \<Rightarrow> True | _ \<Rightarrow> False)"

fun fp_sign :: "fp \<Rightarrow> bool" where
  "fp_sign (Fin s m e) = s"
| "fp_sign (Inf s) = s"
| "fp_sign NaN = False"

text \<open>The numbers of a format: a significand of \<open>t + 1\<close> bits and an exponent in its range.\<close>

definition in_format :: "nat \<Rightarrow> nat \<Rightarrow> real \<Rightarrow> bool" where
  "in_format w t y \<longleftrightarrow> (\<exists>k q. \<bar>y\<bar> = real k * 2 powi q \<and> k < 2 ^ Suc t
     \<and> fp_emin w t \<le> q \<and> q + int t \<le> fp_bias w)"

text \<open>From half a unit in the last place above the largest number on, a value is rounded to infinity.\<close>

definition overflow_from :: "nat \<Rightarrow> nat \<Rightarrow> real" where
  "overflow_from w t = (2 ^ (t + 2) - 1) * 2 powi (fp_bias w - int t - 1)"

text \<open>
  \<open>rounds_to w t s x v\<close>: \<open>v\<close> is the correctly rounded \<open>x\<close>, where a zero \<open>x\<close> has the sign \<open>s\<close>. A finite
  \<open>v\<close> is in the format and normalised, no number of the format is nearer to \<open>x\<close>, and when another one
  is as near, the significand of \<open>v\<close> is even.
\<close>

definition rounds_to :: "nat \<Rightarrow> nat \<Rightarrow> bool \<Rightarrow> real \<Rightarrow> fp \<Rightarrow> bool" where
  "rounds_to w t s x v \<longleftrightarrow>
     (case v of
        NaN \<Rightarrow> False
      | Inf s' \<Rightarrow> overflow_from w t \<le> \<bar>x\<bar> \<and> s' = (x < 0)
      | Fin s' k q \<Rightarrow> \<bar>x\<bar> < overflow_from w t \<and> s' = (if x = 0 then s else x < 0)
          \<and> k < 2 ^ Suc t \<and> fp_emin w t \<le> q \<and> q + int t \<le> fp_bias w
          \<and> (2 ^ t \<le> k \<or> q = fp_emin w t)
          \<and> (\<forall>y. in_format w t y \<longrightarrow> \<bar>fp_val v - x\<bar> \<le> \<bar>y - x\<bar>)
          \<and> (\<forall>y. in_format w t y \<longrightarrow> y \<noteq> fp_val v \<longrightarrow> \<bar>y - x\<bar> = \<bar>fp_val v - x\<bar> \<longrightarrow> even k))"

section \<open>The nearest multiple\<close>

text \<open>\<open>k * 2 ^ q\<close> is a nearest multiple of \<open>2 ^ q\<close> to \<open>x\<close>, the even one of two.\<close>

definition nearest :: "real \<Rightarrow> nat \<Rightarrow> int \<Rightarrow> bool" where
  "nearest x k q \<longleftrightarrow> (2 * real k - 1) * 2 powi (q - 1) \<le> x \<and> x \<le> (2 * real k + 1) * 2 powi (q - 1)
     \<and> (x = (2 * real k - 1) * 2 powi (q - 1) \<or> x = (2 * real k + 1) * 2 powi (q - 1) \<longrightarrow> even k)"

lemma powi_half: "(2 :: real) powi q = 2 * 2 powi (q - 1)"
  using power_int_add [of "2 :: real" 1 "q - 1"] by simp

lemma powi_nat_diff: "q \<le> e \<Longrightarrow> (2 :: real) powi e = 2 ^ nat (e - q) * 2 powi q"
  using power_int_add [of "2 :: real" "e - q" q] by (simp add: power_int_def)

lemma nearest_multiple:
  assumes "nearest x k q"
  shows "\<bar>real k * 2 powi q - x\<bar> \<le> \<bar>real_of_int i * 2 powi q - x\<bar>"
    and "i \<noteq> int k \<Longrightarrow> \<bar>real_of_int i * 2 powi q - x\<bar> = \<bar>real k * 2 powi q - x\<bar> \<Longrightarrow> even k"
proof -
  define u where "u = (2 :: real) powi (q - 1)"
  have u: "0 < u" "(2 :: real) powi q = 2 * u" by (simp_all add: u_def powi_half [of q])
  have x: "(2 * real k - 1) * u \<le> x" "x \<le> (2 * real k + 1) * u"
    "x = (2 * real k - 1) * u \<or> x = (2 * real k + 1) * u \<Longrightarrow> even k"
    using assms by (auto simp: nearest_def u_def)
  have near: "\<bar>2 * real k * u - x\<bar> \<le> u" using x(1,2) by (simp add: algebra_simps abs_le_iff)
  consider "i = int k" | "i \<le> int k - 1" | "int k + 1 \<le> i" by linarith
  then have "\<bar>real k * 2 powi q - x\<bar> \<le> \<bar>real_of_int i * 2 powi q - x\<bar>
      \<and> (i \<noteq> int k \<longrightarrow> \<bar>real_of_int i * 2 powi q - x\<bar> = \<bar>real k * 2 powi q - x\<bar> \<longrightarrow> even k)"
  proof cases
    case 2
    then have "real_of_int i \<le> real k - 1" by linarith
    then have "real_of_int i * u \<le> (real k - 1) * u" using u(1) by (simp add: mult_le_cancel_right)
    then have far: "u \<le> x - 2 * (real_of_int i * u)" using x(1) by (simp add: algebra_simps)
    have "even k" if "\<bar>2 * (real_of_int i * u) - x\<bar> = \<bar>2 * (real k * u) - x\<bar>"
      using that far near \<open>real_of_int i * u \<le> (real k - 1) * u\<close> x(1,2) u(1)
      by (intro x(3)) (auto simp: algebra_simps abs_if split: if_splits)
    with far near show ?thesis by (simp add: u(2) mult.left_commute mult.assoc)
  next
    case 3
    then have "real k + 1 \<le> real_of_int i" by linarith
    then have "(real k + 1) * u \<le> real_of_int i * u" using u(1) by (simp add: mult_le_cancel_right)
    then have far: "u \<le> 2 * (real_of_int i * u) - x" using x(2) by (simp add: algebra_simps)
    have "even k" if "\<bar>2 * (real_of_int i * u) - x\<bar> = \<bar>2 * (real k * u) - x\<bar>"
      using that far near \<open>(real k + 1) * u \<le> real_of_int i * u\<close> x(1,2) u(1)
      by (intro x(3)) (auto simp: algebra_simps abs_if split: if_splits)
    with far near show ?thesis by (simp add: u(2) mult.left_commute mult.assoc)
  qed simp
  then show "\<bar>real k * 2 powi q - x\<bar> \<le> \<bar>real_of_int i * 2 powi q - x\<bar>"
    "i \<noteq> int k \<Longrightarrow> \<bar>real_of_int i * 2 powi q - x\<bar> = \<bar>real k * 2 powi q - x\<bar> \<Longrightarrow> even k"
    by blast+
qed

text \<open>
  Above \<open>2 ^ t\<close> units in the last place, or at the least exponent, no number of the format is nearer
  than the nearest multiple.
\<close>

lemma nearest_optimal:
  assumes "nearest x k q" "in_format w t y"
    and "q = fp_emin w t \<or> 2 ^ t * 2 powi q \<le> x"
  shows "\<bar>real k * 2 powi q - x\<bar> \<le> \<bar>y - x\<bar>"
    and "y \<noteq> real k * 2 powi q \<Longrightarrow> \<bar>y - x\<bar> = \<bar>real k * 2 powi q - x\<bar> \<Longrightarrow> even k"
proof -
  obtain j p where y: "\<bar>y\<bar> = real j * 2 powi p" "j < 2 ^ Suc t" "fp_emin w t \<le> p"
    using assms(2) unfolding in_format_def by blast
  have "\<bar>real k * 2 powi q - x\<bar> \<le> \<bar>y - x\<bar>
      \<and> (y \<noteq> real k * 2 powi q \<longrightarrow> \<bar>y - x\<bar> = \<bar>real k * 2 powi q - x\<bar> \<longrightarrow> even k)"
  proof (cases "q \<le> p")
    case True
    define i where "i = (if y < 0 then - 1 else 1) * (int j * 2 ^ nat (p - q))"
    have "y = real_of_int i * 2 powi q"
      using y(1) powi_nat_diff [OF True] by (cases "y < 0") (simp_all add: i_def)
    with nearest_multiple [OF assms(1), of i] show ?thesis by auto
  next
    case False
    then have c: "2 ^ t * 2 powi q \<le> x" using assms(3) y(3) by auto
    have "real j < 2 ^ Suc t" using y(2) by (metis of_nat_less_iff of_nat_numeral of_nat_power)
    then have "\<bar>y\<bar> < 2 ^ Suc t * 2 powi p" unfolding y(1) by (rule mult_strict_right_mono) simp
    also have "\<dots> \<le> 2 ^ Suc t * 2 powi (q - 1)"
      using False by (intro mult_left_mono power_int_increasing) simp_all
    also have "\<dots> = 2 ^ t * 2 powi q" using powi_half [of q] by simp
    finally have "\<bar>2 ^ t * 2 powi q - x\<bar> < \<bar>y - x\<bar>" using c by linarith
    moreover have "\<bar>real k * 2 powi q - x\<bar> \<le> \<bar>2 ^ t * 2 powi q - x\<bar>"
      using nearest_multiple(1) [OF assms(1), of "2 ^ t"] by simp
    ultimately show ?thesis by linarith
  qed
  then show "\<bar>real k * 2 powi q - x\<bar> \<le> \<bar>y - x\<bar>"
    "y \<noteq> real k * 2 powi q \<Longrightarrow> \<bar>y - x\<bar> = \<bar>real k * 2 powi q - x\<bar> \<Longrightarrow> even k" by blast+
qed

section \<open>The integer computation\<close>

lemma nearest_offset:
  fixes P :: real and q :: int
  defines "u \<equiv> (2 :: real) powi (q - 1)"
  shows "nearest (2 * real k * u + P) k q \<longleftrightarrow> - u \<le> P \<and> P \<le> u \<and> (P = - u \<or> P = u \<longrightarrow> even k)"
    and "nearest (2 * real k * u + P) (Suc k) q \<longleftrightarrow> u \<le> P \<and> P \<le> 3 * u \<and> (P = u \<or> P = 3 * u \<longrightarrow> odd k)"
  by (auto simp: nearest_def algebra_simps simp flip: u_def)

lemma round_at_nearest: "nearest (real m * 2 powi e) (round_at m e q) q"
proof (cases "q \<le> e")
  case True
  have "real m * 2 powi e = 2 * real (round_at m e q) * 2 powi (q - 1)"
    using True powi_nat_diff [OF True] powi_half [of q] by (simp add: round_at_def)
  then show ?thesis by (simp add: nearest_def algebra_simps)
next
  case False
  define d k r where "d = (2 :: nat) ^ nat (q - e)" and "k = m div d" and "r = m mod d"
  define v where "v = (2 :: real) powi e"
  have v: "0 < v" by (simp add: v_def)
  have half: "2 * 2 powi (q - 1) = real d * v"
    using False powi_nat_diff [of e q] powi_half [of q] by (simp add: d_def v_def)
  have m: "real m = real k * real d + real r"
    unfolding k_def r_def by (simp flip: of_nat_mult of_nat_add)
  have x: "real m * 2 powi e = 2 * real k * 2 powi (q - 1) + real r * v"
    unfolding m using half by (simp add: v_def algebra_simps)
  have r: "round_at m e q = (if 2 * r < d \<or> 2 * r = d \<and> even k then k else Suc k)" "r < d"
    using False by (simp_all add: round_at_def Let_def d_def k_def r_def)
  have lt: "real a * v < real b * v \<longleftrightarrow> a < b" for a b using v by simp
  have double: "2 * (real r * v) = real (2 * r) * v" by simp
  have low: "2 * r < d \<Longrightarrow> 2 * (real r * v) < real d * v" "2 * r = d \<Longrightarrow> 2 * (real r * v) = real d * v"
    "d < 2 * r \<Longrightarrow> real d * v < 2 * (real r * v)" "real r * v < real d * v" "0 \<le> real r * v"
    unfolding double lt using v r(2) by simp_all
  define P u where "P = real r * v" and "u = (2 :: real) powi (q - 1)"
  have x': "real m * 2 powi e = 2 * real k * u + P" by (simp add: x P_def u_def)
  note down = nearest_offset(1) [of k q P, folded u_def] and up = nearest_offset(2) [of k q P, folded u_def]
  have u: "0 < u" "2 * u = real d * v" using half by (simp_all add: u_def)
  note low = low [folded P_def u(2)]
  consider "2 * r < d" | "2 * r = d" | "d < 2 * r" by linarith
  then show ?thesis
  proof cases
    case 1
    then show ?thesis unfolding x' r(1) using low(1,5) u(1) by (simp add: down)
  next
    case 2
    then have "nearest (2 * real k * u + P) k q \<longleftrightarrow> even k"
      "nearest (2 * real k * u + P) (Suc k) q \<longleftrightarrow> odd k"
      unfolding down up using low(2) u(1) by auto
    with 2 show ?thesis unfolding x' r(1) by simp
  next
    case 3
    then show ?thesis unfolding x' r(1) using low(3,4) u(1) by (simp add: up)
  qed
qed

section \<open>Values known up to a cell\<close>

text \<open>\<open>x\<close> and \<open>x'\<close> compare in the same way with every multiple of \<open>2 ^ f\<close>.\<close>

definition same_cell :: "int \<Rightarrow> real \<Rightarrow> real \<Rightarrow> bool" where
  "same_cell f x x' \<longleftrightarrow> (\<forall>i. (real_of_int i * 2 powi f \<le> x \<longleftrightarrow> real_of_int i * 2 powi f \<le> x')
     \<and> (x \<le> real_of_int i * 2 powi f \<longleftrightarrow> x' \<le> real_of_int i * 2 powi f))"

lemma same_cell_refl [simp]: "same_cell f x x"
  by (simp add: same_cell_def)

lemma same_cell_multiple:
  assumes "same_cell f x x'" "f \<le> g"
  shows "real_of_int i * 2 powi g \<le> x \<longleftrightarrow> real_of_int i * 2 powi g \<le> x'"
    and "x \<le> real_of_int i * 2 powi g \<longleftrightarrow> x' \<le> real_of_int i * 2 powi g"
proof -
  have "real_of_int i * 2 powi g = real_of_int (i * 2 ^ nat (g - f)) * 2 powi f"
    using powi_nat_diff [OF assms(2)] by simp
  then show "real_of_int i * 2 powi g \<le> x \<longleftrightarrow> real_of_int i * 2 powi g \<le> x'"
    "x \<le> real_of_int i * 2 powi g \<longleftrightarrow> x' \<le> real_of_int i * 2 powi g"
    using assms(1) unfolding same_cell_def by metis+
qed

lemma nearest_cell:
  assumes "same_cell f x x'" "f \<le> q - 1" "nearest x k q"
  shows "nearest x' k q"
proof -
  note cell = same_cell_multiple [OF assms(1,2)]
  have "(2 * real k - 1) * 2 powi (q - 1) = real_of_int (2 * int k - 1) * 2 powi (q - 1)"
    "(2 * real k + 1) * 2 powi (q - 1) = real_of_int (2 * int k + 1) * 2 powi (q - 1)" by simp_all
  then obtain l u where lu: "l = (2 * real k - 1) * 2 powi (q - 1)" "u = (2 * real k + 1) * 2 powi (q - 1)"
    "l \<le> x \<longleftrightarrow> l \<le> x'" "x \<le> l \<longleftrightarrow> x' \<le> l" "u \<le> x \<longleftrightarrow> u \<le> x'" "x \<le> u \<longleftrightarrow> x' \<le> u"
    using cell by metis
  then have "x = l \<longleftrightarrow> x' = l" "x = u \<longleftrightarrow> x' = u" by auto
  with assms(3) lu show ?thesis unfolding nearest_def by blast
qed

text \<open>The last bit of \<open>2 * n + of_bool b\<close> says whether the value is above \<open>n\<close> units.\<close>

lemma sticky_cell:
  assumes "real n * 2 powi f \<le> x" "x < (real n + 1) * 2 powi f" "b \<longleftrightarrow> x \<noteq> real n * 2 powi f"
  shows "same_cell f (real (2 * n + of_bool b) * 2 powi (f - 1)) x"
proof -
  define u where "u = (2 :: real) powi (f - 1)"
  have u: "0 < u" "(2 :: real) powi f = 2 * u" by (simp_all add: u_def powi_half [of f])
  show ?thesis
  proof (cases b)
    case False
    with assms(3) have "x = real (2 * n + of_bool b) * 2 powi (f - 1)"
      by (simp add: u(2) flip: u_def)
    then show ?thesis by simp
  next
    case True
    then have x: "real n * (2 * u) < x" "x < (real n + 1) * (2 * u)" using assms by (auto simp: u(2))
    have "(real_of_int i * (2 * u) \<le> (2 * real n + 1) * u \<longleftrightarrow> real_of_int i * (2 * u) \<le> x)
        \<and> ((2 * real n + 1) * u \<le> real_of_int i * (2 * u) \<longleftrightarrow> x \<le> real_of_int i * (2 * u))" for i
    proof (cases "i \<le> int n")
      case True
      then have "real_of_int i \<le> real n" by linarith
      then have "real_of_int i * (2 * u) \<le> real n * (2 * u)" using u(1) by (simp add: mult_le_cancel_right)
      moreover have "real n * (2 * u) < (2 * real n + 1) * u" using u(1) by (simp add: algebra_simps)
      ultimately show ?thesis using x(1) by linarith
    next
      case False
      then have "real n + 1 \<le> real_of_int i" by linarith
      then have "(real n + 1) * (2 * u) \<le> real_of_int i * (2 * u)" using u(1) by (simp add: mult_le_cancel_right)
      moreover have "(2 * real n + 1) * u < (real n + 1) * (2 * u)" using u(1) by (simp add: algebra_simps)
      ultimately show ?thesis using x(2) by linarith
    qed
    moreover have "real (2 * n + of_bool b) = 2 * real n + 1" using True by simp
    ultimately show ?thesis unfolding same_cell_def u(2) u_def [symmetric] by presburger
  qed
qed

section \<open>fp_round rounds correctly\<close>

lemma emin_bias: "fp_emin w t + int t = 1 - fp_bias w"
  by (simp add: fp_emin_def)

lemma overflow_from_eq: "overflow_from w t = (2 * 2 ^ Suc t - 1) * 2 powi (fp_bias w - int t - 1)"
  by (simp add: overflow_from_def)

text \<open>
  The significand \<open>k\<close> found at the exponent \<open>q\<close>, for a value of \<open>t + 1\<close> bits or at the least
  exponent.
\<close>

definition position :: "nat \<Rightarrow> nat \<Rightarrow> real \<Rightarrow> int \<Rightarrow> bool" where
  "position w t x q \<longleftrightarrow> fp_emin w t \<le> q \<and> (q = fp_emin w t \<or> 2 ^ t * 2 powi q \<le> x)
     \<and> x < 2 ^ Suc t * 2 powi q"

lemma significand_range:
  assumes "nearest x k q" "position w t x q"
  shows "k \<le> 2 ^ Suc t" "q = fp_emin w t \<or> 2 ^ t \<le> k"
proof -
  define u where "u = (2 :: real) powi (q - 1)"
  have u: "0 < u" "(2 :: real) powi q = 2 * u" by (simp_all add: u_def powi_half [of q])
  have x: "(2 * real k - 1) * u \<le> x" "x \<le> (2 * real k + 1) * u"
    "x < 2 ^ Suc t * (2 * u)" "q = fp_emin w t \<or> 2 ^ t * (2 * u) \<le> x"
    using assms by (simp_all add: nearest_def position_def u flip: u_def)
  have "(2 * real k - 1) * u < (2 * 2 ^ Suc t) * u" using x(1,3) by simp
  then have "2 * real k - 1 < 2 * 2 ^ Suc t" using u(1) by (simp only: mult_less_cancel_right)
  then have "real (2 * k) < real (2 * 2 ^ Suc t + 1)" by simp
  then show "k \<le> 2 ^ Suc t" unfolding of_nat_less_iff by simp
  have "2 ^ t \<le> k" if "2 ^ t * (2 * u) \<le> x"
  proof -
    have "(2 * 2 ^ t) * u \<le> (2 * real k + 1) * u" using that x(2) by simp
    then have "2 * 2 ^ t \<le> 2 * real k + 1" using u(1) by (simp only: mult_le_cancel_right)
    then have "real (2 * 2 ^ t) \<le> real (2 * k + 1)" by simp
    then show ?thesis unfolding of_nat_le_iff by simp
  qed
  with x(4) show "q = fp_emin w t \<or> 2 ^ t \<le> k" by blast
qed

text \<open>
  The result overflows exactly when the value reaches the bound: three cases, as the unit in the last
  place is below that of the largest numbers, the same or above.
\<close>

lemma overflow_below:
  assumes "position w t x q" "q + int t < fp_bias w"
  shows "x < overflow_from w t"
proof -
  define u where "u = (2 :: real) powi (fp_bias w - int t - 1)"
  have u: "0 < u" "overflow_from w t = (2 * 2 ^ Suc t - 1) * u"
    by (simp_all add: u_def overflow_from_eq)
  have one: "(1 :: real) \<le> 2 ^ Suc t" by (rule one_le_power) simp
  have "(2 :: real) powi q \<le> u" using assms(2) unfolding u_def by (intro power_int_increasing) simp_all
  then have "2 ^ Suc t * 2 powi q \<le> 2 ^ Suc t * u" by (rule mult_left_mono) simp
  also have "\<dots> \<le> overflow_from w t" unfolding u(2) using u(1) one by (intro mult_right_mono) linarith+
  finally show ?thesis using assms(1) by (simp add: position_def)
qed

lemma overflow_at:
  assumes "nearest x k q" "k \<le> 2 ^ Suc t" "q + int t = fp_bias w"
  shows "k = 2 ^ Suc t \<longleftrightarrow> overflow_from w t \<le> x"
proof -
  define u where "u = (2 :: real) powi (fp_bias w - int t - 1)"
  have u: "0 < u" "overflow_from w t = (2 * 2 ^ Suc t - 1) * u"
    by (simp_all add: u_def overflow_from_eq)
  have q: "q - 1 = fp_bias w - int t - 1" using assms(3) by simp
  have near: "(2 * real k - 1) * u \<le> x" "x \<le> (2 * real k + 1) * u"
    "x = (2 * real k + 1) * u \<longrightarrow> even k"
    using assms(1) by (simp_all add: nearest_def q flip: u_def)
  show ?thesis
  proof (cases "k = 2 ^ Suc t")
    case True
    then have "real k = 2 ^ Suc t" by simp
    with near(1) True show ?thesis by (simp add: u(2) algebra_simps)
  next
    case False
    with assms(2) have "Suc k \<le> 2 ^ Suc t" by simp
    then have "real (Suc k) \<le> real (2 ^ Suc t)" by (rule of_nat_mono)
    then have "2 * real k + 1 \<le> 2 * 2 ^ Suc t - 1" by simp
    then have le: "(2 * real k + 1) * u \<le> overflow_from w t" unfolding u(2) using u(1) by (intro mult_right_mono) simp_all
    have "x \<noteq> overflow_from w t"
    proof
      assume "x = overflow_from w t"
      with near(2) le have eq: "x = (2 * real k + 1) * u" by simp
      with \<open>x = overflow_from w t\<close> have "2 * real k + 1 = 2 * 2 ^ Suc t - 1" using u(1) by (simp add: u(2))
      then have "real (Suc k) = real (2 ^ Suc t)" by simp
      then have "Suc k = 2 ^ Suc t" by (simp only: of_nat_eq_iff)
      then have "even (Suc k)" by (metis dvd_triv_left power_Suc)
      then show False using near(3) eq by simp
    qed
    with near(2) le False show ?thesis by auto
  qed
qed

lemma overflow_above:
  assumes "position w t x q" "2 \<le> w" "fp_bias w < q + int t"
  shows "overflow_from w t \<le> x"
proof -
  define u where "u = (2 :: real) powi (fp_bias w - int t - 1)"
  have u: "0 < u" "overflow_from w t = (2 * 2 ^ Suc t - 1) * u"
    by (simp_all add: u_def overflow_from_eq)
  have "1 \<le> fp_bias w"
    using power_increasing [of 1 "w - 1" "2 :: int"] assms(2) by (simp add: fp_bias_def)
  then have "q \<noteq> fp_emin w t" using assms(3) emin_bias [of w t] by linarith
  then have "2 ^ t * 2 powi q \<le> x" using assms(1) by (simp add: position_def)
  moreover have "4 * u = 2 powi (fp_bias w - int t + 1)"
    using powi_nat_diff [of "fp_bias w - int t - 1" "fp_bias w - int t + 1"] by (simp add: u_def)
  then have "4 * u \<le> 2 powi q" using assms(3) by (simp add: power_int_increasing)
  then have "2 ^ t * (4 * u) \<le> 2 ^ t * 2 powi q" by (rule mult_left_mono) simp
  moreover have "overflow_from w t \<le> 2 ^ t * (4 * u)" using u(1) by (simp add: u(2) algebra_simps)
  ultimately show ?thesis by linarith
qed

lemma overflow_iff:
  assumes "nearest x k q" "position w t x q" "2 \<le> w"
  shows "fp_bias w < q + int t \<or> q + int t = fp_bias w \<and> k = 2 ^ Suc t \<longleftrightarrow> overflow_from w t \<le> x"
  using overflow_below [OF assms(2)] overflow_at [OF assms(1) significand_range(1) [OF assms(1,2)]]
    overflow_above [OF assms(2,3)]
  by (meson not_le not_less_iff_gr_or_eq)

lemma bitlen_bounds: "0 < n \<Longrightarrow> 2 ^ (bitlen n - 1) \<le> n \<and> n < 2 ^ bitlen n \<and> 0 < bitlen n"
proof (induction n rule: less_induct)
  case (less n)
  have step: "bitlen n = Suc (bitlen (n div 2))" using less.prems by (subst bitlen.simps) simp
  show ?case
  proof (cases "n = 1")
    case True
    then have "bitlen n = 1" unfolding step by (simp add: bitlen.simps [of 0])
    with True show ?thesis by simp
  next
    case False
    then have "0 < n div 2" "n div 2 < n" using less.prems by simp_all
    then have IH: "2 ^ (bitlen (n div 2) - 1) \<le> n div 2" "n div 2 < 2 ^ bitlen (n div 2)" "0 < bitlen (n div 2)"
      using less.IH by blast+
    obtain l where l: "bitlen (n div 2) = Suc l" using IH(3) by (cases "bitlen (n div 2)") auto
    have "n = 2 * (n div 2) + n mod 2" "n mod 2 < 2" by simp_all
    moreover have "2 ^ l \<le> n div 2" "n div 2 < 2 * 2 ^ l" using IH(1,2) by (simp_all add: l)
    ultimately have "2 * 2 ^ l \<le> n" "n < 4 * 2 ^ l" by linarith+
    then show ?thesis by (simp add: step l)
  qed
qed

lemma position_of:
  assumes "0 < m" and q: "q = max (fp_emin w t) (e + int (bitlen m) - int t - 1)"
  shows "position w t (real m * 2 powi e) q"
proof -
  define l where "l = bitlen m"
  have m: "2 ^ (l - 1) \<le> m" "m < 2 ^ l" "0 < l" using bitlen_bounds [OF assms(1)] by (simp_all add: l_def)
  have pow: "2 ^ n * 2 powi d = (2 :: real) powi (int n + d)" for n d
    by (simp add: power_int_add)
  have "real (2 ^ (l - 1)) \<le> real m" "real m < real (2 ^ l)" using m(1,2) by (simp_all only: of_nat_le_iff of_nat_less_iff)
  then have "real (2 ^ (l - 1)) * 2 powi e \<le> real m * 2 powi e" "real m * 2 powi e < real (2 ^ l) * 2 powi e"
    by (simp_all only: mult_right_mono zero_le_power_int) simp_all
  then have x: "2 powi (int l - 1 + e) \<le> real m * 2 powi e" "real m * 2 powi e < 2 powi (int l + e)"
    using m(3) by (simp_all add: pow of_nat_diff)
  have "(2 :: real) powi (int l + e) \<le> 2 powi (int (Suc t) + q)"
    by (rule power_int_increasing) (simp_all add: q l_def)
  then have "real m * 2 powi e < 2 ^ Suc t * 2 powi q" unfolding pow using x(2) by linarith
  moreover have "q = fp_emin w t \<or> 2 ^ t * 2 powi q \<le> real m * 2 powi e"
  proof (cases "q = fp_emin w t")
    case False
    then have "int t + q = int l - 1 + e" by (simp add: q l_def max_def split: if_splits)
    with x(1) show ?thesis unfolding pow by simp
  qed simp
  ultimately show ?thesis by (simp add: position_def q)
qed

lemma position_cell:
  assumes "same_cell f x x'" "f \<le> q" "position w t x q"
  shows "position w t x' q"
  using assms(3) same_cell_multiple [OF assms(1,2), of "2 ^ t"]
    same_cell_multiple [OF assms(1,2), of "2 ^ Suc t"]
  by (simp add: position_def not_le [symmetric])

text \<open>The result of \<open>fp_round\<close> on the absolute value.\<close>

lemma rounded_correct:
  assumes "nearest x k q" "position w t x q" "2 \<le> w" "1 \<le> t" "0 < x"
  shows "rounds_to w t s' ((if s then - 1 else 1) * x)
    (let (k', q') = (if k = 2 ^ Suc t then (2 ^ t, q + 1) else (k, q))
     in if fp_bias w < q' + int t then Inf s else Fin s k' q')"
proof -
  define k' q' where "k' = (if k = 2 ^ Suc t then 2 ^ t else k)" and "q' = (if k = 2 ^ Suc t then q + 1 else q)"
  have abs: "\<bar>(if s then - 1 else 1) * x\<bar> = x" "((if s then - 1 else 1) * x < 0) = s"
    "(if s then - 1 else 1) * x \<noteq> 0" using assms(5) by (cases s; simp)+
  have over: "fp_bias w < q' + int t \<longleftrightarrow> overflow_from w t \<le> x"
    using overflow_iff [OF assms(1-3)] by (auto simp: q'_def)
  have same: "real k' * 2 powi q' = real k * 2 powi q"
    by (simp add: k'_def q'_def power_int_add)
  have k: "k \<le> 2 ^ Suc t" "q = fp_emin w t \<or> 2 ^ t \<le> k" using significand_range [OF assms(1,2)] by auto
  have even: "even k \<Longrightarrow> even k'" using assms(4) by (auto simp: k'_def)
  have q: "q = fp_emin w t \<or> 2 ^ t * 2 powi q \<le> x" "fp_emin w t \<le> q"
    using assms(2) by (simp_all add: position_def)
  note best = nearest_optimal [OF assms(1) _ q(1)]
  have val: "fp_val (Fin s k' q') = (if s then - 1 else 1) * (real k * 2 powi q)"
    by (simp add: fp_val_def mult.assoc same)
  have flip: "\<bar>(if s then - 1 else 1) * a - (if s then - 1 else 1) * b\<bar> = \<bar>a - b\<bar>" for a b :: real by auto
  have format: "in_format w t ((if s then - 1 else 1) * y) = in_format w t y" for y by (simp add: in_format_def)
  have all: "(\<forall>y. P y) \<longleftrightarrow> (\<forall>y. P ((if s then - 1 else 1) * y))" for P :: "real \<Rightarrow> bool"
    by (metis (mono_tags) minus_minus mult_1 mult_minus_left)
  have near: "\<forall>y. in_format w t y \<longrightarrow> \<bar>fp_val (Fin s k' q') - (if s then - 1 else 1) * x\<bar> \<le> \<bar>y - (if s then - 1 else 1) * x\<bar>"
    by (subst all, unfold val format flip) (use best(1) in blast)
  have tie: "\<forall>y. in_format w t y \<longrightarrow> y \<noteq> fp_val (Fin s k' q') \<longrightarrow>
      \<bar>y - (if s then - 1 else 1) * x\<bar> = \<bar>fp_val (Fin s k' q') - (if s then - 1 else 1) * x\<bar> \<longrightarrow> even k'"
    by (subst all, unfold val format flip) (use best(2) even in auto)
  have range: "k' < 2 ^ Suc t" "fp_emin w t \<le> q'" "2 ^ t \<le> k' \<or> q' = fp_emin w t"
    using k q(2) by (auto simp: k'_def q'_def)
  have "rounds_to w t s' ((if s then - 1 else 1) * x) (if fp_bias w < q' + int t then Inf s else Fin s k' q')"
  proof (cases "fp_bias w < q' + int t")
    case True
    then show ?thesis using over abs by (simp only: rounds_to_def fp.case if_True)
  next
    case False
    define X where "X = (if s then - 1 else 1) * x"
    have "\<bar>X\<bar> < overflow_from w t" "s = (if X = 0 then s' else X < 0)" "q' + int t \<le> fp_bias w"
      using over abs False by (simp_all add: X_def)
    with range near tie show ?thesis
      unfolding rounds_to_def if_not_P [OF False] fp.case X_def [symmetric] by blast
  qed
  moreover have "(if k = 2 ^ Suc t then (2 ^ t, q + 1) else (k, q)) = (k', q')"
    by (simp add: k'_def q'_def)
  ultimately show ?thesis by (simp only: Let_def prod.case)
qed

text \<open>\<open>fp_round\<close> rounds every value in the cell of the number it is given, below the rounding position.\<close>

lemma fp_round_cell:
  assumes "0 < m" "2 \<le> w" "1 \<le> t" "same_cell f (real m * 2 powi e) x"
    and "f \<le> max (fp_emin w t) (e + int (bitlen m) - int t - 1) - 1"
  shows "rounds_to w t s' ((if s then - 1 else 1) * x) (fp_round w t (Fin s m e))"
proof -
  define q where "q = max (fp_emin w t) (e + int (bitlen m) - int t - 1)"
  have f: "f \<le> q - 1" "f \<le> q" using assms(5) by (simp_all add: q_def)
  have near: "nearest x (round_at m e q) q" by (rule nearest_cell [OF assms(4) f(1) round_at_nearest])
  have pos: "position w t x q" by (rule position_cell [OF assms(4) f(2) position_of [OF assms(1) q_def]])
  have "real m * 2 powi e \<le> 0 \<longleftrightarrow> x \<le> 0"
    using assms(4) [unfolded same_cell_def, THEN spec [of _ 0]] by simp
  moreover have "0 < real m * 2 powi e" using assms(1) by simp
  ultimately have "0 < x" by linarith
  moreover have "fp_round w t (Fin s m e)
      = (let (k', q') = (if round_at m e q = 2 ^ Suc t then (2 ^ t, q + 1) else (round_at m e q, q))
         in if fp_bias w < q' + int t then Inf s else Fin s k' q')"
    using assms(1) unfolding fp_round_def fp.case Let_def q_def [symmetric] by simp
  ultimately show ?thesis using rounded_correct [OF near pos assms(2,3)] by (simp only:)
qed

lemma fp_round_exact:
  assumes "2 \<le> w" "1 \<le> t"
  shows "rounds_to w t s (fp_val (Fin s m e)) (fp_round w t (Fin s m e))"
proof (cases "m = 0")
  case True
  have bias: "1 \<le> fp_bias w"
    using power_increasing [of 1 "w - 1" "2 :: int"] assms(1) by (simp add: fp_bias_def)
  have "(1 :: real) < 2 ^ (t + 2)" by (rule one_less_power) simp_all
  then have "0 < overflow_from w t" by (simp add: overflow_from_def)
  moreover have "fp_emin w t + int t \<le> fp_bias w" using bias emin_bias [of w t] by linarith
  ultimately show ?thesis
    using True by (simp add: fp_round_def rounds_to_def fp_val_def)
next
  case False
  with fp_round_cell [OF _ assms same_cell_refl order_refl, where m = m and e = e and s = s and s' = s] show ?thesis
    by (simp add: fp_val_def mult.assoc)
qed

section \<open>The operations compute the exact value, or its cell\<close>

lemma fp_val_zero [simp]: "fp_val (Fin s 0 e) = 0"
  by (simp add: fp_val_def)

lemma fp_align_val:
  "e0 \<le> e \<Longrightarrow> real_of_int (fp_align s m e e0) * 2 powi e0 = fp_val (Fin s m e)"
  using powi_nat_diff [of e0 e] by (simp add: fp_align_def fp_int_def fp_val_def)

lemma fp_add_val:
  assumes "e = min e1 e2" "v = fp_align s1 m1 e1 e + fp_align s2 m2 e2 e"
  shows "fp_val (Fin s1 m1 e1) + fp_val (Fin s2 m2 e2) = real_of_int v * 2 powi e"
  using fp_align_val [of e e1 s1 m1] fp_align_val [of e e2 s2 m2] by (simp add: assms distrib_right)

lemma rounds_to_nonzero: "x \<noteq> 0 \<Longrightarrow> rounds_to w t s x v = rounds_to w t s' x v"
  by (simp add: rounds_to_def)

lemma fp_round_exact_sign:
  assumes "2 \<le> w" "1 \<le> t" "x = fp_val (Fin s m e)" "x = 0 \<longrightarrow> s' = s"
  shows "rounds_to w t s' x (fp_round w t (Fin s m e))"
  using fp_round_exact [OF assms(1,2), of s m e] assms(3,4) rounds_to_nonzero [of x w t s _ s']
  by (cases "x = 0") auto

lemma fp_add_rounded:
  assumes "2 \<le> w" "1 \<le> t"
  shows "rounds_to w t (s1 \<and> s2) (fp_val (Fin s1 m1 e1) + fp_val (Fin s2 m2 e2))
    (fp_round w t (fp_add (Fin s1 m1 e1) (Fin s2 m2 e2)))"
proof -
  define e v where "e = min e1 e2" and "v = fp_align s1 m1 e1 e + fp_align s2 m2 e2 e"
  note val = fp_add_val [OF e_def v_def]
  have add: "fp_add (Fin s1 m1 e1) (Fin s2 m2 e2)
      = (if v = 0 then Fin (s1 \<and> s2) 0 e else Fin (v < 0) (nat \<bar>v\<bar>) e)"
    by (simp add: v_def e_def Let_def)
  show ?thesis
  proof (cases "v = 0")
    case True
    then show ?thesis unfolding add if_P [OF True]
      by (intro fp_round_exact_sign assms) (simp_all add: val)
  next
    case False
    have "real_of_int v = (if v < 0 then - 1 else 1) * real (nat \<bar>v\<bar>)" by simp
    then have "real_of_int v * 2 powi e = fp_val (Fin (v < 0) (nat \<bar>v\<bar>) e)" by (simp only: fp_val_def fp.case)
    moreover have "real_of_int v * 2 powi e \<noteq> 0" using False by simp
    ultimately show ?thesis unfolding add if_not_P [OF False] val
      by (intro fp_round_exact_sign assms) auto
  qed
qed

lemma fp_negate_val: "fp_val (fp_negate v) = - fp_val v"
  by (cases v) (simp_all add: fp_val_def)

lemma fp_sub_rounded:
  assumes "2 \<le> w" "1 \<le> t"
  shows "rounds_to w t (s1 \<and> \<not> s2) (fp_val (Fin s1 m1 e1) - fp_val (Fin s2 m2 e2))
    (fp_round w t (fp_sub (Fin s1 m1 e1) (Fin s2 m2 e2)))"
  using fp_add_rounded [OF assms, of s1 "\<not> s2" m1 e1 m2 e2] fp_negate_val [of "Fin s2 m2 e2"]
  by (simp add: fp_sub_def del: fp_add.simps)

lemma fp_mul_rounded:
  assumes "2 \<le> w" "1 \<le> t"
  shows "rounds_to w t (s1 \<noteq> s2) (fp_val (Fin s1 m1 e1) * fp_val (Fin s2 m2 e2))
    (fp_round w t (fp_mul (Fin s1 m1 e1) (Fin s2 m2 e2)))"
  unfolding fp_mul.simps
  by (intro fp_round_exact_sign assms) (simp_all add: fp_val_def power_int_add)

text \<open>A number with a sticky bit below \<open>t + 3\<close> bits rounds like the value it stands for.\<close>

lemma bitlen_least: "2 ^ b \<le> m \<Longrightarrow> b < bitlen m"
proof -
  assume le: "2 ^ b \<le> m"
  then have "0 < m" by (meson order_less_le_trans zero_less_numeral zero_less_power)
  from bitlen_bounds [OF this] le have "(2 :: nat) ^ b < 2 ^ bitlen m" by linarith
  then show ?thesis by simp
qed

lemma sticky_rounded:
  assumes "2 \<le> w" "1 \<le> t" "2 ^ (t + 2) \<le> n"
    and "real n * 2 powi f \<le> x" "x < (real n + 1) * 2 powi f" "b \<longleftrightarrow> x \<noteq> real n * 2 powi f"
  shows "rounds_to w t s' ((if s then - 1 else 1) * x) (fp_round w t (Fin s (2 * n + of_bool b) (f - 1)))"
proof (rule fp_round_cell [OF _ assms(1,2) sticky_cell [OF assms(4-6)]])
  have "(2 :: nat) ^ (t + 3) \<le> 2 * n + of_bool b" using assms(3) by (simp add: power_add)
  then have "t + 3 < bitlen (2 * n + of_bool b)" by (rule bitlen_least)
  then show "f \<le> max (fp_emin w t) (f - 1 + int (bitlen (2 * n + of_bool b)) - int t - 1) - 1" by simp
  have "(0 :: nat) < 2 ^ (t + 2)" by simp
  with assms(3) show "0 < 2 * n + of_bool b" by linarith
qed

lemma fp_div_rounded:
  assumes "2 \<le> w" "1 \<le> t" "m2 \<noteq> 0"
  shows "rounds_to w t (s1 \<noteq> s2) (fp_val (Fin s1 m1 e1) / fp_val (Fin s2 m2 e2))
    (fp_round w t (fp_div t (Fin s1 m1 e1) (Fin s2 m2 e2)))"
proof (cases "m1 = 0")
  case True
  have "fp_div t (Fin s1 m1 e1) (Fin s2 m2 e2)
      = Fin (s1 \<noteq> s2) 0 (e1 - e2 - int (t + 3 + bitlen m2) - 1)"
    using assms(3) True by (simp add: Let_def)
  then show ?thesis
    by (simp only:) (rule fp_round_exact_sign [OF assms(1,2)]; simp add: True)
next
  case False
  define k n f where "k = t + 3 + bitlen m2" and "n = m1 * 2 ^ k" and "f = e1 - e2 - int k"
  define x where "x = real m1 / real m2 * 2 powi (e1 - e2)"
  have m2: "0 < m2" "m2 < 2 ^ bitlen m2" using assms(3) bitlen_bounds [of m2] by simp_all
  have x: "x = real n / real m2 * 2 powi f"
    by (simp add: x_def n_def f_def power_int_diff flip: power_int_of_nat)
  have "2 ^ (t + 2) * m2 \<le> 2 ^ (t + 3) * 2 ^ bitlen m2" using m2(2)
    by (intro mult_mono power_increasing) simp_all
  also have "\<dots> \<le> n" using False by (simp add: n_def k_def power_add)
  finally have big: "2 ^ (t + 2) \<le> n div m2" using m2(1) by (simp add: less_eq_div_iff_mult_less_eq)
  have n: "real n = real (n div m2) * real m2 + real (n mod m2)"
    by (simp flip: of_nat_mult of_nat_add)
  have quot: "real n / real m2 = real (n div m2) + real (n mod m2) / real m2"
    using m2(1) unfolding n by (simp add: add_divide_distrib)
  have low: "real (n div m2) * 2 powi f \<le> x" unfolding x quot by (intro mult_right_mono) simp_all
  have "real (n mod m2) / real m2 < 1" using m2(1) by simp
  then have high: "x < (real (n div m2) + 1) * 2 powi f"
    unfolding x quot by (intro mult_strict_right_mono) simp_all
  have sticky: "n mod m2 \<noteq> 0 \<longleftrightarrow> x \<noteq> real (n div m2) * 2 powi f"
    using m2(1) unfolding x quot by simp
  have "fp_div t (Fin s1 m1 e1) (Fin s2 m2 e2)
      = Fin (s1 \<noteq> s2) (2 * (n div m2) + of_bool (n mod m2 \<noteq> 0)) (f - 1)"
    using assms(3) by (simp add: Let_def k_def n_def f_def)
  moreover have "fp_val (Fin s1 m1 e1) / fp_val (Fin s2 m2 e2) = (if s1 \<noteq> s2 then - 1 else 1) * x"
    by (cases s1; cases s2) (simp_all add: fp_val_def x_def power_int_diff)
  ultimately show ?thesis using sticky_rounded [OF assms(1,2) big low high sticky] by (simp only:)
qed

lemma isqrt_correct: "isqrt n * isqrt n \<le> n \<and> n < (isqrt n + 1) * (isqrt n + 1)"
proof (induction n rule: less_induct)
  case (less n)
  show ?case
  proof (cases "n = 0")
    case True
    then show ?thesis by (simp add: isqrt.simps)
  next
    case False
    define a where "a = isqrt (n div 4)"
    have "a * a \<le> n div 4" "n div 4 < (a + 1) * (a + 1)" using less [of "n div 4"] False by (simp_all add: a_def)
    then have "2 * a * (2 * a) \<le> n" "n < (2 * a + 2) * (2 * a + 2)" by (simp_all add: algebra_simps)
    moreover have "isqrt n = (if (2 * a + 1) * (2 * a + 1) \<le> n then 2 * a + 1 else 2 * a)"
      using False by (subst isqrt.simps) (simp add: a_def Let_def)
    ultimately show ?thesis by (auto simp: algebra_simps)
  qed
qed

lemma fp_sqrt_rounded:
  assumes "2 \<le> w" "1 \<le> t" "0 \<le> fp_val (Fin s m e)"
  shows "rounds_to w t s (sqrt (fp_val (Fin s m e))) (fp_round w t (fp_sqrt t (Fin s m e)))"
proof (cases "m = 0")
  case True
  then have "fp_sqrt t (Fin s m e) = Fin s 0 e" by simp
  then show ?thesis
    by (simp only:) (rule fp_round_exact_sign [OF assms(1,2)]; simp add: True)
next
  case False
  then have "0 < real m * 2 powi e" by simp
  with assms(3) have s: "\<not> s" by (auto simp: fp_val_def)
  define k n r where "k = 2 * (t + 4) + (if even e then 0 else 1)" and "n = m * 2 ^ k" and "r = isqrt n"
  define f where "f = (e - int k) div 2"
  have "even (e - int k)" by (simp add: k_def)
  then have f: "e - int k = f + f" by (auto simp: f_def elim!: evenE)
  have r: "r * r \<le> n" "n < (r + 1) * (r + 1)" using isqrt_correct [of n] by (simp_all add: r_def)
  define x where "x = sqrt (real n) * 2 powi f"
  have double: "(2 :: real) powi (f + f) = 2 powi f * 2 powi f" by (rule power_int_add) simp
  have "fp_val (Fin s m e) = real n * 2 powi (e - int k)"
    using s by (simp add: fp_val_def n_def power_int_diff flip: power_int_of_nat)
  also have "\<dots> = real n * (2 powi f) ^ 2" by (simp only: f double power2_eq_square)
  finally have x: "sqrt (fp_val (Fin s m e)) = x" by (simp add: x_def real_sqrt_mult)
  have "real (r * r) \<le> real n" "real n < real ((r + 1) * (r + 1))" using r by (simp_all only: of_nat_le_iff of_nat_less_iff)
  then have sq: "real r \<le> sqrt (real n)" "sqrt (real n) < real r + 1"
    by (auto intro!: real_le_rsqrt real_less_lsqrt simp: power2_eq_square algebra_simps)
  have low: "real r * 2 powi f \<le> x" unfolding x_def using sq(1) by (intro mult_right_mono) simp_all
  have high: "x < (real r + 1) * 2 powi f" unfolding x_def using sq(2) by (intro mult_strict_right_mono) simp_all
  have "r * r \<noteq> n \<longleftrightarrow> sqrt (real n) \<noteq> real r"
    by (metis of_nat_0_le_iff of_nat_eq_iff of_nat_mult real_sqrt_mult_self abs_of_nonneg real_sqrt_abs2)
  then have sticky: "r * r \<noteq> n \<longleftrightarrow> x \<noteq> real r * 2 powi f" by (simp add: x_def)
  have "(2 :: nat) ^ (t + 4) * 2 ^ (t + 4) \<le> 2 ^ k" by (simp add: k_def flip: power_add)
  also have "\<dots> \<le> n" using False by (simp add: n_def)
  finally have "(2 :: nat) ^ (t + 4) * 2 ^ (t + 4) < (r + 1) * (r + 1)" using r(2) by linarith
  then have "(2 :: nat) ^ (t + 4) < r + 1" by (meson mult_le_mono not_le)
  moreover have "(2 :: nat) ^ (t + 2) \<le> 2 ^ (t + 4)" by (rule power_increasing) simp_all
  ultimately have big: "2 ^ (t + 2) \<le> r" by linarith
  have "fp_sqrt t (Fin s m e) = Fin False (2 * r + of_bool (r * r \<noteq> n)) (f - 1)"
    using False s by (simp add: Let_def k_def n_def r_def f_def)
  with sticky_rounded [OF assms(1,2) big low high sticky, of s False] show ?thesis
    unfolding x by simp
qed

section \<open>Bits\<close>

text \<open>A normal number keeps its bits.\<close>

lemma encode_normal:
  fixes k w t nan :: nat and s :: bool
  assumes "2 ^ t \<le> k" "k < 2 * 2 ^ t" "fp_emin w t \<le> q" "nat (q - fp_emin w t) + 2 < 2 ^ w"
  defines "b \<equiv> fp_encode w t nan (Fin s k q)"
  shows "fp_decode w t b = Fin s k q" "b < 2 * 2 ^ (w + t)"
proof -
  define n f where "n = nat (q - fp_emin w t)" and "f = k - 2 ^ t"
  have f: "f < 2 ^ t" "k = 2 ^ t + f" using assms(1,2) by (simp_all add: f_def)
  have n: "n + 2 < 2 ^ w" using assms(4) by (simp add: n_def)
  have b: "b = f + 2 ^ t * (n + 1 + 2 ^ w * of_bool s)"
    by (simp add: b_def fp_encode_def n_def f(2) power_add algebra_simps)
  have two_power: "(2 :: nat) ^ t \<noteq> 0" by simp
  have div_t: "b div 2 ^ t = n + 1 + 2 ^ w * of_bool s" "b mod 2 ^ t = f"
    unfolding b div_mult_self2 [OF two_power] mod_mult_self2 using f(1) by simp_all
  have e: "b div 2 ^ t mod 2 ^ w = n + 1" unfolding div_t using n by simp
  have "b div 2 ^ (w + t) = (n + 1 + 2 ^ w * of_bool s) div 2 ^ w"
    unfolding div_t(1) [symmetric] by (simp add: power_add div_mult2_eq mult.commute)
  also have "\<dots> = of_bool s"
  proof -
    have "(2 :: nat) ^ w \<noteq> 0" by simp
    then show ?thesis unfolding div_mult_self2 [OF \<open>2 ^ w \<noteq> 0\<close>] using n by simp
  qed
  finally have sign: "odd (b div 2 ^ (w + t)) \<longleftrightarrow> s" by simp
  have "fp_emin w t + int (n + 1) - 1 = q" using assms(3) by (simp add: n_def)
  moreover have "n + 1 \<noteq> 2 ^ w - 1" using n by linarith
  ultimately show "fp_decode w t b = Fin s k q"
    unfolding fp_decode_def e div_t(2) sign Let_def using n f(2) by simp
  have "n + 1 + 2 ^ w * of_bool s < 2 * 2 ^ w" using n by (cases s) simp_all
  then have "n + 2 + 2 ^ w * of_bool s \<le> 2 * 2 ^ w" by simp
  then have "2 ^ t * (n + 2 + 2 ^ w * of_bool s) \<le> 2 ^ t * (2 * 2 ^ w)" by (rule mult_le_mono2)
  then show "b < 2 * 2 ^ (w + t)" unfolding b using f(1) by (simp add: power_add algebra_simps)
qed

lemma encode_infinity:
  fixes w t nan :: nat and s :: bool
  defines "b \<equiv> fp_encode w t nan (Inf s)"
  shows "fp_decode w t b = Inf s" "b < 2 * 2 ^ (w + t)"
proof -
  define n where "n = (2 :: nat) ^ w - 1"
  have n: "n + 1 = 2 ^ w" "n < 2 ^ w" by (simp_all add: n_def)
  have b: "b = 2 ^ t * (n + 2 ^ w * of_bool s)"
    by (simp add: b_def fp_encode_def n_def power_add algebra_simps)
  have "b div 2 ^ (w + t) = (n + 2 ^ w * of_bool s) div 2 ^ w"
    unfolding b by (simp add: power_add mult.commute [of "2 ^ w"] div_mult2_eq)
  then have "b div 2 ^ (w + t) = of_bool s" using n(2) by (cases s) simp_all
  moreover have "b div 2 ^ t = n + 2 ^ w * of_bool s" "b mod 2 ^ t = 0" by (simp_all add: b)
  moreover have "(n + 2 ^ w * of_bool s) mod 2 ^ w = 2 ^ w - 1"
    unfolding mod_mult_self2 mod_less [OF n(2)] by (rule n_def)
  ultimately show "fp_decode w t b = Inf s" by (simp add: fp_decode_def Let_def)
  have "n + 2 ^ w * of_bool s < 2 * 2 ^ w" using n(2) by (cases s) simp_all
  then have "b < 2 ^ t * (2 * 2 ^ w)" unfolding b by simp
  then show "b < 2 * 2 ^ (w + t)" by (simp add: power_add mult.commute)
qed

lemma encode_subnormal:
  fixes w t k nan :: nat and s :: bool
  assumes "k < 2 ^ t" "2 \<le> w"
  defines "b \<equiv> fp_encode w t nan (Fin s k (fp_emin w t))"
  shows "fp_decode w t b = Fin s k (fp_emin w t)" "b < 2 * 2 ^ (w + t)"
proof -
  have b: "b = k + 2 ^ t * (2 ^ w * of_bool s)"
    using assms(1) by (simp add: b_def fp_encode_def power_add algebra_simps)
  have d: "b div 2 ^ t = 2 ^ w * of_bool s" "b mod 2 ^ t = k" using assms(1) by (simp_all add: b)
  have "b div 2 ^ (w + t) = b div 2 ^ t div 2 ^ w" by (simp add: power_add div_mult2_eq mult.commute)
  then have "b div 2 ^ (w + t) = of_bool s" by (simp add: d(1))
  moreover have "(2 :: nat) ^ w \<noteq> 1" "b div 2 ^ t mod 2 ^ w = 0" using assms(2) by (simp_all add: d(1))
  moreover have "(0 :: nat) \<noteq> 2 ^ w - 1"
    using power_increasing [of 2 w "2 :: nat"] assms(2) by simp
  ultimately show "fp_decode w t b = Fin s k (fp_emin w t)" by (simp add: fp_decode_def Let_def d(2))
  have "(2 :: nat) ^ t \<le> 2 ^ w * 2 ^ t" by simp
  then have "k < 2 ^ w * 2 ^ t" using assms(1) by linarith
  then have "b < 2 * (2 ^ w * 2 ^ t)" by (cases s) (simp_all add: b mult.commute)
  then show "b < 2 * 2 ^ (w + t)" by (simp add: power_add)
qed

lemma encode_rounded:
  fixes nan :: nat
  assumes "rounds_to w t s x v" "2 \<le> w"
  defines "b \<equiv> fp_encode w t nan v"
  shows "fp_decode w t b = v" "b < 2 * 2 ^ (w + t)"
proof -
  have w: "2 ^ w = 2 * (fp_bias w + 1)"
    using assms(2) power_Suc [of "2 :: int" "w - 1"] by (simp add: fp_bias_def)
  have "fp_decode w t b = v \<and> b < 2 * 2 ^ (w + t)"
  proof (cases v)
    case (Inf s')
    then show ?thesis using encode_infinity [of w t nan s'] by (simp add: b_def)
  next
    case (Fin s' k q)
    have v: "k < 2 ^ Suc t" "fp_emin w t \<le> q" "q + int t \<le> fp_bias w" "2 ^ t \<le> k \<or> q = fp_emin w t"
      using assms(1) by (auto simp: rounds_to_def Fin)
    show ?thesis
    proof (cases "2 ^ t \<le> k")
      case True
      have "int (nat (q - fp_emin w t) + 2) < 2 ^ w" using v(2,3) w emin_bias [of w t] by simp
      then have "nat (q - fp_emin w t) + 2 < 2 ^ w" by (metis of_nat_less_iff of_nat_numeral of_nat_power)
      from encode_normal [OF True _ v(2) this] v(1) show ?thesis by (simp add: b_def Fin)
    next
      case False
      then show ?thesis using encode_subnormal [of k t w nan s'] v(4) assms(2) by (simp add: b_def Fin)
    qed
  qed (use assms(1) in \<open>simp add: rounds_to_def\<close>)
  then show "fp_decode w t b = v" "b < 2 * 2 ^ (w + t)" by blast+
qed

section \<open>Numbers read from bits are in the format\<close>

lemma decode_finite:
  assumes "fp_decode w t b = Fin s m e" "2 \<le> w"
  shows "m < 2 ^ Suc t" "fp_emin w t \<le> e" "e + int t \<le> fp_bias w" "2 ^ t \<le> m \<or> e = fp_emin w t"
proof -
  define x where "x = b div 2 ^ t mod 2 ^ w"
  define f where "f = b mod 2 ^ t"
  have f: "f < 2 ^ t" and x: "x < 2 ^ w" by (simp_all add: f_def x_def)
  have w: "(2 :: nat) ^ w = nat (2 * (fp_bias w + 1))" "1 \<le> fp_bias w"
  proof -
    have "(2 :: int) ^ w = 2 * (fp_bias w + 1)"
      using assms(2) power_Suc [of "2 :: int" "w - 1"] by (simp add: fp_bias_def)
    then show "(2 :: nat) ^ w = nat (2 * (fp_bias w + 1))" by (metis nat_int of_nat_numeral of_nat_power)
    show "1 \<le> fp_bias w"
      using power_increasing [of 1 "w - 1" "2 :: int"] assms(2) by (simp add: fp_bias_def)
  qed
  have "x \<noteq> 2 ^ w - 1 \<and> (if x = 0 then m = f \<and> e = fp_emin w t
      else m = 2 ^ t + f \<and> e = fp_emin w t + int x - 1)"
    using assms(1) by (auto simp: fp_decode_def Let_def x_def f_def split: if_splits)
  then show "m < 2 ^ Suc t" "fp_emin w t \<le> e" "e + int t \<le> fp_bias w" "2 ^ t \<le> m \<or> e = fp_emin w t"
    using f x w emin_bias [of w t] by (auto split: if_splits)
qed

lemma in_format_below: "in_format w t x \<Longrightarrow> \<bar>x\<bar> < overflow_from w t"
proof -
  assume "in_format w t x"
  then obtain k q where x: "\<bar>x\<bar> = real k * 2 powi q" "k < 2 ^ Suc t" "q + int t \<le> fp_bias w"
    unfolding in_format_def by blast
  define u where "u = (2 :: real) powi (fp_bias w - int t - 1)"
  have u: "0 < u" "(2 :: real) powi (fp_bias w - int t) = 2 * u"
    by (simp_all add: u_def powi_half [of "fp_bias w - int t"])
  have "real (Suc k) \<le> real (2 ^ Suc t)" using x(2) by (intro of_nat_mono) simp
  then have k: "2 * real k < 2 ^ (t + 2) - 1" by simp
  have "real k * 2 powi q \<le> real k * 2 powi (fp_bias w - int t)"
    using x(3) by (intro mult_left_mono power_int_increasing) simp_all
  also have "\<dots> = (2 * real k) * u" by (simp add: u(2))
  also have "\<dots> < (2 ^ (t + 2) - 1) * u" by (rule mult_strict_right_mono [OF k u(1)])
  finally show ?thesis by (simp add: x(1) overflow_from_def u_def)
qed

text \<open>A number of the format is kept.\<close>

lemma rounds_to_format:
  assumes "rounds_to w t s x v" "in_format w t x"
  shows "fp_finite v" "fp_val v = x"
proof -
  have "fp_finite v \<and> fp_val v = x"
  proof (cases v)
    case (Inf s')
    then show ?thesis using assms(1) in_format_below [OF assms(2)] by (simp add: rounds_to_def)
  next
    case (Fin s' k q)
    then have "\<bar>fp_val v - x\<bar> \<le> \<bar>x - x\<bar>"
      using assms unfolding rounds_to_def Fin fp.case by blast
    then have "fp_val v = x" by simp
    then show ?thesis by (simp add: Fin fp_finite_def)
  qed (use assms(1) in \<open>simp add: rounds_to_def\<close>)
  then show "fp_finite v" "fp_val v = x" by blast+
qed

text \<open>Only one number of the format, in normal form, has a given value.\<close>

lemma normal_form_unique:
  assumes "real k * 2 powi q = real k' * 2 powi q'" "k < 2 ^ Suc t" "k' < 2 ^ Suc t"
    and "2 ^ t \<le> k \<or> q = e" "2 ^ t \<le> k' \<or> q' = e" "e \<le> q" "e \<le> q'"
  shows "k = k' \<and> q = q'"
proof -
  have less: False if eq: "real k * 2 powi q = real k' * 2 powi q'" and lt: "q < q'"
    and k: "k < 2 ^ Suc t" "2 ^ t \<le> k'" for k k' q q'
  proof -
    have "real k * 2 powi q = real (k' * 2 ^ nat (q' - q)) * 2 powi q"
      using powi_nat_diff [of q q'] lt by (simp add: eq)
    then have "real k = real (k' * 2 ^ nat (q' - q))" by (simp only: mult_cancel_right) simp
    then have "k = k' * 2 ^ nat (q' - q)" by (simp only: of_nat_eq_iff)
    moreover have "(2 :: nat) ^ 1 \<le> 2 ^ nat (q' - q)" using lt by (intro power_increasing) simp_all
    then have "2 ^ t * 2 ^ 1 \<le> k' * 2 ^ nat (q' - q)" using k(2) by (rule mult_le_mono [rotated])
    ultimately show False using k(1) by simp
  qed
  have "\<not> q < q'"
  proof
    assume "q < q'"
    with assms(5,6) have "2 ^ t \<le> k'" by auto
    from less [OF assms(1) \<open>q < q'\<close> assms(2) this] show False .
  qed
  moreover have "\<not> q' < q"
  proof
    assume "q' < q"
    with assms(4,7) have "2 ^ t \<le> k" by auto
    from less [OF assms(1) [symmetric] \<open>q' < q\<close> assms(3) this] show False .
  qed
  ultimately have "q = q'" by simp
  with assms(1) show ?thesis by simp
qed

lemma finite_cases: "fp_finite v \<Longrightarrow> (\<And>s m e. v = Fin s m e \<Longrightarrow> P) \<Longrightarrow> P"
  by (auto simp: fp_finite_def split: fp.splits)

lemma rounds_to_sign:
  assumes "rounds_to w t (fp_sign u) (fp_val u) v" "fp_finite u" "fp_finite v"
  shows "fp_sign v = fp_sign u"
proof -
  obtain s m e where u: "u = Fin s m e" using assms(2) by (rule finite_cases)
  obtain s' k q where v: "v = Fin s' k q" using assms(3) by (rule finite_cases)
  have "s = (fp_val u < 0)" if "fp_val u \<noteq> 0"
  proof -
    have "0 < real m * 2 powi e" using that u by (cases "m = 0") simp_all
    then show ?thesis by (cases s) (simp_all add: u fp_val_def)
  qed
  then show ?thesis using assms(1) by (auto simp: rounds_to_def u v split: if_splits)
qed

lemma rounds_to_decoded:
  assumes "rounds_to w t (fp_sign u) (fp_val u) v" "fp_finite u" "u = fp_decode w t b" "2 \<le> w"
  shows "v = u"
proof -
  obtain s m e where u: "u = Fin s m e" using assms(2) by (rule finite_cases)
  have m: "m < 2 ^ Suc t" "fp_emin w t \<le> e" "e + int t \<le> fp_bias w" "2 ^ t \<le> m \<or> e = fp_emin w t"
    by (rule decode_finite [OF assms(3) [unfolded u, symmetric] assms(4)])+
  have "\<bar>fp_val u\<bar> = real m * 2 powi e" by (simp add: u fp_val_def abs_mult)
  with m have format: "in_format w t (fp_val u)" unfolding in_format_def by blast
  note v = rounds_to_format [OF assms(1) format]
  obtain s' k q where v': "v = Fin s' k q" using v(1) by (rule finite_cases)
  have k: "k < 2 ^ Suc t" "fp_emin w t \<le> q" "2 ^ t \<le> k \<or> q = fp_emin w t"
    using assms(1) by (auto simp: rounds_to_def v')
  have "s' = s" using rounds_to_sign [OF assms(1,2) v(1)] by (simp add: u v')
  moreover have "real k * 2 powi q = real m * 2 powi e"
    using v(2) \<open>s' = s\<close> by (cases s) (simp_all add: u v' fp_val_def)
  then have "k = m \<and> q = e" by (rule normal_form_unique [OF _ k(1) m(1) k(3) m(4) k(2) m(2)])
  ultimately show ?thesis by (simp add: u v')
qed

text \<open>The bits of a finite number determine it, and it them.\<close>

lemma encode_decode:
  fixes b nan :: nat
  assumes "fp_finite (fp_decode w t b)" "b < 2 * 2 ^ (w + t)"
  shows "fp_encode w t nan (fp_decode w t b) = b"
proof -
  define x f s where "x = b div 2 ^ t mod 2 ^ w" and "f = b mod 2 ^ t" and "s = odd (b div 2 ^ (w + t))"
  have "b div 2 ^ (w + t) < 2" using assms(2) by (simp add: div_less_iff_less_mult)
  then have s: "b div 2 ^ (w + t) = of_bool s" by (auto simp: s_def less_2_cases_iff)
  have "b = b div 2 ^ t * 2 ^ t + f" unfolding f_def by (rule div_mult_mod_eq [symmetric])
  also have "b div 2 ^ t = b div 2 ^ t div 2 ^ w * 2 ^ w + x"
    unfolding x_def by (rule div_mult_mod_eq [symmetric])
  also have "b div 2 ^ t div 2 ^ w = of_bool s" using s by (simp add: div_mult2_eq power_add mult.commute)
  finally have b: "b = of_bool s * 2 ^ (w + t) + x * 2 ^ t + f" by (simp add: power_add algebra_simps)
  have "x \<noteq> 2 ^ w - 1" using assms(1) by (auto simp: fp_decode_def fp_finite_def x_def Let_def split: if_splits)
  then have dec: "fp_decode w t b = (if x = 0 then Fin s f (fp_emin w t)
      else Fin s (2 ^ t + f) (fp_emin w t + int x - 1))"
    by (simp add: fp_decode_def Let_def x_def f_def s_def)
  show ?thesis
  proof (cases "x = 0")
    case True
    with b show ?thesis unfolding dec by (simp add: fp_encode_def)
  next
    case False
    then obtain y where "x = Suc y" by (cases x) simp_all
    with b show ?thesis unfolding dec by (simp add: fp_encode_def)
  qed
qed

section \<open>Comparisons and conversions\<close>

lemma fp_compare_val:
  assumes "fp_finite u" "fp_finite v"
  shows "fp_lt u v \<longleftrightarrow> fp_val u < fp_val v" "fp_eq u v \<longleftrightarrow> fp_val u = fp_val v"
    "fp_le u v \<longleftrightarrow> fp_val u \<le> fp_val v"
proof -
  obtain s1 m1 e1 s2 m2 e2 where uv: "u = Fin s1 m1 e1" "v = Fin s2 m2 e2"
    using assms by (auto simp: fp_finite_def split: fp.splits)
  define e where "e = min e1 e2"
  have val: "fp_val u = real_of_int (fp_align s1 m1 e1 e) * 2 powi e"
    "fp_val v = real_of_int (fp_align s2 m2 e2 e) * 2 powi e"
    using fp_align_val [of e e1] fp_align_val [of e e2] by (simp_all add: uv e_def)
  show lt: "fp_lt u v \<longleftrightarrow> fp_val u < fp_val v" unfolding val by (simp add: uv e_def)
  show eq: "fp_eq u v \<longleftrightarrow> fp_val u = fp_val v" unfolding val by (simp add: uv e_def)
  show "fp_le u v \<longleftrightarrow> fp_val u \<le> fp_val v" using lt eq by (auto simp: fp_le_def)
qed

lemma fp_compare_nan:
  "u = NaN \<or> v = NaN \<Longrightarrow> \<not> fp_lt u v \<and> \<not> fp_eq u v \<and> \<not> fp_le u v"
  by (cases u; cases v) (auto simp: fp_le_def)

text \<open>Truncation is rounding toward zero.\<close>

definition toward_zero :: "real \<Rightarrow> int" where
  "toward_zero x = (if x < 0 then \<lceil>x\<rceil> else \<lfloor>x\<rfloor>)"

lemma toward_zero_sign:
  assumes "0 \<le> a"
  shows "toward_zero a = \<lfloor>a\<rfloor>" "toward_zero (- a) = - \<lfloor>a\<rfloor>"
proof -
  show "toward_zero a = \<lfloor>a\<rfloor>" using assms by (simp add: toward_zero_def)
  show "toward_zero (- a) = - \<lfloor>a\<rfloor>"
    using assms by (cases "a = 0") (simp_all add: toward_zero_def ceiling_minus)
qed

lemma fp_trunc_val:
  assumes "fp_finite v"
  shows "fp_trunc v = Some (toward_zero (fp_val v))"
proof -
  obtain s m e where v: "v = Fin s m e" using assms by (auto simp: fp_finite_def split: fp.splits)
  define n where "n = (if 0 \<le> e then m * 2 ^ nat e else m div 2 ^ nat (- e))"
  have "\<lfloor>real m * 2 powi e\<rfloor> = int n"
  proof (cases "0 \<le> e")
    case True
    then have "real m * 2 powi e = real n" by (simp add: n_def power_int_def)
    then show ?thesis by simp
  next
    case False
    then have "real m * 2 powi e = real m / real (2 ^ nat (- e))"
      by (simp add: power_int_def field_simps)
    then show ?thesis using False floor_divide_of_nat_eq [of m "2 ^ nat (- e)", where 'a = real]
      by (simp only: n_def if_False)
  qed
  then have "toward_zero (fp_val v) = fp_int s n"
    using toward_zero_sign [of "real m * 2 powi e"] by (cases s) (simp_all add: v fp_val_def fp_int_def)
  then show ?thesis by (simp add: v n_def)
qed

end
