(* ===== verification/Fpu_Correct.thy ===== *)
theory Fpu_Correct
  imports Cpu Rounding
begin

text \<open>
  The coprocessor: its double-precision registers as pairs of single registers, stored and loaded
  as two words; the correct rounding of its arithmetic and conversions in both precisions; and its
  comparisons.
\<close>

text \<open>
  Storing a double-precision register with \<open>sdc1\<close> at any two words of plain memory and loading
  them with \<open>ldc1\<close> into any register copies its 64 bits, whatever they encode, and writes
  no other register.
\<close>

lemma double_store_load:
  assumes "op i = OP_SDC1" "op j = OP_LDC1" "reg g (rs i) + simm i = a" "reg g (rs j) + simm j = a"
    and "\<not> device_register a" "\<not> device_register (a + 4)" "rt i < 31" "rt j < 31"
  shows "\<exists>g1 g2. exec_cop1_ldst h i g = Inr (0, g1) \<and> exec_cop1_ldst h j g1 = Inr (0, g2)
    \<and> getd (rt j) g2 = getd (rt i) g
    \<and> (\<forall>n. n \<noteq> rt j \<longrightarrow> n \<noteq> rt j + 1 \<longrightarrow> fpr g2 n = fpr g n)"
proof -
  let ?lo = "fpr g (rt i)" and ?hi = "fpr g (rt i + 1)"
  define g1 where "g1 = store_word h (a + 4) ?hi (store_word h a ?lo g)"
  define g2 where "g2 = set_fpr (rt j + 1) ?hi (set_fpr (rt j) ?lo g1)"
  have same: "reg g1 = reg g" "fpr g1 = fpr g" by (simp_all add: g1_def)
  have loads: "load_word h a g1 = (?lo, g1)" "load_word h (a + 4) g1 = (?hi, g1)"
    unfolding g1_def by (rule ram.load_store_pair [OF assms(5,6)])+
  have "load_word h (a + 4) (set_fpr (rt j) ?lo g1) = (?hi, set_fpr (rt j) ?lo g1)"
    using ram.load_ram [OF assms(6), of h "set_fpr (rt j) ?lo g1"] ram.load_ram [OF assms(6), of h g1] loads(2)
    by simp
  then have "exec_cop1_ldst h j g1 = Inr (0, g2)"
    using assms(2,4,8) loads(1) same(1) by (simp add: exec_cop1_ldst_def finish_def g2_def Let_def)
  moreover have "exec_cop1_ldst h i g = Inr (0, g1)"
    using assms(1,3,7) by (simp add: exec_cop1_ldst_def finish_def g1_def Let_def)
  moreover have "rt j \<noteq> rt j + 1" by simp
  then have "getd (rt j) g2 = getd (rt i) g"
    using assms(7,8) by (simp add: getd_def g2_def)
  moreover have "\<forall>n. n \<noteq> rt j \<longrightarrow> n \<noteq> rt j + 1 \<longrightarrow> fpr g2 n = fpr g n"
    by (simp add: g2_def same(2))
  ultimately show ?thesis by blast
qed

text \<open>\<open>sdc1 $f2, 64($0)\<close> and \<open>ldc1 $f4, 64($0)\<close>.\<close>

lemma double_store_load_witness:
  "\<exists>g1 g2. exec_cop1_ldst quiet_host 0xF4020040 (zero_machine\<lparr>fpr := (\<lambda>_. 0)(2 := 7, 3 := 9)\<rparr>) = Inr (0, g1)
     \<and> exec_cop1_ldst quiet_host 0xD4040040 g1 = Inr (0, g2)
     \<and> getd 4 g2 = getd 2 (zero_machine\<lparr>fpr := (\<lambda>_. 0)(2 := 7, 3 := 9)\<rparr>)"
proof -
  have fields: "op 0xF4020040 = OP_SDC1" "op 0xD4040040 = OP_LDC1" "rt 0xF4020040 = 2" "rt 0xD4040040 = 4"
    "simm 0xF4020040 = 64" "simm 0xD4040040 = 64"
    by code_simp+
  show ?thesis
    using double_store_load [of "0xF4020040" "0xD4040040"
        "zero_machine\<lparr>fpr := (\<lambda>_. 0)(2 := 7, 3 := 9)\<rparr>" 64 quiet_host]
    by (auto simp: fields device_register_def zero_machine_def)
qed

section \<open>Integers and doubles\<close>

text \<open>An \<open>int32_t\<close> is a \<open>double\<close>: rounding keeps it.\<close>

lemma round_int32:
  assumes "0 < m" "m \<le> 2 ^ 31"
  shows "\<exists>k q. fp_round 11 52 (Fin s m 0) = Fin s k q \<and> q < 0 \<and> - 1074 \<le> q \<and> nat (q + 1074) + 2 < 2 ^ 11
    \<and> 2 ^ 52 \<le> k \<and> k < 2 * 2 ^ 52 \<and> k = m * 2 ^ nat (- q)"
proof -
  define l where "l = bitlen m"
  have l: "2 ^ (l - 1) \<le> m" "m < 2 ^ l" "0 < l"
    using bitlen_bounds [OF assms(1)] by (simp_all add: l_def)
  have "2 ^ (l - 1) \<le> (2 :: nat) ^ 31" using l(1) assms(2) by (rule order_trans)
  then have "l - 1 \<le> 31" by (rule power_le_imp_le_exp [rotated]) simp
  then have small: "l \<le> 32" by simp
  have emin: "fp_emin 11 52 = - 1074" "fp_bias 11 = 1023" by (simp_all add: fp_emin_def fp_bias_def)
  define q where "q = int l - 53"
  define k where "k = m * 2 ^ nat (- q)"
  have q: "q < 0" "- 1074 \<le> q" "nat (- q) = 53 - l" using small l(3) by (simp_all add: q_def nat_diff_distrib')
  have "2 ^ (l - 1) * 2 ^ (53 - l) \<le> k" unfolding k_def q(3) by (rule mult_le_mono1) (rule l(1))
  moreover have "k < 2 ^ l * 2 ^ (53 - l)" unfolding k_def q(3) by (rule mult_less_mono1) (use l(2) in simp_all)
  moreover have "(2 :: nat) ^ (l - 1) * 2 ^ (53 - l) = 2 ^ 52" "(2 :: nat) ^ l * 2 ^ (53 - l) = 2 ^ 53"
    using small l(3) by (simp_all add: power_add [symmetric])
  ultimately have k: "2 ^ 52 \<le> k" "k < 2 * 2 ^ 52" by simp_all
  have "fp_round 11 52 (Fin s m 0) = Fin s k q"
  proof -
    have "max (fp_emin 11 52) (0 + int (bitlen m) - int 52 - 1) = q"
      using q(2) by (simp add: emin q_def l_def)
    moreover have "round_at m 0 q = k" using q(1) by (simp add: round_at_def k_def)
    moreover have "k \<noteq> 2 ^ Suc 52" using k(2) by simp
    moreover have "\<not> fp_bias 11 < q + int 52" using small by (simp add: emin q_def)
    ultimately show ?thesis using assms(1) by (simp add: fp_round_def Let_def)
  qed
  moreover have "nat (q + 1074) + 2 < 2 ^ 11" using q(1,2) by simp
  ultimately show ?thesis using q k k_def by blast
qed

lemma double_of_int32:
  fixes x :: int
  assumes "fits_signed 32 x"
  shows "fp_to_int32 (f64 (to_f64 h i ops (fp_of_int x))) = Inr (word_of_int x)"
proof (cases "x = 0")
  case True
  have "f64 0 = Fin False 0 (fp_emin 11 52)" by (simp add: f64_def fp_decode_def)
  with True show ?thesis
    by (simp add: to_f64_def fp_of_int_def fp_round_def fp_encode_def fp_to_int32_def fp_int_def
        fits_signed_def fp_emin_def fp_bias_def)
next
  case False
  define m s where "m = nat \<bar>x\<bar>" and "s = (x < 0)"
  have m: "0 < m" "m \<le> 2 ^ 31" using False assms by (auto simp: m_def fits_signed_def)
  obtain k q where r: "fp_round 11 52 (Fin s m 0) = Fin s k q" "q < 0" "- 1074 \<le> q" "nat (q + 1074) + 2 < 2 ^ 11"
    "2 ^ 52 \<le> k" "k < 2 * 2 ^ 52" "k = m * 2 ^ nat (- q)"
    using round_int32 [OF m] by blast
  have emin: "fp_emin 11 52 = - 1074" by (simp add: fp_emin_def fp_bias_def)
  define b where "b = fp_encode 11 52 (unat (nan_double h i ops)) (Fin s k q)"
  have dec: "fp_decode 11 52 b = Fin s k q" "b < 2 * 2 ^ (11 + 52)"
    unfolding b_def using encode_normal [of 52 k 11 q] r emin by simp_all
  have "to_f64 h i ops (fp_of_int x) = of_nat b"
    by (simp add: to_f64_def fp_of_int_def r(1) b_def flip: m_def s_def)
  moreover have "unat (of_nat b :: u64) = b" using dec(2) by (simp add: unat_of_nat take_bit_nat_eq_self)
  ultimately have "f64 (to_f64 h i ops (fp_of_int x)) = Fin s k q" by (simp add: f64_def dec(1))
  moreover have "fp_trunc (Fin s k q) = Some x"
    using r(2,7) by (simp add: fp_int_def m_def s_def)
  ultimately show ?thesis using assms by (simp add: fp_to_int32_def)
qed

lemma u64_halves: "ucast (ucast d :: u32) OR push_bit 32 (ucast (ucast (drop_bit 32 d) :: u32)) = (d :: u64)"
  by (rule bit_eqI) (auto simp: bit_simps)

text \<open>
  Every 32-bit integer survives the conversion to double precision and back: \<open>cvt.d.w\<close> and then
  \<open>cvt.w.d\<close> leave exactly the word they started from, rounding nothing and overflowing never.
\<close>

lemma int_double_round_trip:
  assumes "rs i = FMT_W" "funct i = 0x21" "rs j = FMT_D" "funct j = 0x24" "rd j = shamt i" "shamt i < 31"
  shows "\<exists>g1 g2. exec_cop1 h i g = Inr (0, g1) \<and> exec_cop1 h j g1 = Inr (0, g2)
    \<and> fpr g2 (shamt j) = fpr g (rd i)"
proof -
  let ?d = "to_f64 h i [] (fp_of_int (getw (rd i) g))"
  define g1 where "g1 = set_fpr (shamt i + 1) (ucast (drop_bit 32 ?d)) (set_fpr (shamt i) (ucast ?d) g)"
  have "exec_cop1 h i g = Inr (0, g1)"
    using assms(1,2,6) by (simp add: exec_cop1_def fp_word_def finish_def setd_def g1_def Let_def)
  moreover have "shamt i \<noteq> shamt i + 1" by simp
  then have get: "getd (rd j) g1 = Inr ?d"
    using assms(5,6) by (simp add: getd_def g1_def u64_halves)
  have "fits_signed 32 (getw (rd i) g)"
    using sint_range_size [of "fpr g (rd i)"] by (simp add: fits_signed_def getw_def word_size)
  then have "fp_to_int32 (f64 ?d) = Inr (fpr g (rd i))"
    by (simp add: double_of_int32) (simp add: getw_def)
  then have "exec_cop1 h j g1 = Inr (0, setw (shamt j) (fpr g (rd i)) g1)"
    using assms(3,4) get by (simp add: exec_cop1_def fp_double_def finish_def Let_def)
  ultimately show ?thesis by (auto simp: setw_def)
qed

text \<open>\<open>cvt.d.w $f2, $f1\<close> and \<open>cvt.w.d $f4, $f2\<close> with -5 in \<open>$f1\<close>.\<close>

lemma int_double_round_trip_witness:
  "\<exists>g1 g2. exec_cop1 quiet_host 0x468008A1 (zero_machine\<lparr>fpr := (\<lambda>_. 0)(1 := - 5)\<rparr>) = Inr (0, g1)
     \<and> exec_cop1 quiet_host 0x46201124 g1 = Inr (0, g2) \<and> fpr g2 4 = - 5"
proof -
  have fields: "rs 0x468008A1 = FMT_W" "funct 0x468008A1 = 0x21" "rs 0x46201124 = FMT_D"
    "funct 0x46201124 = 0x24" "rd 0x46201124 = 2" "shamt 0x468008A1 = 2" "shamt 0x46201124 = 4"
    "rd 0x468008A1 = 1"
    by code_simp+
  show ?thesis
    using int_double_round_trip [of "0x468008A1" "0x46201124" quiet_host
        "zero_machine\<lparr>fpr := (\<lambda>_. 0)(1 := - 5)\<rparr>"]
    by (simp add: fields)
qed

section \<open>Arithmetic is correctly rounded\<close>

text \<open>The bits of a rounded number are read back as that number.\<close>

lemma to_f32_rounded:
  assumes "rounds_to 8 23 s x (fp_round 8 23 v)"
  shows "f32 (to_f32 h i ops v) = fp_round 8 23 v"
proof -
  let ?b = "fp_encode 8 23 (unat (nan_single h i ops)) (fp_round 8 23 v)"
  have b: "fp_decode 8 23 ?b = fp_round 8 23 v" "?b < 2 * 2 ^ (8 + 23)"
    by (rule encode_rounded [OF assms]; simp)+
  from b(2) have "unat (of_nat ?b :: u32) = ?b" by (simp add: unat_of_nat take_bit_nat_eq_self)
  then show ?thesis by (simp add: f32_def to_f32_def b(1))
qed

lemma to_f64_rounded:
  assumes "rounds_to 11 52 s x (fp_round 11 52 v)"
  shows "f64 (to_f64 h i ops v) = fp_round 11 52 v"
proof -
  let ?b = "fp_encode 11 52 (unat (nan_double h i ops)) (fp_round 11 52 v)"
  have b: "fp_decode 11 52 ?b = fp_round 11 52 v" "?b < 2 * 2 ^ (11 + 52)"
    by (rule encode_rounded [OF assms]; simp)+
  from b(2) have "unat (of_nat ?b :: u64) = ?b" by (simp add: unat_of_nat take_bit_nat_eq_self)
  then show ?thesis by (simp add: f64_def to_f64_def b(1))
qed

text \<open>
  The exact result of an operation on finite numbers, with the sign it has when it is zero, where
  it is a real number.
\<close>

definition fp_exact :: "u8 \<Rightarrow> fp \<Rightarrow> fp \<Rightarrow> (bool \<times> real) option" where
  "fp_exact f u v =
     (let x = fp_val u; y = fp_val v; s = fp_sign u; s' = fp_sign v in
      if f = 0x00 then Some (s \<and> s', x + y)
      else if f = 0x01 then Some (s \<and> \<not> s', x - y)
      else if f = 0x02 then Some (s \<noteq> s', x * y)
      else if f = 0x03 \<and> y \<noteq> 0 then Some (s \<noteq> s', x / y)
      else if f = 0x04 \<and> 0 \<le> x then Some (s, sqrt x)
      else None)"

text \<open>The result the model rounds, for the five operations.\<close>

definition fp_operation :: "nat \<Rightarrow> u8 \<Rightarrow> fp \<Rightarrow> fp \<Rightarrow> fp" where
  "fp_operation t f u v =
     (if f = 0x00 then fp_add u v else if f = 0x01 then fp_sub u v else if f = 0x02 then fp_mul u v
      else if f = 0x03 then fp_div t u v else fp_sqrt t u)"

lemma fp_val_nonzero: "fp_val (Fin s m e) \<noteq> 0 \<Longrightarrow> m \<noteq> 0"
  by (rule notI) simp

lemma fp_operation_rounded:
  assumes "2 \<le> w" "1 \<le> t" "fp_finite u" "fp_finite v" "fp_exact f u v = Some (s, z)"
  shows "rounds_to w t s z (fp_round w t (fp_operation t f u v))"
proof -
  obtain s1 m1 e1 s2 m2 e2 where uv: "u = Fin s1 m1 e1" "v = Fin s2 m2 e2"
    using assms(3,4) by (auto simp: fp_finite_def split: fp.splits)
  consider "f = 0x00" | "f = 0x01" | "f = 0x02" | "f = 0x03" "fp_val v \<noteq> 0"
    | "f = 0x04" "0 \<le> fp_val u"
    using assms(5) by (auto simp: fp_exact_def Let_def split: if_splits)
  then show ?thesis
  proof cases
    case 1
    then show ?thesis
      using assms(5) fp_add_rounded [OF assms(1,2), of s1 s2 m1 e1 m2 e2]
      by (auto simp: fp_operation_def fp_exact_def uv simp del: fp_add.simps)
  next
    case 2
    then show ?thesis
      using assms(5) fp_sub_rounded [OF assms(1,2), of s1 s2 m1 e1 m2 e2]
      by (auto simp: fp_operation_def fp_exact_def uv simp del: fp_add.simps)
  next
    case 3
    then show ?thesis
      using assms(5) fp_mul_rounded [OF assms(1,2), of s1 s2 m1 e1 m2 e2]
      by (auto simp: fp_operation_def fp_exact_def uv simp del: fp_mul.simps)
  next
    case 4
    then show ?thesis
      using assms(5) fp_div_rounded [OF assms(1,2) fp_val_nonzero, of s2 m2 e2 s1 s2 m1 e1 e2]
      by (auto simp: fp_operation_def fp_exact_def uv simp del: fp_div.simps)
  next
    case 5
    then show ?thesis
      using assms(5) fp_sqrt_rounded [OF assms(1,2), of s1 m1 e1]
      by (auto simp: fp_operation_def fp_exact_def uv simp del: fp_sqrt.simps)
  qed
qed

lemma fp_exact_cases: "fp_exact f u v = Some r \<Longrightarrow> f = 0 \<or> f = 1 \<or> f = 2 \<or> f = 3 \<or> f = 4"
  by (auto simp: fp_exact_def Let_def split: if_splits)

text \<open>
  C13: \<open>add.s\<close>, \<open>sub.s\<close>, \<open>mul.s\<close>, \<open>div.s\<close> and \<open>sqrt.s\<close> on finite operands write to the destination register,
  and nowhere else, the single-precision number that IEEE 754 prescribes: the exact real result
  rounded once to the nearest number of the format, ties to the even one, overflow to infinity,
  with the right sign also of a zero.
\<close>

theorem single_arithmetic_rounded:
  assumes "rs i = FMT_S" "fp_finite (f32 (fpr g (rd i)))" "fp_finite (f32 (fpr g (rt i)))"
    and "fp_exact (funct i) (f32 (fpr g (rd i))) (f32 (fpr g (rt i))) = Some (s, z)"
  shows "\<exists>r. exec_cop1 h i g = Inr (0, set_fpr (shamt i) r g) \<and> rounds_to 8 23 s z (f32 r)"
proof -
  let ?u = "f32 (fpr g (rd i))" and ?v = "f32 (fpr g (rt i))"
  define r where "r = to_f32 h i [ucast (fpr g (rd i)), ucast (fpr g (rt i))] (fp_operation 23 (funct i) ?u ?v)"
  have round: "rounds_to 8 23 s z (fp_round 8 23 (fp_operation 23 (funct i) ?u ?v))"
    by (rule fp_operation_rounded [OF _ _ assms(2-4)]) simp_all
  have "exec_cop1 h i g = Inr (0, set_fpr (shamt i) r g)"
    using fp_exact_cases [OF assms(4)] assms(1) unfolding exec_cop1_def fp_single_def Let_def
    by (elim disjE; simp add: finish_def fp_operation_def r_def getf_def setf_def)
  moreover have "rounds_to 8 23 s z (f32 r)" unfolding r_def to_f32_rounded [OF round] by (rule round)
  ultimately show ?thesis by blast
qed

text \<open>\<open>div.s $f2, $f0, $f1\<close> with 1 and 3: the result is the rounded third.\<close>

lemma f32_examples: "f32 0x3F800000 = Fin False 8388608 (- 23)" "f32 0x40400000 = Fin False 12582912 (- 22)"
  by (simp_all add: f32_def fp_decode_def fp_emin_def fp_bias_def Let_def)

lemma single_arithmetic_rounded_witness:
  "\<exists>r. exec_cop1 quiet_host 0x46010083 (zero_machine\<lparr>fpr := (\<lambda>_. 0)(0 := 0x3F800000, 1 := 0x40400000)\<rparr>)
      = Inr (0, set_fpr 2 r (zero_machine\<lparr>fpr := (\<lambda>_. 0)(0 := 0x3F800000, 1 := 0x40400000)\<rparr>))
    \<and> rounds_to 8 23 False (1 / 3) (f32 r)"
proof -
  let ?g = "zero_machine\<lparr>fpr := (\<lambda>_. 0)(0 := 0x3F800000, 1 := 0x40400000)\<rparr>"
  have fields: "rs 0x46010083 = FMT_S" "funct 0x46010083 = 0x03" "rd 0x46010083 = 0" "rt 0x46010083 = 1"
    "shamt 0x46010083 = 2"
    by code_simp+
  have "fp_exact 0x03 (f32 (fpr ?g 0)) (f32 (fpr ?g 1)) = Some (False, 1 / 3)"
    by (simp add: f32_examples fp_exact_def fp_val_def power_int_minus)
  then show ?thesis
    using single_arithmetic_rounded [of "0x46010083" ?g False "1 / 3" quiet_host]
    by (simp add: fields f32_examples fp_finite_def)
qed

text \<open>
  C14: \<open>add.d\<close>, \<open>sub.d\<close>, \<open>mul.d\<close>, \<open>div.d\<close> and \<open>sqrt.d\<close> write the double-precision number that IEEE 754
  prescribes to the destination pair, and to no other register.
\<close>

theorem double_arithmetic_rounded:
  assumes "rs i = FMT_D" "rd i < 31" "rt i < 31" "shamt i < 31"
    and "getd (rd i) g = Inr a" "getd (rt i) g = Inr b" "fp_finite (f64 a)" "fp_finite (f64 b)"
    and "fp_exact (funct i) (f64 a) (f64 b) = Some (s, z)"
  shows "\<exists>g' r. exec_cop1 h i g = Inr (0, g') \<and> getd (shamt i) g' = Inr r \<and> rounds_to 11 52 s z (f64 r)
    \<and> (\<forall>n. n = shamt i \<or> n = shamt i + 1 \<or> fpr g' n = fpr g n) \<and> reg g' = reg g \<and> memory g' = memory g"
proof -
  define ops where "ops = (if funct i = 0x04 then [a] else [a, b])"
  define r where "r = to_f64 h i ops (fp_operation 52 (funct i) (f64 a) (f64 b))"
  define g' where "g' = set_fpr (shamt i + 1) (ucast (drop_bit 32 r)) (set_fpr (shamt i) (ucast r) g)"
  have round: "rounds_to 11 52 s z (fp_round 11 52 (fp_operation 52 (funct i) (f64 a) (f64 b)))"
    by (rule fp_operation_rounded [OF _ _ assms(7-9)]) simp_all
  have exec: "exec_cop1 h i g = Inr (0, g')"
    using fp_exact_cases [OF assms(9)] assms(1,4-6) unfolding exec_cop1_def fp_double_def Let_def
    by (elim disjE; simp add: finish_def fp_operation_def r_def ops_def setd_def g'_def)
  have "shamt i \<noteq> shamt i + 1" by simp
  then have "getd (shamt i) g' = Inr r" using assms(4) by (simp add: getd_def g'_def u64_halves)
  moreover have "rounds_to 11 52 s z (f64 r)" unfolding r_def to_f64_rounded [OF round] by (rule round)
  moreover have "fpr g' n = fpr g n" if "n \<noteq> shamt i" "n \<noteq> shamt i + 1" for n
    using that by (simp add: g'_def)
  ultimately show ?thesis using exec by (auto simp: g'_def)
qed

text \<open>\<open>div.d $f4, $f0, $f2\<close> with 1 and 3.\<close>

lemma f64_examples:
  "f64 0x3FF0000000000000 = Fin False 4503599627370496 (- 52)"
  "f64 0x4008000000000000 = Fin False 6755399441055744 (- 51)"
  by (simp_all add: f64_def fp_decode_def fp_emin_def fp_bias_def Let_def)

lemma double_arithmetic_rounded_witness:
  "\<exists>g' r. exec_cop1 quiet_host 0x46220103 (zero_machine\<lparr>fpr := (\<lambda>_. 0)(1 := 0x3FF00000, 3 := 0x40080000)\<rparr>)
      = Inr (0, g') \<and> getd 4 g' = Inr r \<and> rounds_to 11 52 False (1 / 3) (f64 r)"
proof -
  let ?g = "zero_machine\<lparr>fpr := (\<lambda>_. 0)(1 := 0x3FF00000, 3 := 0x40080000)\<rparr>"
  have fields: "rs 0x46220103 = FMT_D" "funct 0x46220103 = 0x03" "rd 0x46220103 = 0" "rt 0x46220103 = 2"
    "shamt 0x46220103 = 4"
    by code_simp+
  have regs: "getd 0 ?g = Inr 0x3FF0000000000000" "getd 2 ?g = Inr 0x4008000000000000"
    by (simp_all add: getd_def)
  have "fp_exact 0x03 (f64 0x3FF0000000000000) (f64 0x4008000000000000) = Some (False, 1 / 3)"
    by (simp add: f64_examples fp_exact_def fp_val_def power_int_minus)
  then show ?thesis
    using double_arithmetic_rounded [of "0x46220103" ?g "0x3FF0000000000000" "0x4008000000000000"
        False "1 / 3" quiet_host]
    by (simp add: fields regs f64_examples fp_finite_def) blast
qed

section \<open>Comparisons and conversions\<close>

text \<open>
  The numbers on one scale: every finite single and double lies strictly between \<open>- 2 ^ 1024\<close> and
  \<open>2 ^ 1024\<close>, where the infinities are put.
\<close>

definition fp_top :: real where "fp_top = 2 powi 1024"

definition fp_point :: "fp \<Rightarrow> real" where
  "fp_point v = (case v of Inf s \<Rightarrow> (if s then - fp_top else fp_top) | _ \<Rightarrow> fp_val v)"

text \<open>What a comparison must answer: the comparison on that scale, and no for a NaN.\<close>

definition fp_compares :: "u8 \<Rightarrow> fp \<Rightarrow> fp \<Rightarrow> bool \<Rightarrow> bool" where
  "fp_compares f u v c \<longleftrightarrow>
     (if u = NaN \<or> v = NaN then \<not> c
      else c = (if f = 0x32 then fp_point u = fp_point v
        else if f = 0x3c then fp_point u < fp_point v else fp_point u \<le> fp_point v))"

definition fp_comparison :: "u8 \<Rightarrow> fp \<Rightarrow> fp \<Rightarrow> bool" where
  "fp_comparison f u v = (if f = 0x32 then fp_eq u v else if f = 0x3c then fp_lt u v else fp_le u v)"

definition fp_bounded :: "fp \<Rightarrow> bool" where
  "fp_bounded v \<longleftrightarrow> \<bar>fp_val v\<bar> < fp_top"

lemma decoded_bounded:
  assumes "2 \<le> w" "fp_bias w \<le> 1023"
  shows "fp_bounded (fp_decode w t b)"
proof (cases "fp_decode w t b")
  case (Fin s m e)
  note d = decode_finite [OF Fin assms(1)]
  have "\<bar>fp_val (fp_decode w t b)\<bar> = real m * 2 powi e" by (simp add: Fin fp_val_def abs_mult)
  also have "\<dots> < 2 ^ Suc t * 2 powi e" using d(1) by (simp flip: of_nat_less_iff [where 'a = real])
  also have "\<dots> = 2 powi (int (Suc t) + e)" by (simp add: power_int_add)
  also have "\<dots> \<le> 2 powi 1024" using d(3) assms(2) by (intro power_int_increasing) simp_all
  finally show ?thesis by (simp add: fp_bounded_def fp_top_def)
qed (simp_all add: fp_bounded_def fp_val_def fp_top_def)

lemma singles_and_doubles_bounded: "fp_bounded (f32 a)" "fp_bounded (f64 b)"
  unfolding f32_def f64_def by (rule decoded_bounded; simp add: fp_bias_def)+

lemma fp_comparison_compares:
  assumes "fp_bounded u" "fp_bounded v"
  shows "fp_compares f u v (fp_comparison f u v)"
proof (cases "u = NaN \<or> v = NaN")
  case True
  from fp_compare_nan [OF this] show ?thesis
    unfolding fp_compares_def fp_comparison_def if_P [OF True] by simp
next
  case False
  have "fp_top > 0" by (simp add: fp_top_def)
  with False assms have "fp_lt u v \<longleftrightarrow> fp_point u < fp_point v" "fp_eq u v \<longleftrightarrow> fp_point u = fp_point v"
    using fp_compare_val [of u v]
    by (cases u; cases v; auto simp: fp_point_def fp_bounded_def fp_finite_def abs_less_iff)+
  then show ?thesis
    unfolding fp_compares_def fp_comparison_def fp_le_def if_not_P [OF False] by auto
qed

text \<open>The operands of an instruction of either format; a double is in a pair of registers.\<close>

definition fp_pair :: "u8 \<Rightarrow> 'w machine \<Rightarrow> u64" where
  "fp_pair n g = ucast (fpr g n) OR push_bit 32 (ucast (fpr g (n + 1)))"

lemma getd_pair: "n < 31 \<Longrightarrow> getd n g = Inr (fp_pair n g)"
  by (simp add: getd_def fp_pair_def)

definition fp_operand :: "u32 \<Rightarrow> u8 \<Rightarrow> 'w machine \<Rightarrow> fp option" where
  "fp_operand i n g =
     (if rs i = FMT_S then Some (f32 (fpr g n))
      else if rs i = FMT_D \<and> n < 31 then Some (f64 (fp_pair n g))
      else None)"

lemma fp_operand_bounded: "fp_operand i n g = Some v \<Longrightarrow> fp_bounded v"
  by (auto simp: fp_operand_def singles_and_doubles_bounded split: if_splits)

lemma single_comparison:
  assumes "rs i = FMT_S" "funct i \<in> {0x32, 0x3c, 0x3e}"
  shows "exec_cop1 h i g
    = Inr (0, g\<lparr>fp_cond := of_bool (fp_comparison (funct i) (f32 (fpr g (rd i))) (f32 (fpr g (rt i))))\<rparr>)"
  using assms(2,1) unfolding exec_cop1_def fp_single_def Let_def insert_iff empty_iff
  by (elim disjE; simp add: finish_def fp_comparison_def getf_def set_cond_def)

lemma double_comparison:
  assumes "rs i = FMT_D" "funct i \<in> {0x32, 0x3c, 0x3e}" "rd i < 31" "rt i < 31"
  shows "exec_cop1 h i g
    = Inr (0, g\<lparr>fp_cond := of_bool (fp_comparison (funct i) (f64 (fp_pair (rd i) g)) (f64 (fp_pair (rt i) g)))\<rparr>)"
  using assms(2,1,3,4) unfolding exec_cop1_def fp_double_def Let_def insert_iff empty_iff
  by (elim disjE; simp add: finish_def fp_comparison_def getd_pair set_cond_def)

text \<open>
  C39: the comparisons of both formats (\<open>c.eq\<close>, \<open>c.lt\<close>, \<open>c.le\<close>) set the condition flag to the comparison
  of the real values, with the infinities below and above all finite numbers, whatever the bits (the
  two zeros are equal), clear it when an operand is not a number, and change nothing else.
\<close>

theorem comparisons_real:
  assumes "funct i \<in> {0x32, 0x3c, 0x3e}" "fp_operand i (rd i) g = Some u" "fp_operand i (rt i) g = Some v"
  shows "\<exists>c. exec_cop1 h i g = Inr (0, g\<lparr>fp_cond := of_bool c\<rparr>) \<and> fp_compares (funct i) u v c"
proof (intro exI conjI)
  show "exec_cop1 h i g = Inr (0, g\<lparr>fp_cond := of_bool (fp_comparison (funct i) u v)\<rparr>)"
    using assms single_comparison [of i h g] double_comparison [of i h g]
    by (auto simp only: fp_operand_def option.inject split: if_splits)
qed (rule fp_comparison_compares [OF assms(2,3) [THEN fp_operand_bounded]])

lemma single_comparison_real:
  assumes "rs i = FMT_S" "funct i \<in> {0x32, 0x3c, 0x3e}"
  shows "\<exists>c. exec_cop1 h i g = Inr (0, g\<lparr>fp_cond := of_bool c\<rparr>)
    \<and> fp_compares (funct i) (f32 (fpr g (rd i))) (f32 (fpr g (rt i))) c"
  using single_comparison [OF assms, of h g] fp_comparison_compares [OF singles_and_doubles_bounded(1,1)]
  by blast

text \<open>\<open>c.eq.s $f0, $f1\<close> finds the two zeros equal.\<close>

lemma comparisons_real_witness:
  "exec_cop1 quiet_host 0x46010032 (zero_machine\<lparr>fpr := (\<lambda>_. 0)(1 := 0x80000000)\<rparr>)
    = Inr (0, zero_machine\<lparr>fpr := (\<lambda>_. 0)(1 := 0x80000000), fp_cond := 1\<rparr>)"
proof -
  have fields: "rs 0x46010032 = FMT_S" "funct 0x46010032 = 0x32" "rd 0x46010032 = 0" "rt 0x46010032 = 1"
    by code_simp+
  have zeros: "f32 0 = Fin False 0 (- 149)" "f32 0x80000000 = Fin True 0 (- 149)"
    by (simp_all add: f32_def fp_decode_def fp_emin_def fp_bias_def Let_def)
  show ?thesis
    using comparisons_real [of "0x46010032" "zero_machine\<lparr>fpr := (\<lambda>_. 0)(1 := 0x80000000)\<rparr>"
        "Fin False 0 (- 149)" "Fin True 0 (- 149)" quiet_host]
    by (auto simp: fields fp_operand_def fp_compares_def fp_point_def fp_val_def zeros zero_machine_def)
qed

text \<open>The integer a conversion delivers: the value rounded toward zero, if it is an \<open>int32_t\<close>.\<close>

definition int_of_fp :: "fp \<Rightarrow> int option" where
  "int_of_fp v = (if fp_finite v \<and> fits_signed 32 (toward_zero (fp_val v))
     then Some (toward_zero (fp_val v)) else None)"

lemma fp_to_int32_eq:
  "fp_to_int32 v = (case int_of_fp v of None \<Rightarrow> Inl Conversion_range | Some n \<Rightarrow> Inr (word_of_int n))"
proof (cases "fp_finite v")
  case True
  then show ?thesis by (simp add: fp_to_int32_def int_of_fp_def fp_trunc_val)
next
  case False
  then show ?thesis by (cases v) (simp_all add: fp_to_int32_def int_of_fp_def fp_finite_def)
qed

lemma single_to_word_truncates:
  assumes "rs i = FMT_S" "funct i = 0x24"
  shows "exec_cop1 h i g =
    (case int_of_fp (f32 (fpr g (rd i))) of
       None \<Rightarrow> Inl Conversion_range
     | Some n \<Rightarrow> Inr (0, set_fpr (shamt i) (word_of_int n) g))"
  using assms unfolding exec_cop1_def fp_single_def Let_def
  by (cases "int_of_fp (f32 (fpr g (rd i)))") (simp_all add: finish_def fp_to_int32_eq getf_def setw_def)

text \<open>
  C40: \<open>cvt.w.s\<close> and \<open>cvt.w.d\<close> write the value of their operand rounded toward zero, and are undefined in
  C exactly when the operand is not finite or that integer is no \<open>int32_t\<close>.
\<close>

theorem conversions_truncate:
  assumes "funct i = 0x24" "fp_operand i (rd i) g = Some v"
  shows "exec_cop1 h i g =
    (case int_of_fp v of
       None \<Rightarrow> Inl Conversion_range
     | Some n \<Rightarrow> Inr (0, set_fpr (shamt i) (word_of_int n) g))"
proof (cases "rs i = FMT_S")
  case True
  with assms show ?thesis by (simp add: single_to_word_truncates fp_operand_def)
next
  case False
  with assms have "rs i = FMT_D" "rd i < 31" "v = f64 (fp_pair (rd i) g)"
    by (auto simp: fp_operand_def split: if_splits)
  with assms(1) show ?thesis
    unfolding exec_cop1_def fp_double_def Let_def
    by (cases "int_of_fp v") (simp_all add: finish_def fp_to_int32_eq getd_pair setw_def)
qed

text \<open>\<open>cvt.w.s $f2, $f0\<close> makes -3 of -3.5.\<close>

lemma conversions_truncate_witness:
  "exec_cop1 quiet_host 0x460000A4 (zero_machine\<lparr>fpr := (\<lambda>_. 0)(0 := 0xC0600000)\<rparr>)
    = Inr (0, set_fpr 2 (- 3) (zero_machine\<lparr>fpr := (\<lambda>_. 0)(0 := 0xC0600000)\<rparr>))"
proof -
  have fields: "rs 0x460000A4 = FMT_S" "funct 0x460000A4 = 0x24" "rd 0x460000A4 = 0" "shamt 0x460000A4 = 2"
    by code_simp+
  have "f32 0xC0600000 = Fin True 14680064 (- 22)"
    by (simp add: f32_def fp_decode_def fp_emin_def fp_bias_def Let_def)
  then have "int_of_fp (f32 0xC0600000) = Some (- 3)"
    by (simp add: int_of_fp_def fp_finite_def fp_val_def power_int_minus toward_zero_def fits_signed_def
        ceiling_minus)
  then show ?thesis
    using conversions_truncate [of "0x460000A4" "zero_machine\<lparr>fpr := (\<lambda>_. 0)(0 := 0xC0600000)\<rparr>" _ quiet_host]
    by (simp add: fields fp_operand_def)
qed

text \<open>Every single is a double.\<close>

lemma single_in_double: "fp_finite (f32 b) \<Longrightarrow> in_format 11 52 (fp_val (f32 b))"
proof -
  assume "fp_finite (f32 b)"
  then obtain s m e where v: "f32 b = Fin s m e" by (auto simp: fp_finite_def split: fp.splits)
  have "m < 2 ^ Suc 23" "fp_emin 8 23 \<le> e" "e + int 23 \<le> fp_bias 8"
    by (rule decode_finite [OF v [unfolded f32_def]]; simp)+
  then have "m < 2 ^ Suc 52" "fp_emin 11 52 \<le> e" "e + int 52 \<le> fp_bias 11"
    by (simp_all add: fp_emin_def fp_bias_def)
  moreover have "\<bar>fp_val (f32 b)\<bar> = real m * 2 powi e" by (simp add: v fp_val_def abs_mult)
  ultimately show ?thesis unfolding in_format_def by blast
qed

lemma finite_rounded:
  assumes "fp_finite v" "2 \<le> w" "1 \<le> t"
  shows "rounds_to w t (fp_sign v) (fp_val v) (fp_round w t v)"
proof -
  obtain s m e where "v = Fin s m e" using assms(1) by (rule finite_cases)
  with fp_round_exact [OF assms(2,3), of s m e] show ?thesis by simp
qed

text \<open>\<open>cvt.d.s\<close> keeps the value of every finite single, and its sign.\<close>

lemma single_to_double:
  assumes "rs i = FMT_S" "funct i = 0x21" "shamt i < 31" "fp_finite (f32 (fpr g (rd i)))"
  shows "\<exists>g' d. exec_cop1 h i g = Inr (0, g') \<and> getd (shamt i) g' = Inr d \<and> fp_finite (f64 d)
    \<and> fp_val (f64 d) = fp_val (f32 (fpr g (rd i))) \<and> fp_sign (f64 d) = fp_sign (f32 (fpr g (rd i)))"
proof -
  let ?v = "f32 (fpr g (rd i))"
  define d where "d = to_f64 h i [ucast (fpr g (rd i)), ucast (fpr g (rt i))] ?v"
  define g' where "g' = set_fpr (shamt i + 1) (ucast (drop_bit 32 d)) (set_fpr (shamt i) (ucast d) g)"
  have round: "rounds_to 11 52 (fp_sign ?v) (fp_val ?v) (fp_round 11 52 ?v)"
    by (rule finite_rounded [OF assms(4)]) simp_all
  have d: "f64 d = fp_round 11 52 ?v" unfolding d_def by (rule to_f64_rounded [OF round])
  have kept: "fp_finite (f64 d)" "fp_val (f64 d) = fp_val ?v"
    unfolding d by (rule rounds_to_format [OF round single_in_double [OF assms(4)]])+
  have "exec_cop1 h i g = Inr (0, g')"
    using assms(1-3) unfolding exec_cop1_def fp_single_def Let_def
    by (simp add: finish_def setd_def g'_def d_def getf_def)
  moreover have "shamt i \<noteq> shamt i + 1" by simp
  then have "getd (shamt i) g' = Inr d" using assms(3) by (simp add: getd_def g'_def u64_halves)
  moreover have "fp_sign (f64 d) = fp_sign ?v"
    unfolding d by (rule rounds_to_sign [OF round assms(4) kept(1) [unfolded d]])
  ultimately show ?thesis using kept by blast
qed

text \<open>
  C37: \<open>cvt.s.d\<close> writes the double rounded to the nearest single; after \<open>cvt.d.s\<close> of a finite single it
  restores its 32 bits, the sign of a zero included.
\<close>

theorem single_double_round_trip:
  assumes "rs i = FMT_S" "funct i = 0x21" "rs j = FMT_D" "funct j = 0x20" "rd j = shamt i" "shamt i < 31"
    and "fp_finite (f32 (fpr g (rd i)))"
  shows "\<exists>g1 g2. exec_cop1 h i g = Inr (0, g1) \<and> exec_cop1 h j g1 = Inr (0, g2)
    \<and> fpr g2 (shamt j) = fpr g (rd i)"
proof -
  let ?b = "fpr g (rd i)"
  obtain g1 d where d: "exec_cop1 h i g = Inr (0, g1)" "getd (shamt i) g1 = Inr d" "fp_finite (f64 d)"
    "fp_val (f64 d) = fp_val (f32 ?b)" "fp_sign (f64 d) = fp_sign (f32 ?b)"
    using single_to_double [OF assms(1,2,6,7)] by blast
  have "rounds_to 8 23 (fp_sign (f32 ?b)) (fp_val (f32 ?b)) (fp_round 8 23 (f64 d))"
    using finite_rounded [OF d(3), of 8 23] by (simp add: d(4,5))
  then have "fp_round 8 23 (f64 d) = f32 ?b"
    by (rule rounds_to_decoded [OF _ assms(7) f32_def]) simp
  moreover have "unat ?b < 2 ^ LENGTH(32)" by (rule unsigned_less)
  ultimately have "to_f32 h j [d] (f64 d) = ?b"
    using encode_decode [of 8 23 "unat ?b"] assms(7) by (simp add: to_f32_def f32_def)
  then have "exec_cop1 h j g1 = Inr (0, set_fpr (shamt j) ?b g1)"
    using assms(3-5) d(2) unfolding exec_cop1_def fp_double_def Let_def
    by (simp add: finish_def setf_def)
  with d(1) show ?thesis by auto
qed

text \<open>\<open>cvt.d.s $f2, $f0\<close> and \<open>cvt.s.d $f4, $f2\<close> with 1 in \<open>$f0\<close>.\<close>

lemma single_double_round_trip_witness:
  "\<exists>g1 g2. exec_cop1 quiet_host 0x460000A1 (zero_machine\<lparr>fpr := (\<lambda>_. 0)(0 := 0x3F800000)\<rparr>) = Inr (0, g1)
     \<and> exec_cop1 quiet_host 0x46201120 g1 = Inr (0, g2) \<and> fpr g2 4 = 0x3F800000"
proof -
  have fields: "rs 0x460000A1 = FMT_S" "funct 0x460000A1 = 0x21" "rs 0x46201120 = FMT_D"
    "funct 0x46201120 = 0x20" "rd 0x46201120 = 2" "shamt 0x460000A1 = 2" "shamt 0x46201120 = 4"
    "rd 0x460000A1 = 0"
    by code_simp+
  show ?thesis
    using single_double_round_trip [of "0x460000A1" "0x46201120"
        "zero_machine\<lparr>fpr := (\<lambda>_. 0)(0 := 0x3F800000)\<rparr>" quiet_host]
    by (simp add: fields f32_examples fp_finite_def)
qed

end
