(* ===== verification/Loader.thy ===== *)
theory Loader
  imports Syscalls
begin

text \<open>
  Loading a program (src/utils.c, src/map_elf.c): the options, the test for an ELF file, the flat
  binary copied to address 0 and the segments of an ELF file copied to theirs. The operating system
  is an argument: the file, and which of the calls fail.
\<close>

section \<open>The operating system\<close>

text \<open>
  The calls that can fail. \<open>fails\<close> says which do and \<open>error_text\<close> is \<open>strerror(errno)\<close> after one;
  \<open>contents\<close> are the bytes of a regular file, which \<open>read\<close> and \<open>pread\<close> return up to its end.
  \<open>mmap\<close> also fails for an empty file, \<open>calloc\<close> and \<open>malloc\<close> are taken to succeed.
\<close>

datatype os_call =
    Stat | Open | Mmap_elf | Read_header | Read_segments | Mmap_file | Close | Mmap_memory
  | Munmap_file | Read_segment nat | Munmap_memory

record load_env =
  contents :: "u8 list"
  regular :: bool
  fails :: "os_call \<Rightarrow> bool"
  error_text :: "os_call \<Rightarrow> string"

section \<open>ELF structures\<close>

text \<open>\<open>Elf32_Ehdr\<close> and \<open>Elf32_Phdr\<close> of elf.h, the fields the sources use, as the host reads their bytes.\<close>

record elf_header =
  e_ident :: "u8 list"
  e_type :: nat
  e_machine :: nat
  e_version :: nat
  e_entry :: nat
  e_phoff :: nat
  e_phentsize :: nat
  e_phnum :: nat

record prg_header =
  p_type :: nat
  p_offset :: nat
  p_vaddr :: nat
  p_filesz :: nat
  p_memsz :: nat

definition le_nat :: "nat \<Rightarrow> nat \<Rightarrow> u8 list \<Rightarrow> nat" where
  "le_nat n k bs = foldr (\<lambda>b v. unat b + 256 * v) (take n (drop k bs)) 0"

definition read_ehdr :: "u8 list \<Rightarrow> elf_header" where
  "read_ehdr bs = \<lparr>e_ident = take 16 bs, e_type = le_nat 2 16 bs, e_machine = le_nat 2 18 bs,
     e_version = le_nat 4 20 bs, e_entry = le_nat 4 24 bs, e_phoff = le_nat 4 28 bs,
     e_phentsize = le_nat 2 42 bs, e_phnum = le_nat 2 44 bs\<rparr>"

definition read_phdr :: "u8 list \<Rightarrow> prg_header" where
  "read_phdr bs = \<lparr>p_type = le_nat 4 0 bs, p_offset = le_nat 4 4 bs, p_vaddr = le_nat 4 8 bs,
     p_filesz = le_nat 4 16 bs, p_memsz = le_nat 4 20 bs\<rparr>"

abbreviation EI_CLASS :: nat where "EI_CLASS \<equiv> 4"
abbreviation EI_DATA :: nat where "EI_DATA \<equiv> 5"
abbreviation EI_VERSION :: nat where "EI_VERSION \<equiv> 6"
abbreviation EI_OSABI :: nat where "EI_OSABI \<equiv> 7"
abbreviation ET_EXEC :: nat where "ET_EXEC \<equiv> 2"
abbreviation EM_MIPS :: nat where "EM_MIPS \<equiv> 8"
abbreviation EV_CURRENT :: nat where "EV_CURRENT \<equiv> 1"
abbreviation PT_LOAD :: nat where "PT_LOAD \<equiv> 1"

definition check_header :: "elf_header \<Rightarrow> bool" where
  "check_header hdr =
     (if \<exists>i<4. [0x7F, 0x45, 0x4C, 0x46] ! i \<noteq> e_ident hdr ! i then False
      else if e_ident hdr ! EI_CLASS \<noteq> 1 then False
      else if e_ident hdr ! EI_DATA \<noteq> 1 then False
      else if e_ident hdr ! EI_VERSION \<noteq> 1 then False
      else if e_ident hdr ! EI_OSABI \<noteq> 0 then False
      else if e_type hdr \<noteq> ET_EXEC then False
      else if e_machine hdr \<noteq> EM_MIPS then False
      else if e_version hdr \<noteq> EV_CURRENT then False
      else if e_phoff hdr \<noteq> 0x34 then False
      else True)"

section \<open>The state\<close>

text \<open>
  \<open>struct global\<close>: the machine and what the loader keeps beside it. \<open>elf\<close> is \<open>None\<close> while the field is
  uninitialised. \<open>phdr_bytes\<close> is the block \<open>prg_header\<close> points to, an array of structures of 32 bytes.
  Nothing uses the table \<open>address_map\<close> (\<open>map\<close>) and its index but for clearing them.
\<close>

record 'w global =
  cpu_state :: "'w machine"
  address_map :: "(u32 \<times> u32) list"
  map_index :: nat
  g_file_size :: nat
  code_size :: nat
  debug_on :: bool
  jit_on :: bool
  elf :: "bool option"
  ehdr :: elf_header
  phdr_bytes :: "u8 list"

definition log_error :: "string \<Rightarrow> int \<Rightarrow> string \<Rightarrow> 'w global \<Rightarrow> 'w global" where
  "log_error src line msg g = g\<lparr>cpu_state := logger src line msg (cpu_state g)\<rparr>"

section \<open>Opening the file\<close>

text \<open>Whether a descriptor was opened, and the state.\<close>

definition open_file :: "load_env \<Rightarrow> string \<Rightarrow> 'w global \<Rightarrow> bool \<times> 'w global" where
  "open_file env path g =
     (if fails env Stat
      then (False, log_error ''utils.c'' 54 (''stat('' @ path @ '') error: '' @ error_text env Stat) g)
      else if \<not> regular env
      then (False, log_error ''utils.c'' 60 (path @ '' is not an ordinary file'') g)
      else if MEM_SIZE \<le> length (contents env)
      then (False, log_error ''utils.c'' 66 (''Not enough memory: available '' @ fmt_u MEM_SIZE) g)
      else if fails env Open
      then (False, log_error ''utils.c'' 74 (''open('' @ path @ '') error: '' @ error_text env Open) g)
      else (True, g\<lparr>g_file_size := length (contents env)\<rparr>))"

text \<open>
  The program headers are read into zeroed memory. Their size is a product of two \<open>uint16_t\<close> in
  \<open>int\<close>, which can overflow.
\<close>

definition binary_or_elf :: "load_env \<Rightarrow> string \<Rightarrow> 'w global \<Rightarrow> (bool \<times> 'w global) result" where
  "binary_or_elf env path g =
     (let (ok, g) = open_file env path g in
      if \<not> ok then Inr (False, g)
      else if fails env Mmap_elf \<or> g_file_size g = 0
      then Inr (False, log_error ''utils.c'' 89
        (''Error mapping file '' @ path @ '': '' @ error_text env Mmap_elf) g)
      else if fails env Read_header \<or> length (take 52 (contents env)) \<noteq> 52
      then Inr (False, log_error ''utils.c'' 96 ''Cannot read elf header'' g)
      else let hdr = read_ehdr (take 52 (contents env)) in
        if check_header hdr
        then let size = e_phnum hdr * e_phentsize hdr;
              got = take size (drop (e_phoff hdr) (contents env)) in
          if \<not> fits_signed 32 (int size) then Inl Signed_overflow
          else if fails env Read_segments
          then Inr (False, log_error ''utils.c'' 105 ''Cannot read program header'' g)
          else let g = (if log_on (cpu_state g) then log_error ''utils.c'' 109 ''Executing ELF32 file'' g else g) in
            Inr (True, g\<lparr>elf := Some True, ehdr := hdr,
              phdr_bytes := got @ replicate (size - length got) 0\<rparr>)
        else Inr (True, g\<lparr>elf := Some False\<rparr>))"

section \<open>Flat binaries\<close>

text \<open>The memory after \<open>mmap\<close>: zero-filled.\<close>

definition map_memory :: "'w global \<Rightarrow> 'w global" where
  "map_memory g = g\<lparr>cpu_state := (cpu_state g)\<lparr>memory := (\<lambda>_. 0)\<rparr>\<rparr>"

definition put_bytes :: "nat \<Rightarrow> u8 list \<Rightarrow> 'w global \<Rightarrow> 'w global" where
  "put_bytes a bs g = g\<lparr>cpu_state := poke_list a bs (cpu_state g)\<rparr>"

text \<open>\<open>glob->memory\<close> is set only at the end, when nothing failed.\<close>

definition init_memory :: "load_env \<Rightarrow> 'w global \<Rightarrow> bool \<times> 'w global" where
  "init_memory env g =
     (if fails env Mmap_file
      then (False, log_error ''utils.c'' 126 (''Error mapping file: '' @ error_text env Mmap_file) g)
      else if fails env Close
      then (False, log_error ''utils.c'' 132 (''Error closing file: '' @ error_text env Close) g)
      else if fails env Mmap_memory
      then let g1 = log_error ''utils.c'' 140
            (''Error mapping program memory: '' @ error_text env Mmap_memory) g in
        (False, if fails env Munmap_file
          then log_error ''utils.c'' 142 (''Error unmapping file: '' @ error_text env Munmap_file) g1
          else g1)
      else if fails env Munmap_file
      then (False, log_error ''utils.c'' 149
        (''Error unmapping program memory: '' @ error_text env Munmap_file) g)
      else (True, put_bytes 0 (take (g_file_size g) (contents env)) (map_memory g)))"

section \<open>ELF files\<close>

text \<open>\<open>prg_header[i]\<close>: an access past the block is undefined.\<close>

definition prg_header_at :: "nat \<Rightarrow> 'w global \<Rightarrow> prg_header result" where
  "prg_header_at i g =
     (if length (phdr_bytes g) < 32 * (i + 1) then Inl Out_of_bounds
      else Inr (read_phdr (take 32 (drop (32 * i) (phdr_bytes g)))))"

text \<open>The loops over the headers from \<open>i\<close> on, \<open>n\<close> of them.\<close>

fun program_size_loop :: "nat \<Rightarrow> nat \<Rightarrow> 'w global \<Rightarrow> 'w global result" where
  "program_size_loop i 0 g = Inr g"
| "program_size_loop i (Suc n) g =
     rbind (prg_header_at i g) (\<lambda>ph.
       program_size_loop (Suc i) n
         (if p_type ph = PT_LOAD then g\<lparr>code_size := code_size g + p_memsz ph\<rparr> else g))"

definition get_program_size :: "'w global \<Rightarrow> 'w global result" where
  "get_program_size g = program_size_loop 0 (e_phnum (ehdr g)) (g\<lparr>code_size := 0\<rparr>)"

fun copy_segments :: "load_env \<Rightarrow> nat \<Rightarrow> nat \<Rightarrow> 'w global \<Rightarrow> (bool \<times> 'w global) result" where
  "copy_segments env i 0 g = Inr (True, g)"
| "copy_segments env i (Suc n) g =
     rbind (prg_header_at i g) (\<lambda>ph.
       if p_type ph \<noteq> PT_LOAD then copy_segments env (Suc i) n g
       else if MEM_SIZE < p_vaddr ph + p_filesz ph
       then Inr (False, log_error ''map_elf.c'' 56 ''PT_LOAD segment out of bounds'' g)
       else if fails env (Read_segment i)
       then Inr (False, log_error ''map_elf.c'' 62
         (''Cannot read PT_LOAD segment: '' @ error_text env (Read_segment i)) g)
       else copy_segments env (Suc i) n
         (put_bytes (p_vaddr ph) (take (p_filesz ph) (drop (p_offset ph) (contents env))) g))"

definition map_elf :: "load_env \<Rightarrow> 'w global \<Rightarrow> (bool \<times> 'w global) result" where
  "map_elf env g =
     rbind (get_program_size g) (\<lambda>g.
       if MEM_SIZE \<le> code_size g
       then Inr (False, log_error ''map_elf.c'' 32 (''Not enough memory: available '' @ fmt_u MEM_SIZE) g)
       else if fails env Mmap_memory
       then Inr (False, log_error ''map_elf.c'' 42
         (''Error mapping program memory: '' @ error_text env Mmap_memory) g)
       else rbind (copy_segments env 0 (e_phnum (ehdr g)) (map_memory g)) (\<lambda>(ok, g).
         if \<not> ok then Inr (False, g)
         else Inr (True, g\<lparr>cpu_state := (cpu_state g)\<lparr>pc := of_nat (e_entry (ehdr g))\<rparr>\<rparr>)))"

section \<open>Initialisation\<close>

text \<open>\<open>-d\<close>, \<open>-j\<close> and \<open>-l\<close>, anywhere on the command line; the second test of the source is always true.\<close>

fun parse_option :: "string \<Rightarrow> 'w global \<Rightarrow> 'w global" where
  "parse_option argi g =
     (case argi of
        c # o' # _ \<Rightarrow>
          if c = CHR ''-'' \<and> (o' \<noteq> CHR ''-'' \<or> o' \<noteq> CHR '' '')
          then (if o' = CHR ''d'' then g\<lparr>debug_on := True\<rparr>
            else if o' = CHR ''j'' then g\<lparr>jit_on := True\<rparr>
            else if o' = CHR ''l'' then g\<lparr>cpu_state := (cpu_state g)\<lparr>log_on := True\<rparr>\<rparr>
            else g)
          else g
      | _ \<Rightarrow> g)"

definition reset_global :: "'w global \<Rightarrow> 'w global" where
  "reset_global g =
     g\<lparr>cpu_state := (cpu_state g)\<lparr>reg := (\<lambda>_. 0), fpr := (\<lambda>_. 0), hi := 0, lo := 0, fp_cond := 0,
         log_on := False\<rparr>,
       debug_on := False, jit_on := False, elf := None\<rparr>"

text \<open>
  \<open>init_global\<close>: \<open>g\<close> is the block \<open>malloc\<close> returns, with arbitrary contents. The result is the value
  returned. After a failure of \<open>binary_or_elf\<close>, \<open>elf\<close> is read uninitialised.
\<close>

definition init_global :: "load_env \<Rightarrow> string list \<Rightarrow> 'w global \<Rightarrow> (bool \<times> 'w global) result" where
  "init_global env argv g =
     (let g = fold parse_option argv (reset_global g);
          g = g\<lparr>cpu_state := (cpu_state g)\<lparr>pc := 0\<rparr>\<rparr> in
      rbind (binary_or_elf env (last argv) g) (\<lambda>(ok, g).
        case elf g of
          None \<Rightarrow> Inl Uninitialised
        | Some is_elf \<Rightarrow>
            rbind (if is_elf then map_elf env g else Inr (init_memory env g)) (\<lambda>(ok, g).
              if \<not> ok then Inr (False, g)
              else Inr (True, g\<lparr>cpu_state := set_reg SP (of_nat (MEM_SIZE - 4)) (cpu_state g),
                address_map := replicate 100 (0, 0), map_index := 0\<rparr>))))"

definition clean_exit :: "load_env \<Rightarrow> 'w global \<Rightarrow> 'w global" where
  "clean_exit env g =
     (if fails env Munmap_memory
      then log_error ''utils.c'' 212 (''Error freeing memory: '' @ error_text env Munmap_memory) g
      else g)"

end
