(* ===== verification/Loader_Correct.thy ===== *)
theory Loader_Correct
  imports Loader Cpu
begin

text \<open>
  The loader is correct: which headers are accepted, what the memory holds after loading, and when
  loading fails or reads uninitialised memory.
\<close>

section \<open>Bytes in the memory\<close>

lemma poke_list_memory:
  assumes "k + length bs \<le> 4294967296"
  shows "memory (poke_list k bs g) a
    = (if k \<le> unat a \<and> unat a < k + length bs then bs ! (unat a - k) else memory g a)"
  using assms
proof (induction bs arbitrary: k g)
  case (Cons b bs)
  have "unat (of_nat k :: u32) = k" using Cons.prems by (simp add: unat_of_nat take_bit_nat_eq_self)
  then have here: "a = of_nat k \<longleftrightarrow> unat a = k" by (simp add: word_unat_eq_iff)
  have IH: "memory (poke_list (Suc k) bs x) a = (if Suc k \<le> unat a \<and> unat a < Suc k + length bs
      then bs ! (unat a - Suc k) else memory x a)" for x :: "'a machine"
    using Cons.prems by (intro Cons.IH) simp
  consider "unat a < k" | "unat a = k" | "k < unat a" by linarith
  then show ?case
    unfolding poke_list.simps IH using here by cases (auto simp: nth_Cons')
qed auto

lemma poke_list_frame [simp]:
  "pc (poke_list k bs g) = pc g" "log_on (poke_list k bs g) = log_on g"
  by (induction bs arbitrary: k g) simp_all

lemma log_error_simps [simp]:
  "memory (cpu_state (log_error f l m g)) = memory (cpu_state g)"
  "reg (cpu_state (log_error f l m g)) = reg (cpu_state g)"
  "pc (cpu_state (log_error f l m g)) = pc (cpu_state g)"
  "g_file_size (log_error f l m g) = g_file_size g" "elf (log_error f l m g) = elf g"
  "ehdr (log_error f l m g) = ehdr g" "phdr_bytes (log_error f l m g) = phdr_bytes g"
  by (simp_all add: log_error_def logger_def)

lemma put_bytes_simps [simp]:
  "ehdr (put_bytes a bs g) = ehdr g" "phdr_bytes (put_bytes a bs g) = phdr_bytes g"
  "reg (cpu_state (put_bytes a bs g)) = reg (cpu_state g)"
  "pc (cpu_state (put_bytes a bs g)) = pc (cpu_state g)"
  "prg_header_at i (put_bytes a bs g) = prg_header_at i g"
  by (simp_all add: put_bytes_def prg_header_at_def)

lemma map_memory_simps [simp]:
  "ehdr (map_memory g) = ehdr g" "phdr_bytes (map_memory g) = phdr_bytes g"
  "memory (cpu_state (map_memory g)) = (\<lambda>_. 0)" "reg (cpu_state (map_memory g)) = reg (cpu_state g)"
  "pc (cpu_state (map_memory g)) = pc (cpu_state g)"
  by (simp_all add: map_memory_def)

lemma le_nat_bound: "le_nat n k bs < 256 ^ n"
proof -
  have "foldr (\<lambda>b v. unat b + 256 * v) xs 0 < 256 ^ length xs" for xs :: "u8 list"
  proof (induction xs)
    case (Cons b xs)
    then show ?case using unat_bounds(1) [of b] by simp
  qed simp
  from this [of "take n (drop k bs)"]
  have "le_nat n k bs < 256 ^ length (take n (drop k bs))" by (simp add: le_nat_def)
  also have "\<dots> \<le> 256 ^ n" by (rule power_increasing) simp_all
  finally show ?thesis .
qed

section \<open>ELF segments\<close>

definition prg_headers :: "'w global \<Rightarrow> prg_header list" where
  "prg_headers g = map (\<lambda>i. read_phdr (take 32 (drop (32 * i) (phdr_bytes g)))) [0..<e_phnum (ehdr g)]"

definition segment_fits :: "prg_header \<Rightarrow> bool" where
  "segment_fits ph \<longleftrightarrow> p_type ph = PT_LOAD \<longrightarrow> p_vaddr ph + p_filesz ph \<le> MEM_SIZE"

text \<open>The byte a segment puts at an address, and the memory image: the last segment wins.\<close>

definition segment_byte :: "u8 list \<Rightarrow> u32 \<Rightarrow> prg_header \<Rightarrow> u8 option" where
  "segment_byte bytes a ph =
     (if p_type ph = PT_LOAD \<and> p_vaddr ph \<le> unat a \<and> unat a < p_vaddr ph + p_filesz ph
        \<and> p_offset ph + (unat a - p_vaddr ph) < length bytes
      then Some (bytes ! (p_offset ph + (unat a - p_vaddr ph))) else None)"

definition overlay :: "u8 list \<Rightarrow> u32 \<Rightarrow> u8 \<Rightarrow> prg_header \<Rightarrow> u8" where
  "overlay bytes a b ph = (case segment_byte bytes a ph of None \<Rightarrow> b | Some c \<Rightarrow> c)"

lemma put_segment:
  assumes "p_type ph = PT_LOAD" "p_vaddr ph + p_filesz ph \<le> MEM_SIZE"
  shows "memory (cpu_state (put_bytes (p_vaddr ph) (take (p_filesz ph) (drop (p_offset ph) bytes)) g)) a
    = overlay bytes a (memory (cpu_state g) a) ph"
proof -
  let ?bs = "take (p_filesz ph) (drop (p_offset ph) bytes)"
  have "p_vaddr ph + length ?bs \<le> 4294967296" using assms(2) by simp
  then have "memory (cpu_state (put_bytes (p_vaddr ph) ?bs g)) a
      = (if p_vaddr ph \<le> unat a \<and> unat a < p_vaddr ph + length ?bs then ?bs ! (unat a - p_vaddr ph)
         else memory (cpu_state g) a)"
    unfolding put_bytes_def by (simp add: poke_list_memory)
  also have "\<dots> = overlay bytes a (memory (cpu_state g) a) ph"
    using assms(1) by (auto simp: overlay_def segment_byte_def)
  finally show ?thesis .
qed

lemma program_size:
  assumes "32 * (i + n) \<le> length (phdr_bytes g)"
  shows "program_size_loop i n g = Inr (g\<lparr>code_size := code_size g + sum_list (map p_memsz
    (filter (\<lambda>ph. p_type ph = PT_LOAD)
      (map (\<lambda>i. read_phdr (take 32 (drop (32 * i) (phdr_bytes g)))) [i..<i + n])))\<rparr>)"
  using assms
proof (induction n arbitrary: i g)
  case (Suc n)
  have upt: "[i..<i + Suc n] = i # [Suc i..<Suc i + n]" by (simp add: upt_conv_Cons del: upt_Suc)
  have at: "prg_header_at i g = Inr (read_phdr (take 32 (drop (32 * i) (phdr_bytes g))))"
    using Suc.prems by (simp add: prg_header_at_def)
  have more: "32 * (Suc i + n) \<le> length (phdr_bytes g)" using Suc.prems by simp
  note IH1 = Suc.IH [OF more]
  have IH2: "program_size_loop (Suc i) n (g\<lparr>code_size := c\<rparr>) = Inr (g\<lparr>code_size := c + sum_list (map p_memsz
    (filter (\<lambda>ph. p_type ph = PT_LOAD)
      (map (\<lambda>i. read_phdr (take 32 (drop (32 * i) (phdr_bytes g)))) [Suc i..<Suc i + n])))\<rparr>)" for c
    using Suc.IH [of "Suc i" "g\<lparr>code_size := c\<rparr>"] more by simp
  show ?case unfolding upt by (simp add: at IH1 IH2 add.assoc del: upt_Suc)
qed simp

lemma copy_segments_image:
  assumes "32 * (i + n) \<le> length (phdr_bytes g)" "\<forall>k. \<not> fails env (Read_segment k)"
  shows "\<exists>g'. copy_segments env i n g = Inr (\<forall>ph\<in>set (map (\<lambda>i. read_phdr (take 32 (drop (32 * i)
        (phdr_bytes g)))) [i..<i + n]). segment_fits ph, g')
    \<and> ehdr g' = ehdr g \<and> reg (cpu_state g') = reg (cpu_state g)
    \<and> ((\<forall>ph\<in>set (map (\<lambda>i. read_phdr (take 32 (drop (32 * i) (phdr_bytes g)))) [i..<i + n]).
          segment_fits ph) \<longrightarrow>
        (\<forall>a. memory (cpu_state g') a = foldl (overlay (contents env) a) (memory (cpu_state g) a)
          (map (\<lambda>i. read_phdr (take 32 (drop (32 * i) (phdr_bytes g)))) [i..<i + n])))"
  using assms(1)
proof (induction n arbitrary: i g)
  case (Suc n)
  define ph where "ph = read_phdr (take 32 (drop (32 * i) (phdr_bytes g)))"
  have upt: "[i..<i + Suc n] = i # [Suc i..<Suc i + n]" by (simp add: upt_conv_Cons del: upt_Suc)
  have at: "prg_header_at i g = Inr ph"
    using Suc.prems by (simp add: prg_header_at_def ph_def)
  have more: "32 * (Suc i + n) \<le> length (phdr_bytes g)" using Suc.prems by simp
  consider "p_type ph \<noteq> PT_LOAD" | "p_type ph = PT_LOAD" "MEM_SIZE < p_vaddr ph + p_filesz ph"
    | "p_type ph = PT_LOAD" "p_vaddr ph + p_filesz ph \<le> MEM_SIZE" by linarith
  then show ?case
  proof cases
    case 1
    then have "overlay (contents env) a b ph = b" "segment_fits ph" for a b
      by (simp_all add: overlay_def segment_byte_def segment_fits_def)
    then show ?thesis
      using Suc.IH [OF more] 1 unfolding upt by (simp add: at ph_def [symmetric] del: upt_Suc)
  next
    case 2
    then have "\<not> segment_fits ph" by (simp add: segment_fits_def)
    with 2 show ?thesis unfolding upt by (simp add: at ph_def [symmetric] del: upt_Suc)
  next
    case 3
    let ?g = "put_bytes (p_vaddr ph) (take (p_filesz ph) (drop (p_offset ph) (contents env))) g"
    have "segment_fits ph" using 3 by (simp add: segment_fits_def)
    moreover have "copy_segments env i (Suc n) g = copy_segments env (Suc i) n ?g"
      using 3 assms(2) by (simp add: at)
    ultimately show ?thesis
      using Suc.IH [of "Suc i" ?g] more put_segment [OF 3, of "contents env" g]
      unfolding upt by (simp add: ph_def [symmetric] del: upt_Suc)
  qed
qed simp

section \<open>Properties\<close>

definition no_failures :: "load_env \<Rightarrow> bool" where
  "no_failures env \<longleftrightarrow> regular env \<and> (\<forall>c. \<not> fails env c)"

definition loadable :: "prg_header list \<Rightarrow> bool" where
  "loadable phs \<longleftrightarrow> sum_list (map p_memsz (filter (\<lambda>ph. p_type ph = PT_LOAD) phs)) < MEM_SIZE
     \<and> (\<forall>ph\<in>set phs. segment_fits ph)"

lemma map_elf_image:
  assumes "no_failures env" "32 * e_phnum (ehdr g) \<le> length (phdr_bytes g)"
  shows "\<exists>g'. map_elf env g = Inr (loadable (prg_headers g), g')
    \<and> (loadable (prg_headers g) \<longrightarrow> pc (cpu_state g') = of_nat (e_entry (ehdr g))
        \<and> reg (cpu_state g') = reg (cpu_state g)
        \<and> (\<forall>a. memory (cpu_state g') a = foldl (overlay (contents env) a) 0 (prg_headers g)))"
proof -
  let ?sum = "sum_list (map p_memsz (filter (\<lambda>ph. p_type ph = PT_LOAD) (prg_headers g)))"
  have size: "get_program_size g = Inr (g\<lparr>code_size := ?sum\<rparr>)"
    using program_size [of 0 "e_phnum (ehdr g)" "g\<lparr>code_size := 0\<rparr>"] assms(2)
    by (simp add: get_program_size_def prg_headers_def)
  let ?g = "map_memory (g\<lparr>code_size := ?sum\<rparr>)"
  have fails: "\<not> fails env Mmap_memory" "\<forall>k. \<not> fails env (Read_segment k)"
    using assms(1) by (auto simp: no_failures_def)
  obtain g' where copied: "copy_segments env 0 (e_phnum (ehdr g)) ?g = Inr (\<forall>ph\<in>set (prg_headers g). segment_fits ph, g')"
      "ehdr g' = ehdr g" "reg (cpu_state g') = reg (cpu_state g)"
      "(\<forall>ph\<in>set (prg_headers g). segment_fits ph)
        \<longrightarrow> (\<forall>a. memory (cpu_state g') a = foldl (overlay (contents env) a) 0 (prg_headers g))"
    using copy_segments_image [of 0 "e_phnum (ehdr g)" ?g env] assms(2) fails(2)
    by (auto simp: prg_headers_def)
  show ?thesis
  proof (cases "?sum < MEM_SIZE")
    case False
    then show ?thesis by (simp add: map_elf_def size loadable_def)
  next
    case True
    with copied fails(1) show ?thesis
      by (cases "\<forall>ph\<in>set (prg_headers g). segment_fits ph")
        (auto simp: map_elf_def size loadable_def)
  qed
qed

text \<open>
  C11: when the program headers are there and no call fails, an ELF file is loaded exactly when its
  segments' sizes add up to less than the memory and every segment lies inside it; then every byte
  of the memory is the one the last segment covering it takes from the file, or zero, and execution
  starts at the entry point.
\<close>

theorem elf_image_loaded:
  assumes "no_failures env" "32 * e_phnum (ehdr g) \<le> length (phdr_bytes g)"
  shows "\<exists>g'. map_elf env g = Inr (loadable (prg_headers g), g')
    \<and> (loadable (prg_headers g) \<longrightarrow> pc (cpu_state g') = of_nat (e_entry (ehdr g))
        \<and> reg (cpu_state g') = reg (cpu_state g)
        \<and> (\<forall>a. memory (cpu_state g') a = foldl (overlay (contents env) a) 0 (prg_headers g)))"
  by (rule map_elf_image [OF assms])

definition good_env :: "u8 list \<Rightarrow> load_env" where
  "good_env bs = \<lparr>contents = bs, regular = True, fails = (\<lambda>_. False), error_text = (\<lambda>_. [])\<rparr>"

text \<open>One segment: three bytes of the file, from offset 1 on, at address 4.\<close>

definition sample_global :: "unit global" where
  "sample_global = \<lparr>cpu_state = zero_machine, address_map = [], map_index = 0, g_file_size = 0, code_size = 0, debug_on = False,
     jit_on = False, elf = None,
     ehdr = \<lparr>e_ident = [], e_type = 2, e_machine = 8, e_version = 1, e_entry = 4, e_phoff = 52,
       e_phentsize = 32, e_phnum = 1\<rparr>,
     phdr_bytes = [1, 0, 0, 0, 1, 0, 0, 0, 4, 0, 0, 0, 0, 0, 0, 0, 3, 0, 0, 0, 8, 0, 0, 0,
       0, 0, 0, 0, 0, 0, 0, 0]\<rparr>"

lemma elf_image_loaded_witness:
  "\<exists>g'. map_elf (good_env [9, 10, 11, 12]) sample_global = Inr (True, g')
     \<and> memory (cpu_state g') 5 = 11 \<and> memory (cpu_state g') 7 = 0 \<and> pc (cpu_state g') = 4"
proof -
  have phs: "prg_headers sample_global
      = [\<lparr>p_type = 1, p_offset = 1, p_vaddr = 4, p_filesz = 3, p_memsz = 8\<rparr>]"
    by (simp add: prg_headers_def sample_global_def read_phdr_def le_nat_def)
  have load: "loadable (prg_headers sample_global)"
    by (simp add: phs loadable_def segment_fits_def)
  have env: "no_failures (good_env [9, 10, 11, 12])" by (simp add: no_failures_def good_env_def)
  have room: "32 * e_phnum (ehdr sample_global) \<le> length (phdr_bytes sample_global)"
    and entry: "e_entry (ehdr sample_global) = 4" by (simp_all add: sample_global_def)
  have bytes: "foldl (overlay (contents (good_env [9, 10, 11, 12])) 5) 0 (prg_headers sample_global) = 11"
    "foldl (overlay (contents (good_env [9, 10, 11, 12])) 7) 0 (prg_headers sample_global) = 0"
    by (simp_all add: phs overlay_def segment_byte_def good_env_def)
  from elf_image_loaded [OF env room] load obtain g' where
    "map_elf (good_env [9, 10, 11, 12]) sample_global = Inr (True, g')"
    "pc (cpu_state g') = of_nat (e_entry (ehdr sample_global))"
    "\<forall>a. memory (cpu_state g') a
      = foldl (overlay (contents (good_env [9, 10, 11, 12])) a) 0 (prg_headers sample_global)" by auto
  with bytes entry show ?thesis by auto
qed

lemma ex_less_four: "(\<exists>i<4. P i) \<longleftrightarrow> P 0 \<or> P 1 \<or> P 2 \<or> P (3 :: nat)"
proof -
  have "i < 4 \<longleftrightarrow> i = 0 \<or> i = 1 \<or> i = 2 \<or> i = 3" for i :: nat by linarith
  then show ?thesis by auto
qed

text \<open>
  A file is taken for an ELF file exactly when its header has the magic number, says 32 bits,
  little-endian, version 1, System V, executable, MIPS, and has its program headers right after it.
\<close>

lemma header_accepted:
  "check_header (read_ehdr (take 52 bs)) \<longleftrightarrow>
     take 16 bs ! 0 = 0x7F \<and> take 16 bs ! 1 = 0x45 \<and> take 16 bs ! 2 = 0x4C \<and> take 16 bs ! 3 = 0x46
     \<and> take 16 bs ! 4 = 1 \<and> take 16 bs ! 5 = 1 \<and> take 16 bs ! 6 = 1 \<and> take 16 bs ! 7 = 0
     \<and> le_nat 2 16 bs = 2 \<and> le_nat 2 18 bs = 8 \<and> le_nat 4 20 bs = 1 \<and> le_nat 4 28 bs = 0x34"
proof -
  have "le_nat n k (take 52 bs) = le_nat n k bs" if "n + k \<le> 52" for n k
    using that by (simp add: le_nat_def drop_take min_def)
  moreover have "(\<exists>i<4. [0x7F, 0x45, 0x4C, 0x46] ! i \<noteq> xs ! i)
      \<longleftrightarrow> \<not> (xs ! 0 = 0x7F \<and> xs ! 1 = 0x45 \<and> xs ! 2 = 0x4C \<and> xs ! 3 = 0x46)" for xs :: "u8 list"
    unfolding ex_less_four by simp
  ultimately show ?thesis by (auto simp: check_header_def read_ehdr_def min_def)
qed

lemma parse_option_effect:
  "debug_on (parse_option a g) \<longleftrightarrow> debug_on g \<or> take 2 a = ''-d''"
  "jit_on (parse_option a g) \<longleftrightarrow> jit_on g \<or> take 2 a = ''-j''"
  "log_on (cpu_state (parse_option a g)) \<longleftrightarrow> log_on (cpu_state g) \<or> take 2 a = ''-l''"
  "elf (parse_option a g) = elf g"
  "reg (cpu_state (parse_option a g)) = reg (cpu_state g)"
proof -
  consider "a = []" | c where "a = [c]" | c x r where "a = c # x # r"
    by (metis neq_Nil_conv)
  note shapes = this
  show "debug_on (parse_option a g) \<longleftrightarrow> debug_on g \<or> take 2 a = ''-d''" by (cases rule: shapes) simp_all
  show "jit_on (parse_option a g) \<longleftrightarrow> jit_on g \<or> take 2 a = ''-j''" by (cases rule: shapes) simp_all
  show "log_on (cpu_state (parse_option a g)) \<longleftrightarrow> log_on (cpu_state g) \<or> take 2 a = ''-l''"
    by (cases rule: shapes) simp_all
  show "elf (parse_option a g) = elf g" by (cases rule: shapes) simp_all
  show "reg (cpu_state (parse_option a g)) = reg (cpu_state g)" by (cases rule: shapes) simp_all
qed

declare parse_option.simps [simp del]

lemma options_parsed:
  "debug_on (fold parse_option argv g) \<longleftrightarrow> debug_on g \<or> (\<exists>a\<in>set argv. take 2 a = ''-d'')"
  "jit_on (fold parse_option argv g) \<longleftrightarrow> jit_on g \<or> (\<exists>a\<in>set argv. take 2 a = ''-j'')"
  "log_on (cpu_state (fold parse_option argv g)) \<longleftrightarrow>
     log_on (cpu_state g) \<or> (\<exists>a\<in>set argv. take 2 a = ''-l'')"
  "elf (fold parse_option argv g) = elf g"
  "reg (cpu_state (fold parse_option argv g)) = reg (cpu_state g)"
  by (induction argv arbitrary: g) (simp_all add: parse_option_effect disj_assoc)

lemma program_size_inl: "program_size_loop i n g = Inl u \<Longrightarrow> u = Out_of_bounds"
  by (induction n arbitrary: i g) (auto simp: rbind_Inl_iff prg_header_at_def split: if_splits)

lemma copy_segments_inl: "copy_segments env i n g = Inl u \<Longrightarrow> u = Out_of_bounds"
  by (induction n arbitrary: i g) (auto simp: rbind_Inl_iff prg_header_at_def split: if_splits)

lemma map_elf_inl: "map_elf env g = Inl u \<Longrightarrow> u = Out_of_bounds"
  by (auto simp: map_elf_def rbind_Inl_iff get_program_size_def
      dest: program_size_inl copy_segments_inl split: if_splits)

text \<open>What keeps the file from being opened and its header from being read.\<close>

definition unreadable :: "load_env \<Rightarrow> bool" where
  "unreadable env \<longleftrightarrow> fails env Stat \<or> \<not> regular env \<or> MEM_SIZE \<le> length (contents env)
     \<or> fails env Open \<or> fails env Mmap_elf \<or> fails env Read_header \<or> length (contents env) < 52"

lemma binary_or_elf_unreadable:
  "unreadable env \<Longrightarrow> \<exists>g'. binary_or_elf env path g = Inr (False, g') \<and> elf g' = elf g"
  by (auto simp: unreadable_def binary_or_elf_def open_file_def Let_def)

lemma binary_or_elf_readable:
  assumes "\<not> unreadable env"
  defines "hdr \<equiv> read_ehdr (take 52 (contents env))"
  defines "bytes \<equiv> e_phnum hdr * e_phentsize hdr"
  shows "\<not> check_header hdr \<Longrightarrow> binary_or_elf env path g
      = Inr (True, g\<lparr>g_file_size := length (contents env), elf := Some False\<rparr>)"
    "check_header hdr \<Longrightarrow> \<not> fits_signed 32 (int bytes) \<Longrightarrow> binary_or_elf env path g = Inl Signed_overflow"
    "check_header hdr \<Longrightarrow> fits_signed 32 (int bytes) \<Longrightarrow> fails env Read_segments \<Longrightarrow>
      \<exists>g'. binary_or_elf env path g = Inr (False, g') \<and> elf g' = elf g"
    "check_header hdr \<Longrightarrow> fits_signed 32 (int bytes) \<Longrightarrow> \<not> fails env Read_segments \<Longrightarrow>
      \<exists>g'. binary_or_elf env path g = Inr (True, g') \<and> elf g' = Some True \<and> ehdr g' = hdr
        \<and> length (phdr_bytes g') = bytes"
  using assms(1)
  by (auto simp: unreadable_def binary_or_elf_def open_file_def Let_def hdr_def bytes_def min_def)

definition loading_starts :: "string list \<Rightarrow> 'w global \<Rightarrow> 'w global" where
  "loading_starts argv g = (let g = fold parse_option argv (reset_global g) in
     g\<lparr>cpu_state := (cpu_state g)\<lparr>pc := 0\<rparr>\<rparr>)"

lemma elf_uninitialised: "elf (loading_starts argv g) = None"
  by (simp add: loading_starts_def options_parsed reset_global_def Let_def)

lemma init_uninitialised:
  "init_global env argv g = Inl Uninitialised \<longleftrightarrow>
     (case binary_or_elf env (last argv) (loading_starts argv g) of
        Inl u \<Rightarrow> u = Uninitialised
      | Inr (ok, g') \<Rightarrow> elf g' = None)"
proof (cases "binary_or_elf env (last argv) (loading_starts argv g)")
  case (Inr r)
  then show ?thesis using map_elf_inl [of env "snd r"]
    unfolding init_global_def Let_def loading_starts_def [unfolded Let_def, symmetric]
    by (cases r) (auto simp: rbind_Inl_iff split: option.split)
qed (simp add: init_global_def Let_def loading_starts_def)

lemma unreadable_uninitialised: "unreadable env \<Longrightarrow> init_global env argv g = Inl Uninitialised"
  using binary_or_elf_unreadable [of env "last argv" "loading_starts argv g"]
  by (auto simp: init_uninitialised elf_uninitialised)

text \<open>
  C35: loading reads the uninitialised field \<open>elf\<close> exactly when the file cannot be opened and read,
  is too large, too short for an ELF header, or an ELF file whose program headers cannot be read.
\<close>

theorem load_failure_reads_uninitialised:
  "init_global env argv g = Inl Uninitialised \<longleftrightarrow>
     unreadable env
     \<or> (let hdr = read_ehdr (take 52 (contents env)) in
        check_header hdr \<and> fits_signed 32 (int (e_phnum hdr * e_phentsize hdr)) \<and> fails env Read_segments)"
proof (cases "unreadable env")
  case True
  then show ?thesis by (simp add: unreadable_uninitialised)
next
  case False
  let ?hdr = "read_ehdr (take 52 (contents env))"
  note cases = binary_or_elf_readable [OF False, of "last argv" "loading_starts argv g"]
  consider "\<not> check_header ?hdr"
    | "check_header ?hdr" "\<not> fits_signed 32 (int (e_phnum ?hdr * e_phentsize ?hdr))"
    | "check_header ?hdr" "fits_signed 32 (int (e_phnum ?hdr * e_phentsize ?hdr))" "fails env Read_segments"
    | "check_header ?hdr" "fits_signed 32 (int (e_phnum ?hdr * e_phentsize ?hdr))" "\<not> fails env Read_segments"
    by blast
  then show ?thesis
  proof cases
    case 1
    then show ?thesis using cases(1) False by (simp add: init_uninitialised)
  next
    case 2
    then show ?thesis using cases(2) False by (simp add: init_uninitialised)
  next
    case 3
    then show ?thesis using cases(3) by (auto simp: init_uninitialised elf_uninitialised Let_def)
  next
    case 4
    then show ?thesis using cases(4) False by (auto simp: init_uninitialised Let_def)
  qed
qed

text \<open>
  A flat binary of at least 52 bytes that fits the memory is loaded at address 0 with zeros
  after it; the program counter and the registers are zero except for the stack pointer, which is
  the last word of the memory; and the options are those given anywhere on the command line.
\<close>

lemma flat_loaded:
  assumes "no_failures env" "52 \<le> length (contents env)" "length (contents env) < MEM_SIZE"
    and "\<not> check_header (read_ehdr (take 52 (contents env)))"
  shows "\<exists>g'. init_global env argv g = Inr (True, g')
    \<and> (\<forall>a. memory (cpu_state g') a
        = (if unat a < length (contents env) then contents env ! unat a else 0))
    \<and> pc (cpu_state g') = 0 \<and> reg (cpu_state g') = (\<lambda>_. 0)(SP := 0xFFFFFFFC)
    \<and> (debug_on g' \<longleftrightarrow> (\<exists>a\<in>set argv. take 2 a = ''-d''))
    \<and> (jit_on g' \<longleftrightarrow> (\<exists>a\<in>set argv. take 2 a = ''-j''))
    \<and> (log_on (cpu_state g') \<longleftrightarrow> (\<exists>a\<in>set argv. take 2 a = ''-l''))
    \<and> g_file_size g' = length (contents env)"
proof -
  have ok: "\<not> unreadable env" "\<not> fails env Mmap_file" "\<not> fails env Close" "\<not> fails env Mmap_memory"
    "\<not> fails env Munmap_file"
    using assms(1-3) by (auto simp: no_failures_def unreadable_def)
  have "memory (poke_list 0 (contents env) x) a
      = (if unat a < length (contents env) then contents env ! unat a else memory x a)" for a and x :: "'a machine"
    using assms(3) by (subst poke_list_memory) simp_all
  moreover have "debug_on (put_bytes k bs x) = debug_on x" "jit_on (put_bytes k bs x) = jit_on x"
    "g_file_size (put_bytes k bs x) = g_file_size x" "log_on (cpu_state (put_bytes k bs x)) = log_on (cpu_state x)"
    for k bs and x :: "'a global"
    by (simp_all add: put_bytes_def)
  ultimately show ?thesis
    using assms(4) ok
    by (auto simp: init_global_def Let_def binary_or_elf_readable(1) [OF ok(1) assms(4)] init_memory_def
        map_memory_def options_parsed reset_global_def set_reg_def put_bytes_def)
qed

end
