(* ===== verification/Syscalls_Correct.thy ===== *)
theory Syscalls_Correct
  imports Loader_Correct
begin

text \<open>
  The system calls: which of them stop the program, integers printed and read back, and what the
  reading calls write into the memory of the program.
\<close>

definition known_calls :: "u32 set" where
  "known_calls = {1, 4, 5, 8, 10, 11, 12, 13, 14, 15, 16, 17}"

lemma continue_status: "rbind r (\<lambda>g. Inr (0, g)) = Inr (x :: int, g') \<Longrightarrow> x = 0"
  by (auto simp: rbind_Inr_iff)

lemma call_syscall_status:
  assumes "call_syscall h g = Inr (ret, g')"
  shows "ret = (if reg g V0 \<in> known_calls - {10, 17} then 0 else 1)"
proof -
  have "\<forall>c\<in>set cs. snd c = Inr (ret, g') \<longrightarrow> ret = (if fst c \<in> known_calls - {10, 17} then 0 else 1) \<Longrightarrow>
      k \<notin> known_calls - {10, 17} \<or> k \<in> fst ` set cs \<Longrightarrow>
      switch k cs (Inr (1, d)) = Inr (ret, g') \<Longrightarrow> ret = (if k \<in> known_calls - {10, 17} then 0 else 1)"
    for k cs d
    by (induction cs) (auto split: if_splits)
  note rule = this
  show ?thesis
    using assms unfolding call_syscall_def Let_def
    by (elim rule [rotated -1]) (auto simp: known_calls_def dest: continue_status)
qed

text \<open>
  C36: a system call stops the program exactly for the numbers 10 and 17 and for numbers that are no
  call, and a number that is no call changes nothing but the message on stderr; what \<open>print_int\<close>
  prints, \<open>read_int\<close> reads back as the same integer, whatever follows it but a digit.
\<close>

theorem calls_stop_and_integers_read_back:
  "(call_syscall h g = Inr (ret, g') \<longrightarrow> (ret = 1 \<longleftrightarrow> reg g V0 \<in> {10, 17} \<or> reg g V0 \<notin> known_calls)
      \<and> (reg g V0 \<notin> known_calls \<longrightarrow> g'\<lparr>stderr_chars := []\<rparr> = g\<lparr>stderr_chars := []\<rparr>))
   \<and> (\<exists>out. stdout_chars (print_int g) = stdout_chars g @ out
      \<and> (\<forall>rest. \<forall>k :: 'v machine. (rest = [] \<or> \<not> is_digit (hd rest))
          \<longrightarrow> stdin_chars k = out @ rest \<longrightarrow> (\<exists>k'. read_int k = Inr k' \<and> reg k' V0 = reg g A0 \<and> stdin_chars k' = rest)))"
proof -
  have unknown: "g'\<lparr>stderr_chars := []\<rparr> = g\<lparr>stderr_chars := []\<rparr>"
    if "call_syscall h g = Inr (ret, g')" "reg g V0 \<notin> known_calls"
  proof -
    have "call_syscall h g = Inr (1, logger ''syscalls.c'' 124
        (''Unknown syscall number: '' @ fmt_u (unat (reg g V0))) g)"
      unfolding call_syscall_def Let_def
      by (rule switch_default) (use that(2) in \<open>simp add: known_calls_def\<close>)
    with that(1) show ?thesis by (auto simp: logger_def put_stderr_def)
  qed
  have fits: "fits_signed 32 (sint (reg g A0))"
    using sint_range_size [of "reg g A0"] by (simp add: fits_signed_def word_size)
  have "read_int k = Inr (set_reg V0 (reg g A0) (k\<lparr>stdin_chars := rest\<rparr>))"
    if "rest = [] \<or> \<not> is_digit (hd rest)" "stdin_chars k = fmt_d (sint (reg g A0)) @ rest" for rest and k :: "'v machine"
    using that fits by (simp add: read_int_def scan_int_fmt_d)
  then have read: "\<exists>k'. read_int k = Inr k' \<and> reg k' V0 = reg g A0 \<and> stdin_chars k' = rest"
    if "rest = [] \<or> \<not> is_digit (hd rest)" "stdin_chars k = fmt_d (sint (reg g A0)) @ rest" for rest and k :: "'v machine"
    using that by simp
  have out: "stdout_chars (print_int g) = stdout_chars g @ fmt_d (sint (reg g A0))"
    by (simp add: print_int_def)
  have stop: "call_syscall h g = Inr (ret, g') \<Longrightarrow> ret = 1 \<longleftrightarrow> reg g V0 \<in> {10, 17} \<or> reg g V0 \<notin> known_calls"
    using call_syscall_status [of h g ret g'] by auto
  show ?thesis using stop unknown out read by blast
qed

lemma calls_stop_and_integers_read_back_witness:
  "\<exists>k'. read_int (zero_machine\<lparr>stdin_chars := ''-12 7''\<rparr>) = Inr k' \<and> reg k' V0 = -12
     \<and> stdin_chars k' = '' 7''"
proof -
  let ?g = "zero_machine\<lparr>reg := (\<lambda>_. 0)(A0 := - 12)\<rparr>"
  obtain out where out: "stdout_chars (print_int ?g) = stdout_chars ?g @ out"
    and read: "\<forall>rest. \<forall>k :: unit machine. (rest = [] \<or> \<not> is_digit (hd rest)) \<longrightarrow> stdin_chars k = out @ rest
      \<longrightarrow> (\<exists>k'. read_int k = Inr k' \<and> reg k' V0 = reg ?g A0 \<and> stdin_chars k' = rest)"
    using calls_stop_and_integers_read_back [of quiet_host ?g 0 ?g] by blast
  have "fmt_d (sint (- 12 :: u32)) = ''-12''" by code_simp
  with out have "out = ''-12''" by (simp add: print_int_def)
  moreover have "\<not> is_digit (CHR '' '')" by (simp add: is_digit_def)
  ultimately show ?thesis
    using read [rule_format, of "'' 7''" "zero_machine\<lparr>stdin_chars := ''-12 7''\<rparr>"] by simp
qed

section \<open>Reading into the memory\<close>

text \<open>The bytes \<open>read_string\<close> stores in a buffer of \<open>n\<close>: those before the first NUL, then NULs.\<close>

lemma strncpy_padded:
  assumes "length bs \<le> n"
  shows "strncpy_bytes (bs @ replicate (n - length bs) 0) n
      = takeWhile (\<lambda>b. b \<noteq> 0) bs @ replicate (n - length (takeWhile (\<lambda>b. b \<noteq> 0) bs)) 0"
    and "length (strncpy_bytes (bs @ replicate (n - length bs) 0) n) = n"
proof -
  have "takeWhile (\<lambda>b. b \<noteq> 0) (bs @ replicate m 0) = takeWhile (\<lambda>b. b \<noteq> 0) bs" for m
    by (cases "\<forall>b\<in>set bs. b \<noteq> 0") (auto simp: takeWhile_append intro: takeWhile_eq_all_conv [THEN iffD2, symmetric])
  moreover have "length (takeWhile (\<lambda>b. b \<noteq> 0) bs) \<le> n"
    using assms length_takeWhile_le [of "\<lambda>b. b \<noteq> 0" bs] by linarith
  ultimately show eq: "strncpy_bytes (bs @ replicate (n - length bs) 0) n
      = takeWhile (\<lambda>b. b \<noteq> 0) bs @ replicate (n - length (takeWhile (\<lambda>b. b \<noteq> 0) bs)) 0"
    by (simp add: strncpy_bytes_def Let_def)
  show "length (strncpy_bytes (bs @ replicate (n - length bs) 0) n) = n"
    unfolding eq using \<open>length (takeWhile (\<lambda>b. b \<noteq> 0) bs) \<le> n\<close> by simp
qed

lemma write_bytes_fits: "k + length bs \<le> MEM_SIZE \<Longrightarrow> write_bytes k bs g = Inr (poke_list k bs g)"
  by (simp add: write_bytes_def)

text \<open>The memory after bytes were stored at \<open>k\<close>.\<close>

definition stored :: "nat \<Rightarrow> u8 list \<Rightarrow> 'w machine \<Rightarrow> 'w machine \<Rightarrow> bool" where
  "stored k bs g g' \<longleftrightarrow> (\<forall>a. memory g' a =
     (if k \<le> unat a \<and> unat a < k + length bs then bs ! (unat a - k) else memory g a))"

lemma stored_poke_list: "k + length bs \<le> MEM_SIZE \<Longrightarrow> memory g = memory x \<Longrightarrow> stored k bs g (poke_list k bs x)"
  by (simp add: stored_def poke_list_memory)

lemma stored_nothing: "memory g' = memory g \<Longrightarrow> stored k [] g g'"
  by (auto simp: stored_def)

lemma pokes_frame: "world (poke_list k bs x) = world x" "reg (poke_list k bs x) = reg x" for x :: "'a machine"
  by (induction bs arbitrary: k x) simp_all

lemma read_string_fills:
  assumes "unat (reg g A1) = n" "unat (reg g A0) = buf" "sys_read h 0 n (world g) = (ret, bs, w)"
    and "buf + n \<le> MEM_SIZE" "length bs \<le> n"
  shows "\<exists>g'. read_string h g = Inr g' \<and> world g' = w \<and> reg g' = reg g \<and> stored buf (if ret = -1 then []
      else takeWhile (\<lambda>b. b \<noteq> 0) bs @ replicate (n - length (takeWhile (\<lambda>b. b \<noteq> 0) bs)) 0) g g'"
proof (cases "ret = - 1")
  case True
  then show ?thesis using assms(1-3) by (simp add: read_string_def stored_nothing Let_def)
next
  case False
  let ?g1 = "g\<lparr>world := w\<rparr>" and ?s = "strncpy_bytes (bs @ replicate (n - length bs) 0) n"
  have s: "length ?s = n" by (rule strncpy_padded(2) [OF assms(5)])
  then have "write_bytes buf ?s ?g1 = Inr (poke_list buf ?s ?g1)"
    using assms(4) by (intro write_bytes_fits) simp
  then have "read_string h g = Inr (poke_list buf ?s ?g1)"
    using False assms(1-3) by (simp add: read_string_def Let_def)
  moreover have "stored buf ?s g (poke_list buf ?s ?g1)"
    using assms(4) s by (intro stored_poke_list) simp_all
  ultimately show ?thesis using False by (simp add: pokes_frame strncpy_padded(1) [OF assms(5)])
qed

lemma read_call_fills:
  assumes "unat (reg g A2) = n" "unat (reg g A1) = buf" "sys_read h (sint (reg g A0)) n (world g) = (ret, bs, w)"
    and "buf + n \<le> MEM_SIZE" "length bs \<le> n"
  shows "\<exists>g'. read_call h g = Inr g' \<and> world g' = w
    \<and> reg g' = (reg g)(V0 := word_of_int ret) \<and> stored buf bs g g'"
proof -
  let ?g1 = "poke_list buf bs (g\<lparr>world := w\<rparr>)"
  have "write_bytes buf bs (g\<lparr>world := w\<rparr>) = Inr ?g1"
    using assms(4,5) by (intro write_bytes_fits) simp
  then have "read_call h g = Inr (set_reg V0 (word_of_int ret) ?g1)"
    using assms(1-3) by (simp add: read_call_def)
  moreover have "stored buf bs g ?g1" using assms(4,5) by (intro stored_poke_list) simp_all
  ultimately show ?thesis by (simp add: pokes_frame stored_def)
qed

text \<open>
  C38: \<open>read_string\<close> and \<open>read\<close> into a buffer inside the memory change nothing outside the buffer.
  \<open>read_string\<close> overwrites the whole buffer, with what was read up to its first NUL and NULs after it, or,
  when reading fails, nothing, and keeps all registers; \<open>read\<close> stores the bytes that were delivered, at
  most as many as asked for, and no others, and returns the result in \<open>$v0\<close>.
\<close>

theorem reads_fill_the_buffer:
  assumes "host_reads h" and "n = unat (reg g (if string then A1 else A2))"
    and "buf = unat (reg g (if string then A0 else A1))" and "buf + n \<le> MEM_SIZE"
    and "reg g V0 = (if string then 8 else 14)"
    and "sys_read h (if string then 0 else sint (reg g A0)) n (world g) = (ret, bs, w)"
  shows "\<exists>g'. call_syscall h g = Inr (0, g') \<and> world g' = w
    \<and> (if string
        then reg g' = reg g \<and> stored buf (if ret = -1 then []
          else takeWhile (\<lambda>b. b \<noteq> 0) bs @ replicate (n - length (takeWhile (\<lambda>b. b \<noteq> 0) bs)) 0) g g'
        else reg g' = (reg g)(V0 := word_of_int ret) \<and> stored buf bs g g' \<and> length bs \<le> n)"
proof -
  have len: "length bs \<le> n"
    using assms(1) [unfolded host_reads_def, rule_format,
      where fd = "if string then 0 else sint (reg g A0)" and n = n and w = "world g"] assms(6) by simp
  show ?thesis
  proof (cases string)
    case True
    with read_string_fills [OF _ _ _ assms(4) len, of g h ret w] assms(2,3,6) obtain g' where
      "read_string h g = Inr g'" "world g' = w" "reg g' = reg g" "stored buf (if ret = -1 then []
        else takeWhile (\<lambda>b. b \<noteq> 0) bs @ replicate (n - length (takeWhile (\<lambda>b. b \<noteq> 0) bs)) 0) g g'" by auto
    with True assms(5) show ?thesis by (simp add: call_syscall_def)
  next
    case False
    with read_call_fills [OF _ _ _ assms(4) len, of g h ret w] assms(2,3,6) obtain g' where
      "read_call h g = Inr g'" "world g' = w" "reg g' = (reg g)(V0 := word_of_int ret)" "stored buf bs g g'" by auto
    with False assms(5) len show ?thesis by (simp add: call_syscall_def)
  qed
qed

text \<open>\<open>read_string\<close> of \<open>hi\<close> into four bytes at 16.\<close>

definition hi_host :: "unit host" where
  "hi_host = quiet_host\<lparr>sys_read := \<lambda>fd n w. (int (min n 2), take n [104, 105], w)\<rparr>"

lemma reads_fill_the_buffer_witness:
  "\<exists>g'. call_syscall hi_host (zero_machine\<lparr>reg := (\<lambda>_. 0)(V0 := 8, A0 := 16, A1 := 4), memory := (\<lambda>_. 7)\<rparr>)
      = Inr (0, g') \<and> memory g' 15 = 7 \<and> memory g' 16 = 104 \<and> memory g' 17 = 105 \<and> memory g' 18 = 0
    \<and> memory g' 20 = 7"
proof -
  let ?g = "zero_machine\<lparr>reg := (\<lambda>_. 0)(V0 := 8, A0 := 16, A1 := 4), memory := (\<lambda>_. 7)\<rparr>"
  have host: "host_reads hi_host" by (simp add: host_reads_def hi_host_def numeral_2_eq_2 min.commute)
  have prems: "4 = unat (reg ?g (if True then A1 else A2))" "16 = unat (reg ?g (if True then A0 else A1))"
    "(16 :: nat) + 4 \<le> MEM_SIZE" "reg ?g V0 = (if True then 8 else 14)"
    "sys_read hi_host (if True then 0 else sint (reg ?g A0)) 4 (world ?g) = (2, [104, 105], ())"
    by (simp_all add: zero_machine_def hi_host_def)
  have pad: "takeWhile (\<lambda>b. b \<noteq> 0) [104, 105 :: u8] @ replicate (4 - length (takeWhile (\<lambda>b. b \<noteq> 0) [104, 105 :: u8])) 0
      = [104, 105, 0, 0]"
  proof -
    have "takeWhile (\<lambda>b. b \<noteq> 0) [104, 105 :: u8] = [104, 105]" by simp
    moreover have "replicate 2 (0 :: u8) = [0, 0]" by (simp add: numeral_2_eq_2)
    ultimately show ?thesis by simp
  qed
  obtain g' where g': "call_syscall hi_host ?g = Inr (0, g')" "stored 16 [104, 105, 0, 0] ?g g'"
    using reads_fill_the_buffer [OF host prems] unfolding pad by auto
  then have "memory g' a = (if 16 \<le> unat a \<and> unat a < 20 then [104, 105, 0, 0] ! (unat a - 16) else 7)" for a
    by (simp add: stored_def)
  with g'(1) show ?thesis by simp
qed

end
