(* ===== verification/Undefined.thy ===== *)
theory Undefined
  imports Safety Fpu_Correct Syscalls_Correct
begin

text \<open>
  When exactly an instruction leaves the behaviour C defines: a table over the instruction words, in
  terms of the operands, for every group of instructions and for the system calls.
\<close>

section \<open>The undefined behaviour of a result\<close>

definition undef_of :: "'a result \<Rightarrow> undef option" where
  "undef_of r = (case r of Inl u \<Rightarrow> Some u | Inr x \<Rightarrow> None)"

lemma undef_of_simps [simp]:
  "undef_of (Inl u) = Some u" "undef_of (Inr x) = None"
  by (simp_all add: undef_of_def)

lemma undef_of_finish [simp]:
  "undef_of (finish g None) = None" "undef_of (finish_r0 g None) = None"
  "undef_of (finish g (Some r)) = undef_of r" "undef_of (finish_r0 g (Some r)) = undef_of r"
  by (cases r; simp add: finish_def finish_r0_def)+

text \<open>A continuation that is always defined.\<close>

lemma undef_of_bind [simp]: "undef_of (rbind r (\<lambda>x. Inr (f x))) = undef_of r"
  by (cases r) simp_all

lemma undef_of_bind_pair [simp]: "undef_of (rbind r (\<lambda>(x, y). Inr (f x y))) = undef_of r"
  by (cases r) (simp_all add: case_prod_beta)

lemma undef_of_Some: "undef_of r = Some u \<longleftrightarrow> r = Inl u"
  by (cases r) simp_all

section \<open>The table\<close>

text \<open>A product or an accumulator that a signed type of \<open>w\<close> bits cannot hold.\<close>

definition unless_fits :: "nat \<Rightarrow> int \<Rightarrow> undef option" where
  "unless_fits w x = (if fits_signed w x then None else Some Signed_overflow)"

definition special2_hazard :: "u32 \<Rightarrow> 'w machine \<Rightarrow> undef option" where
  "special2_hazard i g =
     (let p = sint (reg g (rs i)) * sint (reg g (rt i)) in
      if funct i = FN2_MUL then unless_fits 32 p
      else if funct i = FN2_MADD then unless_fits 64 (sint (acc_u64 g) + p)
      else if funct i = FN2_MSUB then unless_fits 64 (sint (acc_u64 g) - p)
      else None)"

text \<open>
  The register pairs a floating-point instruction names: there is no pair at register 31.
\<close>

definition pairs :: "u32 \<Rightarrow> u8 set" where
  "pairs i =
     (if rs i = FMT_S then (if funct i = 0x21 then {shamt i} else {})
      else if rs i = FMT_W then (if funct i = 0x21 then {shamt i} else {})
      else if funct i \<in> {0x00, 0x01, 0x02, 0x03} then {rd i, rt i, shamt i}
      else if funct i \<in> {0x04, 0x05, 0x06, 0x07} then {rd i, shamt i}
      else if funct i \<in> {0x32, 0x3c, 0x3e} then {rd i, rt i}
      else if funct i \<in> {0x20, 0x24} then {rd i}
      else {})"

definition cop1_hazard :: "u32 \<Rightarrow> 'w machine \<Rightarrow> undef option" where
  "cop1_hazard i g =
     (if rs i \<notin> {FMT_S, FMT_D, FMT_W} then None
      else if 31 \<in> pairs i then Some Out_of_bounds
      else if funct i = 0x24
        \<and> (rs i = FMT_S \<and> int_of_fp (f32 (fpr g (rd i))) = None
          \<or> rs i = FMT_D \<and> int_of_fp (f64 (fp_pair (rd i) g)) = None)
      then Some Conversion_range
      else None)"

text \<open>A buffer of \<open>n\<close> bytes at \<open>k\<close>, and a string without an end in the memory.\<close>

definition buffer_hazard :: "nat \<Rightarrow> nat \<Rightarrow> undef option" where
  "buffer_hazard k n = (if MEM_SIZE < k + n then Some Out_of_bounds else None)"

definition string_hazard :: "(u32 \<Rightarrow> u8) \<Rightarrow> u32 \<Rightarrow> undef option" where
  "string_hazard m a = (if \<forall>b\<ge>a. m b \<noteq> 0 then Some Out_of_bounds else None)"

definition call_hazard :: "'w host \<Rightarrow> 'w machine \<Rightarrow> undef option" where
  "call_hazard h g =
     (let n = reg g V0 in
      if n = 4 \<or> n = 13 then string_hazard (memory g) (reg g A0)
      else if n = 5
      then (case fst (scan_int (stdin_chars g)) of
          Some x \<Rightarrow> if fits_signed 32 x then None else Some Scan_range
        | None \<Rightarrow> None)
      else if n = 8
      then (if fst (sys_read h 0 (unat (reg g A1)) (world g)) = -1 then None
        else buffer_hazard (unat (reg g A0)) (unat (reg g A1)))
      else if n = 14
      then buffer_hazard (unat (reg g A1))
        (length (fst (snd (sys_read h (sint (reg g A0)) (unat (reg g A2)) (world g)))))
      else if n = 15 then buffer_hazard (unat (reg g A1)) (unat (reg g A2))
      else None)"

definition hazard :: "'w host \<Rightarrow> u32 \<Rightarrow> 'w machine \<Rightarrow> undef option" where
  "hazard h i g =
     (if op i = OP_SPECIAL \<and> funct i = FN_SYSCALL then call_hazard h g
      else if op i = OP_SPECIAL \<and> funct i = FN_DIV
      then (if sint (reg g (rs i)) = int32_min \<and> sint (reg g (rt i)) = -1
        then Some Division_overflow else None)
      else if op i = OP_SPECIAL2 then special2_hazard i g
      else if op i = OP_COP1 then cop1_hazard i g
      else if op i \<in> {OP_LDC1, OP_SDC1} \<and> rt i = 31 then Some Out_of_bounds
      else None)"

section \<open>The groups of instructions\<close>

lemma register_31:
  "\<not> rs i < 31 \<longleftrightarrow> rs i = 31" "\<not> rt i < 31 \<longleftrightarrow> rt i = 31"
  "\<not> rd i < 31 \<longleftrightarrow> rd i = 31" "\<not> shamt i < 31 \<longleftrightarrow> shamt i = 31"
proof -
  have "\<not> r < 31 \<longleftrightarrow> r = 31" if "r < 32" for r :: u8
    using that by (simp add: word_less_nat_alt word_unat_eq_iff) linarith
  then show "\<not> rs i < 31 \<longleftrightarrow> rs i = 31" "\<not> rt i < 31 \<longleftrightarrow> rt i = 31"
    "\<not> rd i < 31 \<longleftrightarrow> rd i = 31" "\<not> shamt i < 31 \<longleftrightarrow> shamt i = 31"
    using register_fields_less by blast+
qed

lemma div_undef:
  "undef_of (div_instr i g) = (if sint (reg g (rs i)) = int32_min \<and> sint (reg g (rt i)) = -1
     then Some Division_overflow else None)"
  unfolding div_instr_def Let_def sreg_def sdiv_fits by auto

lemma register_undef:
  assumes "op i = OP_SPECIAL" "funct i \<noteq> FN_SYSCALL"
  shows "undef_of (exec_register h i g) = hazard h i g"
  unfolding exec_register_def Let_def
  by (rule switch_cases [where P = "\<lambda>r. undef_of (finish_r0 _ r) = _"])
    (use assms in \<open>auto simp: hazard_def div_undef\<close>)

lemma special2_undef:
  "undef_of (exec_special2 h i g) = special2_hazard i g"
  unfolding exec_special2_def Let_def
  by (rule switch_cases [where P = "\<lambda>r. undef_of (finish_r0 _ r) = _"])
    (auto simp: special2_hazard_def accumulate_def acc_s64_def unless_fits_def Let_def)

lemma immediate_undef: "undef_of (exec_immediate h i g) = None"
  unfolding exec_immediate_def Let_def
  by (rule switch_cases [where P = "\<lambda>r. undef_of (finish_r0 _ r) = _"]) auto

lemma jump_undef: "undef_of (exec_jump h i g) = None"
  unfolding exec_jump_def Let_def
  by (rule switch_cases [where P = "\<lambda>r. undef_of (finish _ r) = _"]) auto

lemma undef_of_pair [simp]:
  "undef_of (getd n g) = (if n < 31 then None else Some Out_of_bounds)"
  "undef_of (setd n d g) = (if n < 31 then None else Some Out_of_bounds)"
  "undef_of (fp_to_int32 v) = (if int_of_fp v = None then Some Conversion_range else None)"
  by (auto simp: getd_def setd_def fp_to_int32_eq split: option.split)

lemma undef_of_getd [simp]:
  "undef_of (rbind (getd n g) f) = (if n < 31 then undef_of (f (fp_pair n g)) else Some Out_of_bounds)"
  by (simp add: getd_def fp_pair_def)

lemma single_undef:
  assumes "rs i = FMT_S"
  shows "undef_of (fp_single h i g) = cop1_hazard i g"
  unfolding fp_single_def Let_def
  by (rule switch_cases [where P = "\<lambda>r. undef_of (finish _ r) = _"])
    (use assms in \<open>auto simp: cop1_hazard_def pairs_def register_31 getf_def\<close>)

lemma double_undef:
  assumes "rs i = FMT_D"
  shows "undef_of (fp_double h i g) = cop1_hazard i g"
  unfolding fp_double_def Let_def
  by (rule switch_labels [where P = "\<lambda>r. undef_of (finish _ r) = _"], unfold list.pred_inject fst_conv snd_conv;
    (intro conjI impI TrueI)?; use assms in \<open>simp add: cop1_hazard_def pairs_def register_31\<close>)

lemma word_undef:
  assumes "rs i = FMT_W"
  shows "undef_of (fp_word h i g) = cop1_hazard i g"
  unfolding fp_word_def Let_def
  by (rule switch_cases [where P = "\<lambda>r. undef_of (finish _ r) = _"])
    (use assms in \<open>auto simp: cop1_hazard_def pairs_def register_31\<close>)

lemma cop1_undef: "undef_of (exec_cop1 h i g) = cop1_hazard i g"
  unfolding exec_cop1_def
  by (rule switch_cases [where P = "\<lambda>r. undef_of r = _"])
    (auto simp: single_undef double_undef word_undef Let_def, simp_all add: cop1_hazard_def)

lemma cop1_ldst_undef:
  "undef_of (exec_cop1_ldst h i g) = (if op i \<in> {OP_LDC1, OP_SDC1} \<and> rt i = 31 then Some Out_of_bounds else None)"
  unfolding exec_cop1_ldst_def Let_def
  by (rule switch_cases [where P = "\<lambda>r. undef_of (finish _ r) = _"])
    (auto simp: case_prod_beta register_31)

section \<open>System calls\<close>

lemma c_string_endless: "c_string m k = None \<longleftrightarrow> (\<forall>j. k \<le> j \<longrightarrow> j < MEM_SIZE \<longrightarrow> m (of_nat j) \<noteq> 0)"
proof (induction m k rule: c_string.induct)
  case (1 m k)
  show ?case
  proof (cases "MEM_SIZE \<le> k \<or> m (of_nat k) = 0")
    case True
    then show ?thesis by (subst c_string.simps) auto
  next
    case False
    then have "c_string m k = None \<longleftrightarrow> c_string m (Suc k) = None"
      by (subst c_string.simps) simp
    also have "\<dots> \<longleftrightarrow> (\<forall>j. Suc k \<le> j \<longrightarrow> j < MEM_SIZE \<longrightarrow> m (of_nat j) \<noteq> 0)"
      using 1 False by simp
    also have "\<dots> \<longleftrightarrow> (\<forall>j. k \<le> j \<longrightarrow> j < MEM_SIZE \<longrightarrow> m (of_nat j) \<noteq> 0)"
      using False by (metis Suc_leD le_antisym not_less_eq_eq)
    finally show ?thesis .
  qed
qed

lemma c_string_undef:
  "undef_of (case c_string m (unat a) of None \<Rightarrow> Inl Out_of_bounds | Some s \<Rightarrow> Inr (f s)) = string_hazard m a"
proof -
  have "(\<forall>j. unat a \<le> j \<longrightarrow> j < MEM_SIZE \<longrightarrow> m (of_nat j) \<noteq> 0) \<longleftrightarrow> (\<forall>b\<ge>a. m b \<noteq> 0)"
  proof (intro iffI allI impI)
    fix b assume all: "\<forall>j. unat a \<le> j \<longrightarrow> j < MEM_SIZE \<longrightarrow> m (of_nat j) \<noteq> 0" and b: "a \<le> b"
    show "m b \<noteq> 0"
      using all [rule_format, of "unat b"] b unat_bounds(3) [of b] by (simp add: word_le_nat_alt)
  next
    fix j assume "\<forall>b\<ge>a. m b \<noteq> 0" "unat a \<le> j" "j < MEM_SIZE"
    then show "m (of_nat j) \<noteq> 0"
      by (simp add: word_le_nat_alt unat_of_nat)
  qed
  then show ?thesis
    by (cases "c_string m (unat a)") (simp_all add: string_hazard_def c_string_endless [symmetric])
qed

lemma strncpy_length: "length (strncpy_bytes bs n) = n"
  by (simp add: strncpy_bytes_def Let_def)

lemma write_bytes_undef [simp]: "undef_of (write_bytes k bs g) = buffer_hazard k (length bs)"
  by (simp add: write_bytes_def buffer_hazard_def)

lemma call_undef_cases:
  "undef_of (print_string g) = string_hazard (memory g) (reg g A0)"
  "undef_of (open_call h g) = string_hazard (memory g) (reg g A0)"
  "undef_of (read_int g) = (case fst (scan_int (stdin_chars g)) of
      Some x \<Rightarrow> if fits_signed 32 x then None else Some Scan_range | None \<Rightarrow> None)"
  "undef_of (read_string h g) = (if fst (sys_read h 0 (unat (reg g A1)) (world g)) = -1 then None
      else buffer_hazard (unat (reg g A0)) (unat (reg g A1)))"
  "undef_of (read_call h g) = buffer_hazard (unat (reg g A1))
      (length (fst (snd (sys_read h (sint (reg g A0)) (unat (reg g A2)) (world g)))))"
  "undef_of (write_call h g) = buffer_hazard (unat (reg g A1)) (unat (reg g A2))"
proof -
  show "undef_of (print_string g) = string_hazard (memory g) (reg g A0)"
    unfolding print_string_def by (rule c_string_undef)
  show "undef_of (open_call h g) = string_hazard (memory g) (reg g A0)"
    unfolding open_call_def Let_def case_prod_beta by (rule c_string_undef)
  show "undef_of (read_int g) = (case fst (scan_int (stdin_chars g)) of
      Some x \<Rightarrow> if fits_signed 32 x then None else Some Scan_range | None \<Rightarrow> None)"
    by (cases "scan_int (stdin_chars g)")
      (auto simp: read_int_def fits_signed_def split: option.split)
qed (simp_all add: read_string_def read_call_def write_call_def case_prod_beta Let_def strncpy_length
    read_bytes_def buffer_hazard_def)

lemma call_undef: "undef_of (call_syscall h g) = call_hazard h g"
  unfolding call_syscall_def Let_def
  by (rule switch_cases [where P = "\<lambda>r. undef_of r = _"])
    (auto simp: call_undef_cases call_hazard_def)

section \<open>One instruction\<close>

lemma exec_decoded_undef: "undef_of (exec_decoded h i g) = hazard h i g"
proof -
  define r where "r = switch (op i)
      [(OP_SPECIAL, exec_register h i g), (OP_SPECIAL2, exec_special2 h i g),
       (OP_COP1, exec_cop1 h i g), (OP_LWC1, exec_cop1_ldst h i g),
       (OP_LDC1, exec_cop1_ldst h i g), (OP_SWC1, exec_cop1_ldst h i g),
       (OP_SDC1, exec_cop1_ldst h i g), (OP_J, exec_jump h i g), (OP_JAL, exec_jump h i g)]
      (exec_immediate h i g)"
  have groups: "undef_of r = hazard h i g" if "\<not> (op i = OP_SPECIAL \<and> funct i = FN_SYSCALL)"
    unfolding r_def
    by (rule switch_labels [where P = "\<lambda>r. undef_of r = _"], unfold list.pred_inject fst_conv snd_conv;
      (intro conjI impI TrueI)?;
      use that in \<open>simp add: register_undef special2_undef immediate_undef jump_undef cop1_undef
        cop1_ldst_undef hazard_def\<close>)
  have decoded: "exec_decoded h i g =
    (if i = 0 then Inr (0, g)
     else if op i = OP_SPECIAL \<and> funct i = FN_SYSCALL
     then rbind (call_syscall h g) (\<lambda>(r, g'). Inr (if r \<noteq> 0 then 2 else 0, g'))
     else if op i = OP_SPECIAL \<and> funct i = FN_BREAK then Inr (2, set_reg K0 1 g)
     else r)"
    by (simp only: exec_decoded_def r_def)
  have "hazard h 0 g = None" by (simp add: hazard_def field_defs)
  moreover have "hazard h i g = None" if "op i = OP_SPECIAL" "funct i = FN_BREAK"
    using that by (simp add: hazard_def)
  moreover have "hazard h i g = call_hazard h g" if "op i = OP_SPECIAL" "funct i = FN_SYSCALL"
    using that by (simp add: hazard_def)
  ultimately show ?thesis
    unfolding decoded using groups by (simp add: call_undef)
qed

lemma exec_inst_undef: "undef_of (exec_inst h i g) = hazard h i g"
proof -
  have "hazard h i (log_instr i f l g) = hazard h i g" for f l
    unfolding hazard_def special2_hazard_def cop1_hazard_def call_hazard_def fp_pair_def acc_u64_def
      log_instr_def put_simps by (rule refl)
  then show ?thesis by (simp add: exec_inst_def exec_decoded_undef)
qed

text \<open>
  C6: an instruction meets undefined behaviour of C exactly when the table says so, and then the one it
  says: the division \<open>INT_MIN / -1\<close>, a product or an accumulator of SPECIAL2 that overflows, a register
  pair at 31, a floating-point value that is no \<open>int32_t\<close>, or a system call with a buffer or a string
  that leaves the memory or a number that is no \<open>int\<close>. In every other state, every instruction word
  is executed within the behaviour gcc defines.
\<close>

theorem undefined_exactly:
  "exec_inst h i g = Inl u \<longleftrightarrow> hazard h i g = Some u"
  by (simp add: undef_of_Some [symmetric] exec_inst_undef)

text \<open>What can happen, by the instruction word alone.\<close>

definition hazards :: "u32 \<Rightarrow> undef set" where
  "hazards i =
    (if op i = OP_SPECIAL \<and> funct i = FN_SYSCALL then {Out_of_bounds, Scan_range}
     else if op i = OP_SPECIAL \<and> funct i = FN_DIV then {Division_overflow}
     else if op i = OP_SPECIAL2 \<and> funct i \<in> {FN2_MUL, FN2_MADD, FN2_MSUB} then {Signed_overflow}
     else if op i = OP_COP1 \<and> rs i \<in> {FMT_S, FMT_D} then {Out_of_bounds, Conversion_range}
     else if op i = OP_COP1 \<and> rs i = FMT_W then {Out_of_bounds}
     else if op i \<in> {OP_LDC1, OP_SDC1} \<and> rt i = 31 then {Out_of_bounds}
     else {})"

lemma undefined_only_by_hazard:
  assumes "exec_inst h i g = Inl u"
  shows "u \<in> hazards i"
proof -
  have "hazard h i g = Some u" using assms exec_inst_undef [of h i g] by simp
  then show ?thesis
    unfolding hazard_def hazards_def call_hazard_def string_hazard_def buffer_hazard_def special2_hazard_def
      unless_fits_def cop1_hazard_def pairs_def Let_def
    by (auto split: if_splits option.splits)
qed

end
