(* ===== verification/Memory.thy ===== *)
theory Memory
  imports Cpu
begin

text \<open>
  What an emulated program observes of memory: the properties of loads and stores proved in the locale
  \<open>word_port\<close>, restated for the instructions of src/cpu.c.
\<close>

section \<open>Words\<close>

text \<open>
  C19: outside the device registers a stored word is loaded back and is four bytes in little-endian
  order, and a word that shares no byte with it is not affected.
\<close>

theorem word_round_trip:
  assumes "\<not> device_register a"
  shows "load_word h a (store_word h a v g) = (v, store_word h a v g)
    \<and> [load_byte a (store_word h a v g), load_byte (a + 1) (store_word h a v g),
        load_byte (a + 2) (store_word h a v g), load_byte (a + 3) (store_word h a v g)]
      = [v AND 0xFF, drop_bit 8 v AND 0xFF, drop_bit 16 v AND 0xFF, drop_bit 24 v AND 0xFF]
    \<and> (\<not> device_register b \<longrightarrow> apart a b \<longrightarrow>
        fst (load_word h b (store_word h a v g)) = fst (load_word h b g))
    \<and> (4 \<le> b - a \<longrightarrow> load_byte b (store_word h a v g) = load_byte b g)"
proof -
  have mask: "bit (0xFF :: u32) n \<longleftrightarrow> n < 8" for n
  proof -
    have "(0xFF :: u32) = mask 8" by (simp add: mask_eq_exp_minus_1)
    then show ?thesis by (simp only: bit_mask_iff) auto
  qed
  have byte: "ucast (ucast (x AND 0xFF) :: u8) = x AND 0xFF" for x :: u32
    by (rule bit_word_eqI) (auto simp only: bit_ucast_iff bit_and_iff mask len_num0 len_of_numeral_defs)
  have "load_byte b (store_word h a v g) = load_byte b g" if "4 \<le> b - a"
    using ram.store_frame [OF assms that, of h v g] by (simp add: load_byte_def)
  moreover have "memory (store_word h a v g) = le_update a v (memory g)"
    using assms by (rule ram.store_ram)
  ultimately show ?thesis
    using assms ram.load_store_same [OF assms, of h v g] ram.load_store_apart [OF assms, of b h v g]
    by (simp add: load_byte_def le_update_def byte)
qed

lemma word_round_trip_witness:
  "fst (load_word quiet_host 0x100 (store_word quiet_host 0x100 0x12345678 zero_machine)) = 0x12345678
   \<and> fst (load_word quiet_host 0x104 (store_word quiet_host 0x100 0x12345678 zero_machine)) = 0"
  using word_round_trip [of "0x100" quiet_host "0x12345678" zero_machine "0x104"]
  by (simp add: device_register_def apart_def load_word_def device_load_word_def le_word_def
      zero_machine_def)

section \<open>Unaligned words\<close>

text \<open>
  The pair lwl (at the last byte), lwr (at the first byte) loads the word at any address,
  aligned or not, that the two aligned words around it hold, and changes nothing else.
\<close>

lemma unaligned_load_pair:
  assumes "rt j = rt i" "rs j \<noteq> rt i"
    and "mem_addr i g = a + 3" "mem_addr j g = a"
    and "\<not> device_register (word_align a)" "\<not> device_register (word_align (a + 3))"
  shows "exec_lwr h j (exec_lwl h i g) = set_reg (rt i) (le_word (memory g) a) g"
proof -
  define w where "w = fst (load_word h (word_align (a + 3)) g)"
  have lwl: "exec_lwl h i g = set_reg (rt i) (lwl_merge (a + 3) w (reg g (rt i))) g"
    using assms(3) ram.load_ram [OF assms(6), of h g] by (simp add: exec_lwl_def w_def Let_def)
  have addr: "mem_addr j (set_reg (rt i) x g) = a" for x
    using assms(2,4) by (simp add: mem_addr_def)
  have "exec_lwr h j (exec_lwl h i g)
      = set_reg (rt i) (lwr_merge a (fst (load_word h (word_align a) g))
          (lwl_merge (a + 3) w (reg g (rt i)))) g"
    using ram.load_ram [OF assms(5), of h] addr assms(1)
    unfolding lwl exec_lwr_def Let_def by (simp add: lwl)
  then show ?thesis
    using ram.unaligned_load [OF assms(5,6), of h g "reg g (rt i)"] by (simp add: w_def)
qed

text \<open>
  The pair swl, swr stores the register at any address, aligned or not: the memory is that
  after a word store there, and nothing else changes.
\<close>

lemma store_memory_only:
  "\<not> device_register a \<Longrightarrow> store_word h a v g = g\<lparr>memory := memory (store_word h a v g)\<rparr>"
  by (simp add: device_register_def store_word_def device_store_ram poke_def)

lemma unaligned_store_pair:
  assumes "rt j = rt i"
    and "mem_addr i g = a + 3" "mem_addr j g = a"
    and "\<not> device_register (word_align a)" "\<not> device_register (word_align (a + 3))"
  shows "exec_swr h j (exec_swl h i g) = g\<lparr>memory := le_update a (reg g (rt i)) (memory g)\<rparr>"
proof -
  define s1 where "s1 = store_word h (word_align (a + 3)) (swl_merge (a + 3)
      (fst (load_word h (word_align (a + 3)) g)) (reg g (rt i))) g"
  have swl: "exec_swl h i g = s1"
    using assms(2) ram.load_ram [OF assms(5), of h g] by (simp add: exec_swl_def s1_def Let_def)
  have addr: "mem_addr j s1 = a" using assms(3) by (simp add: mem_addr_def s1_def)
  have r: "reg s1 = reg g" by (simp add: s1_def)
  define s2 where "s2 = store_word h (word_align a)
      (swr_merge a (fst (load_word h (word_align a) s1)) (reg g (rt i))) s1"
  have swr: "exec_swr h j s1 = s2"
    using addr ram.load_ram [OF assms(4), of h s1] by (simp add: exec_swr_def s2_def r assms(1) Let_def)
  have "s2 = s1\<lparr>memory := memory s2\<rparr>" unfolding s2_def by (rule store_memory_only [OF assms(4)])
  moreover have "s1 = g\<lparr>memory := memory s1\<rparr>" unfolding s1_def by (rule store_memory_only [OF assms(5)])
  ultimately have "s2 = g\<lparr>memory := memory s1\<rparr>\<lparr>memory := memory s2\<rparr>" by metis
  moreover have "memory s2 = le_update a (reg g (rt i)) (memory g)"
    using ram.unaligned_store [OF assms(4,5), of h g "reg g (rt i)"] by (simp add: s1_def s2_def)
  ultimately show ?thesis by (simp add: swl swr)
qed

text \<open>
  C26: the pairs lwl, lwr and swl, swr (the first at the last byte, the second at the first) move the word at
  any address, aligned or not, unless one of the two aligned words around it is a device register: the load,
  when its base is not the register it loads (lwr would then use the changed base), fetches the four bytes
  and changes nothing but that register; the store writes exactly these four bytes and changes nothing else.
\<close>

theorem unaligned_pairs:
  assumes "rt j = rt i" "mem_addr i g = a + 3" "mem_addr j g = a"
    and "\<not> device_register (word_align a)" "\<not> device_register (word_align (a + 3))"
  shows "(rs j \<noteq> rt i \<longrightarrow> exec_lwr h j (exec_lwl h i g) = set_reg (rt i) (le_word (memory g) a) g)
    \<and> exec_swr h j (exec_swl h i g) = g\<lparr>memory := le_update a (reg g (rt i)) (memory g)\<rparr>"
  using unaligned_load_pair [OF assms(1) _ assms(2-5)] unaligned_store_pair [OF assms] by blast

text \<open>\<open>lwl $8, 8($4)\<close>, \<open>lwr $8, 5($4)\<close>, as words for either pair, from address 5.\<close>

lemma unaligned_pairs_witness:
  "exec_lwr quiet_host 0x98880005 (exec_lwl quiet_host 0x88880008 zero_machine)
     = set_reg 8 (le_word (memory zero_machine) 5) zero_machine
   \<and> exec_swr quiet_host 0x98880005 (exec_swl quiet_host 0x88880008 zero_machine)
     = zero_machine\<lparr>memory := le_update 5 0 (\<lambda>_. 0)\<rparr>"
  using unaligned_pairs [where a = 5 and i = "0x88880008" and j = "0x98880005"
      and g = zero_machine and h = quiet_host]
  by (simp add: field_defs mem_addr_def device_register_def word_align_def zero_machine_def)

end
