(* ===== verification/Alu.thy ===== *)
theory Alu
  imports Arith Rounding
begin

text \<open>
  The instructions that compute a value from registers and an immediate (src/cpu.c), against their
  meaning on integers: the operands are read as numbers, the result is a number, and the register
  receives it modulo \<open>2 ^ 32\<close>.
\<close>

section \<open>The meaning on integers\<close>

text \<open>The signed reading of an unsigned number, and a truth function applied bit by bit.\<close>

definition signed_as :: "nat \<Rightarrow> int \<Rightarrow> int" where
  "signed_as w x = (if x < 2 ^ (w - 1) then x else x - 2 ^ w)"

definition bitwise :: "(bool \<Rightarrow> bool \<Rightarrow> bool) \<Rightarrow> int \<Rightarrow> int \<Rightarrow> int" where
  "bitwise f x y = (\<Sum>n = 0..<32. of_bool (f (odd (x div 2 ^ n)) (odd (y div 2 ^ n))) * 2 ^ n)"

text \<open>How many of the 32 leading digits of \<open>x\<close> in base 2 are zero.\<close>

definition leading_zeros :: "int \<Rightarrow> int" where
  "leading_zeros x = 32 - int (bitlen (nat x))"

definition alu_register :: "u8 \<Rightarrow> int \<Rightarrow> int \<Rightarrow> nat \<Rightarrow> int \<Rightarrow> int option" where
  "alu_register f s t sh d = switch f
     [(FN_ADDU, Some (s + t)), (FN_SUBU, Some (s - t)),
      (FN_AND, Some (bitwise (\<and>) s t)), (FN_OR, Some (bitwise (\<or>) s t)),
      (FN_XOR, Some (bitwise (\<noteq>) s t)), (FN_NOR, Some (bitwise (\<lambda>a b. \<not> (a \<or> b)) s t)),
      (FN_SLT, Some (of_bool (signed_as 32 s < signed_as 32 t))), (FN_SLTU, Some (of_bool (s < t))),
      (FN_SLL, Some (t * 2 ^ sh)), (FN_SRL, Some (t div 2 ^ sh)),
      (FN_SRA, Some (signed_as 32 t div 2 ^ sh)),
      (FN_SLLV, Some (t * 2 ^ nat (s mod 32))), (FN_SRLV, Some (t div 2 ^ nat (s mod 32))),
      (FN_SRAV, Some (signed_as 32 t div 2 ^ nat (s mod 32))),
      (FN_MOVZ, Some (if t = 0 then s else d)), (FN_MOVN, Some (if t \<noteq> 0 then s else d))] None"

definition alu_immediate :: "u8 \<Rightarrow> int \<Rightarrow> int \<Rightarrow> int option" where
  "alu_immediate f s k = switch f
     [(OP_ADDIU, Some (s + signed_as 16 k)),
      (OP_ANDI, Some (bitwise (\<and>) s k)), (OP_ORI, Some (bitwise (\<or>) s k)),
      (OP_XORI, Some (bitwise (\<noteq>) s k)),
      (OP_SLTI, Some (of_bool (signed_as 32 s < signed_as 16 k))),
      (OP_SLTIU, Some (of_bool (s < signed_as 16 k mod 2 ^ 32))),
      (OP_LUI, Some (k * 2 ^ 16))] None"

definition alu_special2 :: "u8 \<Rightarrow> int \<Rightarrow> int option" where
  "alu_special2 f s = switch f
     [(FN2_CLZ, Some (leading_zeros s)), (FN2_CLO, Some (leading_zeros (2 ^ 32 - 1 - s)))] None"

text \<open>The destination and the number an instruction computes, if it is one of these.\<close>

definition alu_spec :: "u32 \<Rightarrow> 'w machine \<Rightarrow> (u8 \<times> int) option" where
  "alu_spec i g =
     (let s = uint (reg g (rs i)); t = uint (reg g (rt i)) in
      if op i = OP_SPECIAL
      then map_option (Pair (rd i)) (alu_register (funct i) s t (unat (shamt i)) (uint (reg g (rd i))))
      else if op i = OP_SPECIAL2 then map_option (Pair (rd i)) (alu_special2 (funct i) s)
      else map_option (Pair (rt i)) (alu_immediate (op i) s (uint (imm16 i))))"

section \<open>Words and integers\<close>

lemma sint_signed_as:
  "sint (v :: u32) = signed_as 32 (uint v)" "sint (k :: u16) = signed_as 16 (uint k)"
  "sint (b :: u8) = signed_as 8 (uint b)"
proof -
  have read: "take_bit (Suc n) x - 2 ^ Suc n * of_bool (bit x n) = signed_as (Suc n) x"
    if "0 \<le> x" "x < 2 ^ Suc n" for n and x :: int
  proof (cases "x < 2 ^ n")
    case True
    with that show ?thesis by (simp add: signed_as_def bit_iff_odd take_bit_int_eq_self)
  next
    case False
    with that have "x div 2 ^ n = 1" by (intro int_div_pos_eq [where r = "x - 2 ^ n"]) simp_all
    with False that show ?thesis by (simp add: signed_as_def bit_iff_odd take_bit_int_eq_self)
  qed
  show "sint v = signed_as 32 (uint v)"
    using read [of "uint v" 31] unsigned_less [of v, where 'a = int]
    by (simp add: sint_uint signed_take_bit_eq_take_bit_minus)
  show "sint k = signed_as 16 (uint k)"
    using read [of "uint k" 15] unsigned_less [of k, where 'a = int]
    by (simp add: sint_uint signed_take_bit_eq_take_bit_minus)
  show "sint b = signed_as 8 (uint b)"
    using read [of "uint b" 7] unsigned_less [of b, where 'a = int]
    by (simp add: sint_uint signed_take_bit_eq_take_bit_minus)
qed

lemma uint_div: "uint (drop_bit n (v :: u32)) = uint v div 2 ^ n"
  unfolding unsigned_drop_bit_eq
  using unsigned_less [of v, where 'a = int] by (simp add: drop_bit_eq_div take_bit_int_eq_self)

lemma word_div: "word_of_int (uint v div 2 ^ n) = drop_bit n (v :: u32)"
  by (simp flip: uint_div)

lemma word_signed_div: "word_of_int (sint v div 2 ^ n) = signed_drop_bit n (v :: u32)"
proof -
  have "sint v div 2 ^ n = sint (signed_drop_bit n v)"
    by (simp add: sint_signed_drop_bit_eq drop_bit_eq_div)
  then show ?thesis by simp
qed

lemma word_cond: "word_of_int (of_bool c) = of_cond c"
  by (simp add: of_cond_def)

lemma bit_bitwise: "bit (word_of_int (bitwise f x y) :: u32) n \<longleftrightarrow> n < 32 \<and> f (bit x n) (bit y n)"
proof -
  have "bitwise f x y = horner_sum of_bool 2 (map (\<lambda>n. f (bit x n) (bit y n)) [0..<32])"
    by (simp add: bitwise_def horner_sum_eq_sum bit_iff_odd)
  then show ?thesis by (cases "n < 32") (simp_all add: bit_of_int_iff bit_horner_sum_bit_iff)
qed

lemma word_bitwise:
  "word_of_int (bitwise (\<and>) (uint v) (uint u)) = v AND (u :: u32)"
  "word_of_int (bitwise (\<or>) (uint v) (uint u)) = v OR (u :: u32)"
  "word_of_int (bitwise (\<noteq>) (uint v) (uint u)) = v XOR (u :: u32)"
  "word_of_int (bitwise (\<lambda>a b. \<not> (a \<or> b)) (uint v) (uint u)) = NOT (v OR (u :: u32))"
  by (rule bit_word_eqI; auto simp: bit_bitwise bit_and_iff bit_or_iff bit_xor_iff bit_not_iff bit_uint_iff)+

lemma word_bitwise_imm:
  "word_of_int (bitwise (\<and>) (uint v) (uint k)) = v AND (ucast (k :: u16) :: u32)"
  "word_of_int (bitwise (\<or>) (uint v) (uint k)) = v OR (ucast (k :: u16) :: u32)"
  "word_of_int (bitwise (\<noteq>) (uint v) (uint k)) = v XOR (ucast (k :: u16) :: u32)"
  by (rule bit_word_eqI; auto simp: bit_bitwise bit_and_iff bit_or_iff bit_xor_iff bit_uint_iff bit_ucast_iff
      dest: bit_imp_le_length)+

lemma word_simm:
  "word_of_int (sint (imm16 i)) = simm i" "uint (simm i) = sint (imm16 i) mod 2 ^ 32"
proof -
  show "word_of_int (sint (imm16 i)) = simm i" by (simp add: simm_def)
  then have "uint (simm i) = uint (word_of_int (sint (imm16 i)) :: u32)" by simp
  then show "uint (simm i) = sint (imm16 i) mod 2 ^ 32"
    by (simp only: uint_word_of_int) simp
qed

text \<open>The counts of shifts by a register and of leading bits.\<close>

lemma shift_count: "unat (v AND 0x1F :: u32) = nat (uint v mod 32)"
proof -
  have "(0x1F :: u32) = mask 5" by (simp add: mask_eq_exp_minus_1)
  then have "uint (v AND 0x1F) = take_bit 5 (uint v)"
    by (simp only: take_bit_eq_mask [symmetric] unsigned_take_bit_eq)
  then show ?thesis by (simp add: unat_eq_nat_uint take_bit_eq_mod)
qed

lemma leading_bits_value:
  assumes "leading_bits False v n"
  shows "int n = leading_zeros (uint v)"
proof (cases "v = 0")
  case True
  then have "n = 32" using assms by (auto simp: leading_bits_def)
  with True show ?thesis by (simp add: leading_zeros_def bitlen.simps [of 0])
next
  case False
  have "\<not> bit v k" if "32 - n \<le> k" for k
    using assms that bit_imp_le_length [of v k] by (auto simp: leading_bits_def)
  then have "take_bit (32 - n) v = v"
    by (intro bit_word_eqI) (metis bit_take_bit_iff not_le)
  then have less: "unat v < 2 ^ (32 - n)"
    by (metis take_bit_nat_less_exp unsigned_take_bit_eq)
  with False have n: "n < 32" using assms by (auto simp: leading_bits_def unat_eq_0 intro: ccontr)
  then have "bit v (31 - n)" using assms by (simp add: leading_bits_def)
  then have "odd (unat v div 2 ^ (31 - n))"
    by (simp add: bit_unsigned_iff bit_iff_odd [of "unat v", symmetric])
  then have least: "2 ^ (31 - n) \<le> unat v"
    by (intro leI) (use div_less in force)
  have "bitlen (unat v) = 32 - n"
  proof (rule antisym)
    have "0 < unat v" using least by (simp add: unat_gt_0 False)
    from bitlen_bounds [OF this] less have "(2 :: nat) ^ (bitlen (unat v) - 1) < 2 ^ (32 - n)"
      by linarith
    then show "bitlen (unat v) \<le> 32 - n" by simp
    show "32 - n \<le> bitlen (unat v)" using bitlen_least [OF least] n by simp
  qed
  with n show ?thesis by (simp add: leading_zeros_def)
qed

lemma leading_ones_value:
  assumes "leading_bits True v n"
  shows "int n = leading_zeros (2 ^ 32 - 1 - uint v)"
proof -
  have "leading_bits False (NOT v) n"
    using assms by (auto simp: leading_bits_def bit_not_iff)
  moreover have "uint (NOT v) = 2 ^ 32 - 1 - uint v"
    using unsigned_less [of v, where 'a = int]
    by (simp add: unsigned_not_eq take_bit_not_eq_mask_diff mask_eq_exp_minus_1 take_bit_int_eq_self)
  ultimately show ?thesis using leading_bits_value [of "NOT v" n] by simp
qed

lemmas alu_words = word_div word_signed_div push_bit_eq_mult word_cond word_bitwise
  word_bitwise [simplified] shift_count sint_signed_as [symmetric] word_less_def
  word_bitwise_imm word_bitwise_imm [simplified] word_simm simm_def [symmetric] uint_0_iff set_reg_same

section \<open>The instructions\<close>

definition computes :: "u8 \<Rightarrow> 'w machine \<Rightarrow> (int \<times> 'w machine) result \<Rightarrow> int option \<Rightarrow> bool" where
  "computes d g r v \<longleftrightarrow>
     (case v of None \<Rightarrow> True | Some x \<Rightarrow> r = Inr (0, set_reg R0 0 (set_reg d (word_of_int x) g)))"

lemma register_exact:
  "computes (rd i) g (exec_register h i g)
     (alu_register (funct i) (uint (reg g (rs i))) (uint (reg g (rt i))) (unat (shamt i)) (uint (reg g (rd i))))"
  unfolding alu_register_def
  by (rule switch_all [where P = "computes _ _ _"], unfold list.pred_inject fst_conv snd_conv,
      intro conjI impI TrueI)
    (simp_all add: computes_def exec_register_def finish_r0_def alu_words)

lemma immediate_exact:
  "computes (rt i) g (exec_immediate h i g) (alu_immediate (op i) (uint (reg g (rs i))) (uint (imm16 i)))"
  unfolding alu_immediate_def
  by (rule switch_all [where P = "computes _ _ _"], unfold list.pred_inject fst_conv snd_conv,
      intro conjI impI TrueI)
    (simp_all add: computes_def exec_immediate_def finish_r0_def alu_words)

lemma special2_exact:
  "computes (rd i) g (exec_special2 h i g) (alu_special2 (funct i) (uint (reg g (rs i))))"
  unfolding alu_special2_def
  by (rule switch_all [where P = "computes _ _ _"], unfold list.pred_inject fst_conv snd_conv,
      intro conjI impI TrueI)
    (simp_all add: computes_def exec_special2_def finish_r0_def
      leading_bits_value [OF clz_leading, symmetric] leading_ones_value [OF clo_leading, symmetric, simplified])

lemma alu_register_known: "alu_register FN_SYSCALL s t n d = None" "alu_register FN_BREAK s t n d = None"
  by (simp_all add: alu_register_def)

lemma decoded_immediate:
  assumes "alu_immediate (op i) s k = Some x"
  shows "exec_decoded h i g = exec_immediate h i g"
proof -
  have "op i \<in> {OP_ADDIU, OP_ANDI, OP_ORI, OP_XORI, OP_SLTI, OP_SLTIU, OP_LUI}"
    using assms by (auto simp: alu_immediate_def split: if_splits)
  moreover from this have "i \<noteq> 0" by (auto simp: field_defs)
  ultimately show ?thesis by (auto simp: exec_decoded_def)
qed

text \<open>
  C21: the instructions addu, subu, and, or, xor, nor, slt, sltu, sll, srl, sra, sllv, srlv, srav, movz,
  movn, clz, clo, addiu, andi, ori, xori, slti, sltiu and lui write the number their meaning on integers
  gives, modulo \<open>2 ^ 32\<close>, to their destination, and nothing if that is register 0; nothing else changes.
  The instructions that report overflow (add, sub, addi, mul) and those on HI and LO are not among them:
  they have properties of their own.
\<close>

theorem alu_instructions_exact:
  assumes "alu_spec i g = Some (d, x)" "reg g R0 = 0"
  shows "exec_decoded h i g = Inr (0, if d = R0 then g else set_reg d (word_of_int x) g)"
proof -
  have zero: "set_reg R0 0 (set_reg d v g) = (if d = R0 then g else set_reg d v g)" for v
    using assms(2) set_reg_same [of R0 g] by (auto simp: set_reg_def fun_upd_twist fun_upd_idem)
  consider (special) "op i = OP_SPECIAL" | (special2) "op i = OP_SPECIAL2"
    | (immediate) "op i \<noteq> OP_SPECIAL" "op i \<noteq> OP_SPECIAL2" by blast
  then have "exec_decoded h i g = Inr (0, set_reg R0 0 (set_reg d (word_of_int x) g))"
  proof cases
    case special
    then have v: "d = rd i" "alu_register (funct i) (uint (reg g (rs i))) (uint (reg g (rt i))) (unat (shamt i))
        (uint (reg g (rd i))) = Some x"
      using assms(1) by (auto simp: alu_spec_def Let_def)
    then have "funct i \<noteq> FN_SYSCALL" "funct i \<noteq> FN_BREAK" using alu_register_known by auto
    with special assms(2) have "exec_decoded h i g = exec_register h i g" by (simp add: special_decoded)
    with v register_exact [of i g h] show ?thesis by (simp add: computes_def)
  next
    case special2
    then have v: "d = rd i" "alu_special2 (funct i) (uint (reg g (rs i))) = Some x"
      using assms(1) by (auto simp: alu_spec_def Let_def)
    from special2 have "exec_decoded h i g = exec_special2 h i g" by (auto simp: exec_decoded_def field_defs)
    with v special2_exact [of i g h] show ?thesis by (simp add: computes_def)
  next
    case immediate
    then have v: "d = rt i" "alu_immediate (op i) (uint (reg g (rs i))) (uint (imm16 i)) = Some x"
      using assms(1) by (auto simp: alu_spec_def Let_def)
    with decoded_immediate [OF v(2), of h g] immediate_exact [of i g h] show ?thesis by (simp add: computes_def)
  qed
  then show ?thesis unfolding zero .
qed

text \<open>\<open>sra $2, $4, 3\<close> with -20.\<close>

lemma alu_instructions_exact_witness:
  "exec_decoded quiet_host 0x000410C3 (zero_machine\<lparr>reg := (\<lambda>_. 0)(4 := - 20)\<rparr>)
    = Inr (0, set_reg 2 (- 3) (zero_machine\<lparr>reg := (\<lambda>_. 0)(4 := - 20)\<rparr>))"
proof -
  have fields: "op 0x000410C3 = OP_SPECIAL" "funct 0x000410C3 = FN_SRA" "rs 0x000410C3 = 0"
    "rt 0x000410C3 = 4" "rd 0x000410C3 = 2" "shamt 0x000410C3 = 3"
    by code_simp+
  have "alu_spec 0x000410C3 (zero_machine\<lparr>reg := (\<lambda>_. 0)(4 := - 20)\<rparr>) = Some (2, - 3)"
    by (simp add: alu_spec_def alu_register_def fields signed_as_def zero_machine_def)
  then show ?thesis
    using alu_instructions_exact [of "0x000410C3" "zero_machine\<lparr>reg := (\<lambda>_. 0)(4 := - 20)\<rparr>" 2 "- 3" quiet_host]
    by (simp add: zero_machine_def)
qed

end
