(* ===== verification/Load_Store.thy ===== *)
theory Load_Store
  imports Memory Alu
begin

text \<open>
  The loads and stores of bytes, halves and words (src/cpu.c, src/functions.c) against their meaning on
  integers: the memory at an address, read as a little-endian number of one, two or four bytes.
\<close>

section \<open>Numbers in memory\<close>

fun mem_int :: "(u32 \<Rightarrow> u8) \<Rightarrow> u32 \<Rightarrow> nat \<Rightarrow> int" where
  "mem_int m a 0 = 0"
| "mem_int m a (Suc n) = uint (m a) + 256 * mem_int m (a + 1) n"

lemma mem_int_bounds: "0 \<le> mem_int m a n \<and> mem_int m a n < 256 ^ n"
proof (induction n arbitrary: a)
  case (Suc n)
  have "uint (m a) < 256" using unsigned_less [of "m a", where 'a = int] by simp
  with Suc [of "a + 1"] show ?case by simp
qed simp

lemma mem_int_bytes:
  "mem_int m a 1 = uint (m a)" "mem_int m a 2 = uint (m a) + 256 * uint (m (a + 1))"
  "mem_int m a 4 = uint (m a) + 256 * uint (m (a + 1)) + 65536 * uint (m (a + 2)) + 16777216 * uint (m (a + 3))"
  by (simp_all add: numeral_2_eq_2 numeral_eq_Suc add.assoc)

lemma byte_sum:
  assumes "\<forall>n. bit w n \<longrightarrow> n < k"
  shows "w OR push_bit k (ucast (b :: u8)) = w + (of_int (2 ^ k * uint b) :: u32)"
proof -
  have "w + push_bit k (ucast b) = w OR (push_bit k (ucast b) :: u32)"
    by (rule disjunctive_add) (metis assms bit_push_bit_iff not_le)
  moreover have "push_bit k (ucast b) = (of_int (2 ^ k * uint b) :: u32)"
    by (simp add: push_bit_eq_mult mult.commute)
  ultimately show ?thesis by simp
qed

lemma half_value: "load_half a g = word_of_int (mem_int (memory g) a 2)"
  unfolding load_half_def mem_int_bytes
  by (subst byte_sum) (auto simp: bit_ucast_iff dest: bit_imp_le_length)

lemma word_value: "le_word m a = word_of_int (mem_int m a 4)"
  unfolding le_word_def mem_int_bytes or.assoc [symmetric]
proof -
  have "\<forall>n. bit (ucast (m a) :: u32) n \<longrightarrow> n < 8"
    "\<forall>n. bit (ucast (m a) OR push_bit 8 (ucast (m (a + 1))) :: u32) n \<longrightarrow> n < 16"
    "\<forall>n. bit ((ucast (m a) OR push_bit 8 (ucast (m (a + 1)))) OR push_bit 16 (ucast (m (a + 2))) :: u32) n \<longrightarrow> n < 24"
    by (auto simp: bit_or_iff bit_byte_at bit_ucast_iff dest: bit_imp_le_length)
  note below = this
  show "((ucast (m a) OR push_bit 8 (ucast (m (a + 1)))) OR push_bit 16 (ucast (m (a + 2))))
      OR push_bit 24 (ucast (m (a + 3))) = (word_of_int (uint (m a) + 256 * uint (m (a + 1))
      + 65536 * uint (m (a + 2)) + 16777216 * uint (m (a + 3))) :: u32)"
    unfolding byte_sum [OF below(3)] unfolding byte_sum [OF below(2)] unfolding byte_sum [OF below(1)] by simp
qed

lemma uint_mem_int: "n \<le> 4 \<Longrightarrow> uint (word_of_int (mem_int m a n) :: u32) = mem_int m a n"
proof -
  assume "n \<le> 4"
  then have "(256 :: int) ^ n \<le> 256 ^ 4" by (intro power_increasing) simp_all
  with mem_int_bounds [of m a n] show ?thesis
    by (simp add: uint_word_of_int)
qed

text \<open>The bytes a store writes.\<close>

lemma stored_byte: "uint (ucast (v AND 0xFF) :: u8) = uint (v :: u32) mod 256"
proof -
  have "uint (ucast (v AND 0xFF) :: u8) = take_bit 8 (uint v)"
    by (rule bit_eqI) (auto simp: bit_uint_iff byte_of_word_0 bit_take_bit_iff dest: bit_imp_le_length)
  then show ?thesis by (simp add: take_bit_eq_mod)
qed

lemma byte_digits:
  fixes x :: int
  shows "x mod 256 + 256 * (x div 256 mod 256) = x mod 65536"
    "x mod 65536 + 65536 * (x div 65536 mod 256) + 16777216 * (x div 16777216 mod 256) = x mod 4294967296"
proof -
  have two: "y mod 65536 = y mod 256 + 256 * (y div 256 mod 256)" for y :: int
    using zmod_zmult2_eq [of 256 y 256] by simp
  then show "x mod 256 + 256 * (x div 256 mod 256) = x mod 65536" by simp
  have "x mod 4294967296 = x mod 65536 + 65536 * (x div 65536 mod 65536)"
    using zmod_zmult2_eq [of 65536 x 65536] by simp
  moreover have "x div 65536 div 256 = x div 16777216"
    using zdiv_zmult2_eq [of 256 x 65536] by simp
  ultimately show "x mod 65536 + 65536 * (x div 65536 mod 256) + 16777216 * (x div 16777216 mod 256)
      = x mod 4294967296"
    using two [of "x div 65536"] by simp
qed

section \<open>The instructions\<close>

definition load_value :: "u8 \<Rightarrow> (u32 \<Rightarrow> u8) \<Rightarrow> u32 \<Rightarrow> int option" where
  "load_value f m a = switch f
     [(OP_LB, Some (signed_as 8 (mem_int m a 1))), (OP_LBU, Some (mem_int m a 1)),
      (OP_LH, Some (signed_as 16 (mem_int m a 2))), (OP_LHU, Some (mem_int m a 2)),
      (OP_LW, Some (mem_int m a 4))] None"

definition store_size :: "u8 \<Rightarrow> nat option" where
  "store_size f = switch f [(OP_SB, Some 1), (OP_SH, Some 2), (OP_SW, Some 4)] None"

text \<open>The memory after \<open>n\<close> bytes at \<open>a\<close> were overwritten by the number \<open>x\<close>.\<close>

definition overwritten :: "u32 \<Rightarrow> nat \<Rightarrow> int \<Rightarrow> (u32 \<Rightarrow> u8) \<Rightarrow> (u32 \<Rightarrow> u8) \<Rightarrow> bool" where
  "overwritten a n x m m' \<longleftrightarrow> mem_int m' a n = x mod 256 ^ n \<and> (\<forall>b. of_nat n \<le> b - a \<longrightarrow> m' b = m b)"

declare mem_int.simps [simp del]

lemma byte_value: "load_byte a g = word_of_int (mem_int (memory g) a 1)"
  unfolding load_byte_def mem_int_bytes by simp

lemma sign_extended:
  "scast (ucast (word_of_int (mem_int m a 1) :: u32) :: u8) = (word_of_int (signed_as 8 (mem_int m a 1)) :: u32)"
  "scast (ucast (word_of_int (mem_int m a 2) :: u32) :: u16) = (word_of_int (signed_as 16 (mem_int m a 2)) :: u32)"
proof -
  have "uint (word_of_int (mem_int m a 1) :: u8) = mem_int m a 1"
    using mem_int_bounds [of m a 1] by (simp add: uint_word_of_int)
  moreover have "ucast (word_of_int (mem_int m a 1) :: u32) = (word_of_int (mem_int m a 1) :: u8)"
    using mem_int_bounds [of m a 1] by (simp add: ucast_eq uint_word_of_int)
  ultimately show "scast (ucast (word_of_int (mem_int m a 1) :: u32) :: u8)
      = (word_of_int (signed_as 8 (mem_int m a 1)) :: u32)"
    by (simp add: scast_eq sint_signed_as)
  have "uint (word_of_int (mem_int m a 2) :: u16) = mem_int m a 2"
    using mem_int_bounds [of m a 2] by (simp add: uint_word_of_int)
  moreover have "ucast (word_of_int (mem_int m a 2) :: u32) = (word_of_int (mem_int m a 2) :: u16)"
    using mem_int_bounds [of m a 2] by (simp add: ucast_eq uint_word_of_int)
  ultimately show "scast (ucast (word_of_int (mem_int m a 2) :: u32) :: u16)
      = (word_of_int (signed_as 16 (mem_int m a 2)) :: u32)"
    by (simp add: scast_eq sint_signed_as)
qed

lemma loads_exact:
  assumes "op i = OP_LW \<longrightarrow> \<not> device_register (mem_addr i g)"
  shows "computes (rt i) g (exec_immediate h i g) (load_value (op i) (memory g) (mem_addr i g))"
  unfolding load_value_def
  by (rule switch_all [where P = "computes _ _ _"], unfold list.pred_inject fst_conv snd_conv,
      intro conjI impI TrueI)
    (use assms in \<open>simp_all add: computes_def exec_immediate_def finish_r0_def byte_value half_value
      word_value sign_extended ram.load_ram del: One_nat_def\<close>)

lemma stores_overwrite:
  "overwritten a 1 (uint v) (memory g) (memory (store_byte a v g))"
  "overwritten a 2 (uint v) (memory g) (memory (store_half a v g))"
  "\<not> device_register a \<Longrightarrow> overwritten a 4 (uint v) (memory g) (memory (store_word h a v g))"
proof -
  have other: "b \<noteq> a + k" if "n \<le> b - a" "k < n" for b n k :: u32
    using that by auto
  show "overwritten a 1 (uint v) (memory g) (memory (store_byte a v g))"
    using other [of 1 _ 0] by (auto simp: overwritten_def mem_int_bytes store_byte_def stored_byte simp del: One_nat_def)
  show "overwritten a 2 (uint v) (memory g) (memory (store_half a v g))"
    using other [of 2 _ 0] other [of 2 _ 1]
    by (auto simp: overwritten_def mem_int_bytes store_half_def stored_byte uint_div byte_digits)
  assume ram: "\<not> device_register a"
  have "mem_int (le_update a v (memory g)) a 4 = uint v mod 2 ^ 32"
    by (simp add: le_update_def mem_int_bytes stored_byte uint_div byte_digits)
  moreover have "le_update a v (memory g) b = memory g b" if "4 \<le> b - a" for b
    using that by (rule le_update_other)
  ultimately show "overwritten a 4 (uint v) (memory g) (memory (store_word h a v g))"
    by (simp add: overwritten_def ram.store_ram [OF ram])
qed

lemma store_decoded:
  assumes "store_size (op i) = Some n" "n = 4 \<longrightarrow> \<not> device_register (mem_addr i g)"
  shows "\<exists>m'. exec_immediate h i g = Inr (0, set_reg R0 0 (g\<lparr>memory := m'\<rparr>))
    \<and> overwritten (mem_addr i g) n (uint (reg g (rt i))) (memory g) m'"
proof -
  let ?a = "mem_addr i g" and ?v = "reg g (rt i)"
  have memory_only: "store_byte a v g = g\<lparr>memory := memory (store_byte a v g)\<rparr>"
    "store_half a v g = g\<lparr>memory := memory (store_half a v g)\<rparr>"
    "\<not> device_register a \<Longrightarrow> store_word h a v g = g\<lparr>memory := memory (store_word h a v g)\<rparr>" for a v
    by (simp_all add: store_byte_def store_half_def poke_def device_register_def store_word_def device_store_ram)
  have "op i = OP_SB \<and> n = 1 \<or> op i = OP_SH \<and> n = 2 \<or> op i = OP_SW \<and> n = 4"
    using assms(1) by (auto simp: store_size_def split: if_splits)
  then show ?thesis
  proof (elim disjE conjE)
    assume "op i = OP_SB" "n = 1"
    then show ?thesis
      using memory_only(1) [of ?a ?v] stores_overwrite(1) [of ?a ?v g]
      by (intro exI [of _ "memory (store_byte ?a ?v g)"]) (simp add: exec_immediate_def finish_r0_def)
  next
    assume "op i = OP_SH" "n = 2"
    then show ?thesis
      using memory_only(2) [of ?a ?v] stores_overwrite(2) [of ?a ?v g]
      by (intro exI [of _ "memory (store_half ?a ?v g)"]) (simp add: exec_immediate_def finish_r0_def)
  next
    assume "op i = OP_SW" "n = 4"
    then show ?thesis
      using memory_only(3) [of ?a ?v] stores_overwrite(3) [where a = ?a and h = h and v = ?v and g = g] assms(2)
      by (intro exI [of _ "memory (store_word h ?a ?v g)"]) (simp add: exec_immediate_def finish_r0_def)
  qed
qed

lemma decoded_access:
  assumes "load_value (op i) m a \<noteq> None \<or> store_size (op i) \<noteq> None"
  shows "exec_decoded h i g = exec_immediate h i g"
proof -
  have "op i \<in> {OP_LB, OP_LBU, OP_LH, OP_LHU, OP_LW, OP_SB, OP_SH, OP_SW}"
    using assms by (auto simp: load_value_def store_size_def split: if_splits)
  moreover from this have "i \<noteq> 0" by (auto simp: field_defs)
  ultimately show ?thesis by (auto simp: exec_decoded_def)
qed

text \<open>
  C22: lb, lbu, lh, lhu and lw load the little-endian number of one, two or four bytes at their address,
  with or without sign, at any address, aligned or not; sb, sh and sw overwrite one, two or four bytes
  with the low part of the register and no other byte. Nothing else changes. Left out are lw and sw
  at the two device registers, and the other accesses: lwl, lwr, swl, swr and those of the coprocessor.
\<close>

theorem loads_and_stores_exact:
  assumes "reg g R0 = 0" "op i \<in> {OP_LW, OP_SW} \<longrightarrow> \<not> device_register (mem_addr i g)"
  shows "(\<forall>x. load_value (op i) (memory g) (mem_addr i g) = Some x \<longrightarrow>
      exec_decoded h i g = Inr (0, if rt i = R0 then g else set_reg (rt i) (word_of_int x) g))
    \<and> (\<forall>n. store_size (op i) = Some n \<longrightarrow>
      (\<exists>m'. exec_decoded h i g = Inr (0, g\<lparr>memory := m'\<rparr>)
        \<and> overwritten (mem_addr i g) n (uint (reg g (rt i))) (memory g) m'))"
proof (intro conjI allI impI)
  fix x assume x: "load_value (op i) (memory g) (mem_addr i g) = Some x"
  have "set_reg R0 0 (set_reg (rt i) v g) = (if rt i = R0 then g else set_reg (rt i) v g)" for v
    using assms(1) set_reg_same [of R0 g] by (auto simp: set_reg_def fun_upd_twist fun_upd_idem)
  then show "exec_decoded h i g = Inr (0, if rt i = R0 then g else set_reg (rt i) (word_of_int x) g)"
    using loads_exact [of i g h] assms(2) x decoded_access [of i "memory g" "mem_addr i g" h g]
    by (simp add: computes_def)
next
  fix n assume n: "store_size (op i) = Some n"
  have "n = 4 \<longrightarrow> op i = OP_SW" using n by (auto simp: store_size_def split: if_splits)
  with assms(2) obtain m' where m': "exec_immediate h i g = Inr (0, set_reg R0 0 (g\<lparr>memory := m'\<rparr>))"
    "overwritten (mem_addr i g) n (uint (reg g (rt i))) (memory g) m'"
    using store_decoded [OF n, of g h] by auto
  moreover have "set_reg R0 0 (g\<lparr>memory := m'\<rparr>) = g\<lparr>memory := m'\<rparr>"
    using assms(1) set_reg_same [of R0 "g\<lparr>memory := m'\<rparr>"] by simp
  ultimately show "\<exists>m'. exec_decoded h i g = Inr (0, g\<lparr>memory := m'\<rparr>)
        \<and> overwritten (mem_addr i g) n (uint (reg g (rt i))) (memory g) m'"
    using decoded_access [of i "memory g" "mem_addr i g" h g] n by auto
qed

text \<open>\<open>lh $2, 1($4)\<close> where the bytes at 0x101 are \<open>FE FF\<close>.\<close>

lemma loads_and_stores_exact_witness:
  "exec_decoded quiet_host 0x84820001 (zero_machine\<lparr>reg := (\<lambda>_. 0)(4 := 0x100), memory := (\<lambda>_. 0)(0x101 := 0xFE, 0x102 := 0xFF)\<rparr>)
    = Inr (0, set_reg 2 (- 2) (zero_machine\<lparr>reg := (\<lambda>_. 0)(4 := 0x100), memory := (\<lambda>_. 0)(0x101 := 0xFE, 0x102 := 0xFF)\<rparr>))"
proof -
  let ?g = "zero_machine\<lparr>reg := (\<lambda>_. 0)(4 := 0x100), memory := (\<lambda>_. 0)(0x101 := 0xFE, 0x102 := 0xFF)\<rparr>"
  have fields: "op 0x84820001 = OP_LH" "rt 0x84820001 = 2" "rs 0x84820001 = 4" "simm 0x84820001 = 1"
    by code_simp+
  have addr: "mem_addr 0x84820001 ?g = 0x101" by (simp add: mem_addr_def fields)
  have "mem_int (memory ?g) 0x101 2 = 0xFFFE" by (simp add: mem_int_bytes)
  then have val: "load_value (op 0x84820001) (memory ?g) (mem_addr 0x84820001 ?g) = Some (- 2)"
    unfolding addr fields by (simp add: load_value_def signed_as_def)
  have prems: "reg ?g R0 = 0"
    "op 0x84820001 \<in> {OP_LW, OP_SW} \<longrightarrow> \<not> device_register (mem_addr 0x84820001 ?g)"
    by (simp_all add: fields)
  have "exec_decoded quiet_host 0x84820001 ?g
      = Inr (0, if rt 0x84820001 = R0 then ?g else set_reg (rt 0x84820001) (word_of_int (- 2)) ?g)"
    by (rule loads_and_stores_exact [OF prems, THEN conjunct1, rule_format, OF val])
  then show ?thesis unfolding fields by simp
qed

end
