(* ===== verification/Gpu.thy ===== *)
theory Gpu
  imports Memory
begin

text \<open>
  The GPU as a program sees it (src/device.c): the framebuffer is an array of pixels in ordinary
  memory, a store to \<open>GPU_FLUSH\<close> shows it and collects the keys, and a load from \<open>GPU_INPUT\<close> takes the
  last key. The locale \<open>word_array\<close> is about any array of words in a memory with the interface
  \<open>word_port\<close>: it implements a list.
\<close>

section \<open>An array of words in memory\<close>

definition element :: "u32 \<Rightarrow> nat \<Rightarrow> u32" where
  "element base k = base + of_nat (4 * k)"

definition array_words :: "(u32 \<Rightarrow> u8) \<Rightarrow> u32 \<Rightarrow> nat \<Rightarrow> u32 list" where
  "array_words m base n = map (\<lambda>k. le_word m (element base k)) [0..<n]"

lemma array_words_length [simp]: "length (array_words m base n) = n"
  by (simp add: array_words_def)

lemma array_words_nth [simp]: "k < n \<Longrightarrow> array_words m base n ! k = le_word m (element base k)"
  by (simp add: array_words_def)

lemma word_distance:
  assumes "y + 4 \<le> x" "x + 4 \<le> 2 ^ 32"
  shows "4 \<le> (of_nat x - of_nat y :: u32)" "4 \<le> (of_nat y - of_nat x :: u32)"
proof -
  have diff: "(of_nat x - of_nat y :: u32) = of_nat (x - y)" using assms(1) by (simp add: of_nat_diff)
  show "4 \<le> (of_nat x - of_nat y :: u32)"
    unfolding diff word_le_nat_alt unat_of_nat using assms by simp
  have neg: "(of_nat y - of_nat x :: u32) = of_nat (2 ^ 32 - (x - y))" using assms by (simp add: of_nat_diff)
  have "unat (of_nat y - of_nat x :: u32) = 2 ^ 32 - (x - y)"
    unfolding neg unat_of_nat using assms by simp
  then show "4 \<le> (of_nat y - of_nat x :: u32)" using assms by (simp add: word_le_nat_alt)
qed

lemma elements_apart:
  assumes "j \<noteq> k" "4 * j + 4 \<le> 2 ^ 32" "4 * k + 4 \<le> 2 ^ 32"
  shows "apart (element base k) (element base j)"
proof (cases "j < k")
  case True
  with assms word_distance [of "4 * j" "4 * k"] show ?thesis by (simp add: apart_def element_def)
next
  case False
  with assms word_distance [of "4 * k" "4 * j"] show ?thesis by (simp add: apart_def element_def)
qed

locale word_array = word_port load store bytes device
  for load :: "u32 \<Rightarrow> 's \<Rightarrow> u32 \<times> 's" and store :: "u32 \<Rightarrow> u32 \<Rightarrow> 's \<Rightarrow> 's"
    and bytes :: "'s \<Rightarrow> u32 \<Rightarrow> u8" and device :: "u32 \<Rightarrow> bool" +
  fixes base :: u32 and n :: nat
  assumes small: "4 * n \<le> 2 ^ 32"
    and ordinary: "k < n \<Longrightarrow> \<not> device (element base k)"
begin

lemma load_element: "k < n \<Longrightarrow> load (element base k) s = (array_words (bytes s) base n ! k, s)"
  by (simp add: load_ram ordinary)

lemma store_element:
  assumes "k < n"
  shows "array_words (bytes (store (element base k) v s)) base n = (array_words (bytes s) base n)[k := v]"
proof (rule nth_equalityI)
  fix j assume "j < length (array_words (bytes (store (element base k) v s)) base n)"
  then have j: "j < n" by simp
  show "array_words (bytes (store (element base k) v s)) base n ! j = (array_words (bytes s) base n)[k := v] ! j"
  proof (cases "j = k")
    case True
    with assms show ?thesis by (simp add: store_ram ordinary le_word_update_same)
  next
    case False
    moreover have "4 * j + 4 \<le> 2 ^ 32" "4 * k + 4 \<le> 2 ^ 32" using j assms small by linarith+
    ultimately have "apart (element base k) (element base j)" by (rule elements_apart)
    with False j assms show ?thesis by (simp add: store_ram ordinary le_word_update_apart)
  qed
qed simp

text \<open>A sequence of stores is a sequence of list updates.\<close>

lemma store_elements:
  assumes "\<forall>(k, v)\<in>set ps. k < n"
  shows "array_words (bytes (fold (\<lambda>(k, v). store (element base k) v) ps s)) base n
    = fold (\<lambda>(k, v) ws. ws[k := v]) ps (array_words (bytes s) base n)"
  using assms by (induction ps arbitrary: s) (auto simp: store_element)

end

section \<open>The screen\<close>

text \<open>The framebuffer as rows of pixels, \<open>GPU_W * GPU_H\<close> words, and the bytes the texture gets.\<close>

definition pixels :: "'w machine \<Rightarrow> u32 list" where
  "pixels g = array_words (memory g) GPU_FB (GPU_W * GPU_H)"

definition word_bytes :: "u32 \<Rightarrow> u8 list" where
  "word_bytes v = [ucast (v AND 0xFF), ucast (drop_bit 8 v AND 0xFF),
     ucast (drop_bit 16 v AND 0xFF), ucast (drop_bit 24 v AND 0xFF)]"

definition texture :: "u32 list \<Rightarrow> u8 list" where
  "texture ps = concat (map word_bytes ps)"

interpretation screen: word_array "load_word h" "store_word h" memory device_register GPU_FB "GPU_W * GPU_H"
  for h :: "'w host"
proof unfold_locales
  fix k :: nat assume k: "k < GPU_W * GPU_H"
  have "element GPU_FB k - GPU_FB = of_nat (4 * k)" by (simp add: element_def)
  moreover have "unat (of_nat (4 * k) :: u32) = 4 * k" unfolding unat_of_nat using k by simp
  ultimately have "unat (element GPU_FB k - GPU_FB) < 76800" using k by simp
  then show "\<not> device_register (element GPU_FB k)"
    by (auto simp: device_register_def)
qed simp

lemma bytes_of_le_word: "word_bytes (le_word m a) = [m a, m (a + 1), m (a + 2), m (a + 3)]"
proof -
  have byte: "x = y" if "\<And>n. n < 8 \<Longrightarrow> bit x n = bit y n" for x y :: u8
    using that by (intro bit_word_eqI) simp
  show ?thesis
    unfolding word_bytes_def list.inject
    by (intro conjI refl byte) (simp_all add: byte_of_word byte_of_word_0 bit_drop_bit_eq bit_le_word_bytes)
qed

lemma map_by_four:
  "map f [0..<4 * n] = concat (map (\<lambda>k. [f (4 * k), f (4 * k + 1), f (4 * k + 2), f (4 * k + 3)]) [0..<n])"
proof (induction n)
  case (Suc n)
  have four: "[m..<m + 4] = [m, m + 1, m + 2, m + 3]" for m by (simp add: upt_conv_Cons)
  have "4 * Suc n = 4 * n + 4" by simp
  then have "[0..<4 * Suc n] = [0..<4 * n] @ [4 * n, 4 * n + 1, 4 * n + 2, 4 * n + 3]"
    by (simp only: upt_add_eq_append [OF le0] four)
  with Suc show ?case by simp
qed simp

lemma framebuffer_texture: "framebuffer g = texture (pixels g)"
proof -
  have "framebuffer g = map (\<lambda>j. memory g (GPU_FB + of_nat j)) [0..<4 * (GPU_W * GPU_H)]"
    by (simp add: framebuffer_def)
  also have "\<dots> = texture (pixels g)"
    unfolding map_by_four texture_def pixels_def array_words_def map_map
    by (simp add: bytes_of_le_word element_def comp_def add.assoc [symmetric])
  finally show ?thesis .
qed

section \<open>Drawing, showing and reading keys\<close>

text \<open>
  The world in which a flush shows a frame: the device is ready, or SDL starts and makes the window, the
  renderer and the texture. \<open>present\<close> is what a flush does to the world with those pixels.
\<close>

definition screen_open :: "'w host \<Rightarrow> 'w machine \<Rightarrow> 'w \<Rightarrow> bool" where
  "screen_open h g w \<longleftrightarrow>
     (if gpu_ready g then w = world g
      else \<exists>w0. sdl_init h (world g) = (0, w0) \<and> sdl_create h w0 = ((True, True, True), w))"

definition present :: "'w host \<Rightarrow> u32 list \<Rightarrow> 'w \<Rightarrow> sdl_event list \<times> 'w" where
  "present h ps w = sdl_poll h (sdl_present h (texture ps) w)"

lemma draw_frame:
  assumes "\<forall>(k, v)\<in>set draws. k < GPU_W * GPU_H"
  shows "(fold (\<lambda>(k, v). store_word h (element GPU_FB k) v) draws g)\<lparr>memory := m\<rparr> = g\<lparr>memory := m\<rparr>"
  using assms
proof (induction draws arbitrary: g)
  case (Cons p draws)
  obtain k v where p: "p = (k, v)" by (cases p)
  then have "\<not> device_register (element GPU_FB k)" using Cons.prems by (intro screen.ordinary) simp
  then have "(store_word h (element GPU_FB k) v g)\<lparr>memory := m\<rparr> = g\<lparr>memory := m\<rparr>"
    by (simp add: device_register_def store_word_def device_store_ram poke_def)
  with Cons show ?case by (simp add: p)
qed simp

lemma framebuffer_device [simp]:
  "framebuffer (g\<lparr>world := w\<rparr>) = framebuffer g" "framebuffer (g\<lparr>gpu_ready := b\<rparr>) = framebuffer g"
  by (simp_all add: framebuffer_def)

lemma flush_shows:
  assumes "have_sdl h" "screen_open h g w"
  shows "store_word h GPU_FLUSH x g = g\<lparr>gpu_ready := True,
    last_key := foldl handle_event (last_key g) (fst (present h (pixels g) w)), world := snd (present h (pixels g) w)\<rparr>"
proof -
  have "store_word h GPU_FLUSH x g = pump_events h (g\<lparr>gpu_ready := True, world := sdl_present h (framebuffer g) w\<rparr>)"
  proof (cases "gpu_ready g")
    case True
    then have ready: "g\<lparr>gpu_ready := True, world := w'\<rparr> = g\<lparr>world := w'\<rparr>" for w' by (cases g) simp
    show ?thesis
      unfolding ready
      using assms True by (simp add: screen_open_def store_word_def device_store_word_def gpu_flush_def)
  next
    case False
    then show ?thesis
      using assms by (auto simp: screen_open_def store_word_def device_store_word_def gpu_flush_def gpu_init_def)
  qed
  then show ?thesis
    unfolding framebuffer_texture by (simp add: pump_events_def present_def case_prod_beta)
qed

text \<open>
  C23: the frame a flush shows is the screen with every pixel the program stored, in order, and no other
  changed, as the bytes of an ARGB texture; it collects the keys pressed meanwhile, and the next load from
  \<open>GPU_INPUT\<close> delivers the last one, the one after it zero. Nothing else of the machine changes, and the
  window is opened when it was not.
\<close>

theorem frames_show_drawn_pixels:
  assumes "have_sdl h" "screen_open h g w" "\<forall>(k, v)\<in>set draws. k < GPU_W * GPU_H"
    and "ps = fold (\<lambda>(k, v) ps. ps[k := v]) draws (pixels g)"
    and "present h ps w = (events, w')"
    and "g' = store_word h GPU_FLUSH x (fold (\<lambda>(k, v). store_word h (element GPU_FB k) v) draws g)"
  shows "pixels g' = ps \<and> world g' = w' \<and> gpu_ready g'
    \<and> (\<exists>g''. load_word h GPU_INPUT g' = (foldl handle_event (last_key g) events, g'')
        \<and> fst (load_word h GPU_INPUT g'') = 0)
    \<and> g'\<lparr>memory := memory g, gpu_ready := gpu_ready g, last_key := last_key g, world := world g\<rparr> = g"
proof -
  define g1 where "g1 = fold (\<lambda>(k, v). store_word h (element GPU_FB k) v) draws g"
  have frame: "g1\<lparr>memory := m\<rparr> = g\<lparr>memory := m\<rparr>" for m
    unfolding g1_def by (rule draw_frame [OF assms(3)])
  have fields: "gpu_ready g1 = gpu_ready g" "world g1 = world g" "last_key g1 = last_key g"
    using frame [of undefined] by (cases g1; cases g; simp)+
  have ps: "pixels g1 = ps"
    unfolding pixels_def g1_def assms(4) by (rule screen.store_elements [OF assms(3)])
  have "screen_open h g1 w" using assms(2) by (simp add: screen_open_def fields)
  from flush_shows [OF assms(1) this, of x]
  have g': "g' = g1\<lparr>gpu_ready := True, last_key := foldl handle_event (last_key g) events, world := w'\<rparr>"
    unfolding assms(6) g1_def [symmetric] by (simp add: ps assms(5) fields)
  have "pixels g' = ps" using ps by (simp add: g' pixels_def)
  moreover have "g'\<lparr>memory := memory g, gpu_ready := gpu_ready g, last_key := last_key g, world := world g\<rparr> = g"
    using frame [of "memory g"] by (cases g1; cases g) (simp add: g')
  ultimately show ?thesis
    using assms(1) by (simp add: g' load_word_def device_load_word_def)
qed

text \<open>Three stores to the first two pixels, a flush that opens the window, and the key a.\<close>

definition screen_host :: "unit host" where
  "screen_host = quiet_host\<lparr>have_sdl := True, sdl_init := (\<lambda>w. (0, w)),
     sdl_create := (\<lambda>w. ((True, True, True), w)), sdl_poll := (\<lambda>w. ([SDL_OTHER, SDL_KEYDOWN 0x161], w))\<rparr>"

definition demo_frame :: "unit machine" where
  "demo_frame = store_word screen_host GPU_FLUSH 0
     (fold (\<lambda>(k, v). store_word screen_host (element GPU_FB k) v) [(0, 5), (1, 9), (0, 7)] zero_machine)"

lemma frames_show_drawn_pixels_witness:
  "pixels demo_frame ! 0 = 7 \<and> pixels demo_frame ! 1 = 9 \<and> fst (load_word screen_host GPU_INPUT demo_frame) = 0x61"
proof -
  have "screen_open screen_host zero_machine ()"
    by (simp add: screen_open_def screen_host_def zero_machine_def)
  moreover have "present screen_host ps () = ([SDL_OTHER, SDL_KEYDOWN 0x161], ())" for ps
    by (simp add: present_def screen_host_def)
  moreover have "have_sdl screen_host" by (simp add: screen_host_def)
  moreover have "\<forall>(k, v)\<in>set [(0, 5), (1, 9 :: u32), (0, 7)]. k < GPU_W * GPU_H" by simp
  moreover have "length (pixels zero_machine) = 19200" by (simp add: pixels_def)
  ultimately show ?thesis
    using frames_show_drawn_pixels [where h = screen_host and g = zero_machine and w = "()" and w' = "()"
        and draws = "[(0, 5), (1, 9), (0, 7)]" and events = "[SDL_OTHER, SDL_KEYDOWN 0x161]"
        and g' = demo_frame and x = 0, OF _ _ _ refl]
    by (fastforce simp: demo_frame_def)
qed

section \<open>Single stores\<close>

text \<open>A stored word is the four bytes of that pixel in the texture.\<close>

lemma texture_update:
  "k < length ps \<Longrightarrow> texture (ps[k := v]) = take (4 * k) (texture ps) @ word_bytes v @ drop (4 * k + 4) (texture ps)"
proof (induction ps arbitrary: k)
  case (Cons p ps)
  have four: "length (word_bytes x) = 4" for x by (simp add: word_bytes_def)
  from Cons show ?case by (cases k) (simp_all add: texture_def four add.commute [of 4])
qed simp

lemma pixel_stored:
  assumes "k < GPU_W * GPU_H"
  shows "framebuffer (store_word h (element GPU_FB k) v g)
    = take (4 * k) (framebuffer g) @ word_bytes v @ drop (4 * k + 4) (framebuffer g)"
  using assms screen.store_element [OF assms, of h v g] texture_update [of k "pixels g" v]
  by (simp add: framebuffer_texture pixels_def)

text \<open>
  With SDL, a load from \<open>GPU_INPUT\<close> delivers the code of the last key once, and zero until the
  next flush; key presses are collected by the flush, and the last event that is one wins.
\<close>

lemma key_reported_once:
  assumes "have_sdl h" and "gpu_ready g"
    and "sdl_poll h (sdl_present h (framebuffer g) (world g)) = (events @ [SDL_KEYDOWN k], w)"
    and "g1 = store_word h GPU_FLUSH v g"
  shows "fst (load_word h GPU_INPUT g1) = k AND 0xFF
    \<and> fst (load_word h GPU_INPUT (snd (load_word h GPU_INPUT g1))) = 0
    \<and> world g1 = w \<and> memory g1 = memory g"
  using assms
  by (simp add: load_word_def store_word_def device_store_word_def device_load_word_def
      gpu_flush_def pump_events_def)

end
