(* ===== verification/X86.thy ===== *)
theory X86
  imports Machine
begin

text \<open>
  The part of the x86-64 instruction set the code generator of src/jit.c emits, from the encodings
  and the operation sections of the architecture manual: a decoder of machine code and the effect
  of one instruction. The only memory native code may touch is \<open>struct global\<close> (include/utils.h), at a
  base address: any other access is an error of the model.
\<close>

section \<open>State\<close>

text \<open>
  The flags are known after \<open>cmp\<close> and \<open>test\<close>; the other instructions leave flags that nothing may
  rely on.
\<close>

record x86_flags =
  zf :: bool
  sf :: bool
  of_flag :: bool
  cf :: bool

record 'w native =
  rax :: u64
  rcx :: u64
  rdx :: u64
  r15 :: u64
  flags :: "x86_flags option"
  stack :: "u64 list"
  guest :: "'w machine"

section \<open>The layout of the emulator state\<close>

text \<open>
  The fields of \<open>struct global\<close>, with their size and alignment, and their offsets under the System V
  ABI: every field at the next multiple of its alignment.
\<close>

definition struct_global :: "(string \<times> nat \<times> nat) list" where
  "struct_global =
     [(''reg'', 128, 4), (''hi'', 4, 4), (''lo'', 4, 4), (''fpr'', 128, 4), (''fp_cond'', 4, 4),
      (''memory'', 8, 8), (''map'', 800, 4), (''map_index'', 8, 8), (''pc'', 4, 4),
      (''file_size'', 8, 8), (''code_size'', 8, 8), (''debug'', 4, 4), (''log'', 4, 4), (''jit'', 4, 4),
      (''elf'', 4, 4), (''elf_file'', 8, 8), (''elf_header'', 52, 4), (''prg_header'', 8, 8)]"

fun offset_of :: "nat \<Rightarrow> (string \<times> nat \<times> nat) list \<Rightarrow> string \<Rightarrow> nat option" where
  "offset_of start [] field = None"
| "offset_of start ((name, n, align) # fs) field =
     (let off = (start + align - 1) div align * align in
      if name = field then Some off else offset_of (off + n) fs field)"

abbreviation OFF_HI :: u64 where "OFF_HI \<equiv> 128"
abbreviation OFF_LO :: u64 where "OFF_LO \<equiv> 132"
abbreviation OFF_PC :: u64 where "OFF_PC \<equiv> 1088"

lemma field_offsets:
  "offset_of 0 struct_global ''reg'' = Some 0"
  "offset_of 0 struct_global ''hi'' = Some (unat OFF_HI)"
  "offset_of 0 struct_global ''lo'' = Some (unat OFF_LO)"
  "offset_of 0 struct_global ''pc'' = Some (unat OFF_PC)"
  by code_simp+

definition guest_read :: "u64 \<Rightarrow> u64 \<Rightarrow> 'w machine \<Rightarrow> u32 result" where
  "guest_read base addr g =
     (let off = addr - base in
      if off < OFF_HI \<and> off AND 3 = 0 then Inr (reg g (ucast (drop_bit 2 off)))
      else if off = OFF_HI then Inr (hi g)
      else if off = OFF_LO then Inr (lo g)
      else if off = OFF_PC then Inr (pc g)
      else Inl Out_of_bounds)"

definition guest_write :: "u64 \<Rightarrow> u64 \<Rightarrow> u32 \<Rightarrow> 'w machine \<Rightarrow> 'w machine result" where
  "guest_write base addr v g =
     (let off = addr - base in
      if off < OFF_HI \<and> off AND 3 = 0 then Inr (set_reg (ucast (drop_bit 2 off)) v g)
      else if off = OFF_HI then Inr (g\<lparr>hi := v\<rparr>)
      else if off = OFF_LO then Inr (g\<lparr>lo := v\<rparr>)
      else if off = OFF_PC then Inr (g\<lparr>pc := v\<rparr>)
      else Inl Out_of_bounds)"

section \<open>Instructions\<close>

datatype xreg = EAX | ECX | EDX

datatype alu = Alu_add | Alu_or | Alu_and | Alu_sub | Alu_xor | Alu_cmp

datatype shift = Shl | Shr | Sar

text \<open>Displacements are sign-extended; \<open>Mov_at_rax\<close> stores an immediate at the address in rax.\<close>

datatype x86 =
    Push_r15 | Pop_r15 | Ret
  | Movabs_r15 u64 | Movabs_rax u64 | Mov_at_rax u32
  | Load xreg u64 | Store u64 | Store_imm u64 u32
  | Alu_mem alu u64 | Alu_imm alu u32 | Not_eax
  | Setl | Setb | Movzx_al
  | Shift_imm shift u8 | Shift_cl shift
  | Test_ecx | Cmove | Cmovne

subsection \<open>Decoding\<close>

definition le32 :: "u8 \<Rightarrow> u8 \<Rightarrow> u8 \<Rightarrow> u8 \<Rightarrow> u32" where
  "le32 a b c d = ucast a OR push_bit 8 (ucast b) OR push_bit 16 (ucast c) OR push_bit 24 (ucast d)"

definition imm32 :: "(u32 \<Rightarrow> x86) \<Rightarrow> u8 list \<Rightarrow> (x86 \<times> u8 list) option" where
  "imm32 f bs = (case bs of a # b # c # d # r \<Rightarrow> Some (f (le32 a b c d), r) | _ \<Rightarrow> None)"

definition imm64 :: "(u64 \<Rightarrow> x86) \<Rightarrow> u8 list \<Rightarrow> (x86 \<times> u8 list) option" where
  "imm64 f bs =
     (case bs of a # b # c # d # a' # b' # c' # d' # r \<Rightarrow>
        Some (f (push_bit 32 (ucast (le32 a' b' c' d')) OR ucast (le32 a b c d)), r)
      | _ \<Rightarrow> None)"

definition disp8 :: "(u64 \<Rightarrow> x86) \<Rightarrow> u8 list \<Rightarrow> (x86 \<times> u8 list) option" where
  "disp8 f bs = (case bs of a # r \<Rightarrow> Some (f (scast a), r) | _ \<Rightarrow> None)"

definition alu_opcode :: "u8 \<Rightarrow> alu option" where
  "alu_opcode b =
     (if b = 0x03 then Some Alu_add else if b = 0x0B then Some Alu_or
      else if b = 0x23 then Some Alu_and else if b = 0x2B then Some Alu_sub
      else if b = 0x33 then Some Alu_xor else if b = 0x3B then Some Alu_cmp else None)"

definition shift_modrm :: "u8 \<Rightarrow> shift option" where
  "shift_modrm b =
     (if b = 0xE0 then Some Shl else if b = 0xE8 then Some Shr
      else if b = 0xF8 then Some Sar else None)"

text \<open>After the prefix 41 (REX.B: the base register is r15).\<close>

definition decode_rex_b :: "u8 list \<Rightarrow> (x86 \<times> u8 list) option" where
  "decode_rex_b bs =
     (case bs of
        b # r \<Rightarrow>
          if b = 0x57 then Some (Push_r15, r)
          else if b = 0x5F then Some (Pop_r15, r)
          else (case r of
            modrm # r' \<Rightarrow>
              if b = 0x8B \<and> modrm = 0x47 then disp8 (Load EAX) r'
              else if b = 0x8B \<and> modrm = 0x4F then disp8 (Load ECX) r'
              else if b = 0x8B \<and> modrm = 0x57 then disp8 (Load EDX) r'
              else if b = 0x89 \<and> modrm = 0x47 then disp8 Store r'
              else if b = 0x8B \<and> modrm = 0x87 then imm32 (\<lambda>d. Load EAX (scast d)) r'
              else if b = 0x89 \<and> modrm = 0x87 then imm32 (\<lambda>d. Store (scast d)) r'
              else if b = 0xC7 \<and> modrm = 0x47
              then (case r' of d # r'' \<Rightarrow> imm32 (Store_imm (scast d)) r'' | [] \<Rightarrow> None)
              else if modrm = 0x47
              then (case alu_opcode b of Some a \<Rightarrow> disp8 (Alu_mem a) r' | None \<Rightarrow> None)
              else None
          | [] \<Rightarrow> None)
      | [] \<Rightarrow> None)"

text \<open>After the escape byte 0F.\<close>

definition decode_0f :: "u8 list \<Rightarrow> (x86 \<times> u8 list) option" where
  "decode_0f bs =
     (case bs of
        b # modrm # r \<Rightarrow>
          if b = 0x9C \<and> modrm = 0xC0 then Some (Setl, r)
          else if b = 0x92 \<and> modrm = 0xC0 then Some (Setb, r)
          else if b = 0xB6 \<and> modrm = 0xC0 then Some (Movzx_al, r)
          else if b = 0x44 \<and> modrm = 0xC2 then Some (Cmove, r)
          else if b = 0x45 \<and> modrm = 0xC2 then Some (Cmovne, r)
          else None
      | _ \<Rightarrow> None)"

definition decode_two :: "u8 \<Rightarrow> u8 list \<Rightarrow> (x86 \<times> u8 list) option" where
  "decode_two b bs =
     (case bs of
        c # r \<Rightarrow>
          if b = 0x49 \<and> c = 0xBF then imm64 Movabs_r15 r
          else if b = 0x48 \<and> c = 0xB8 then imm64 Movabs_rax r
          else if b = 0xC7 \<and> c = 0x00 then imm32 Mov_at_rax r
          else if b = 0xF7 \<and> c = 0xD0 then Some (Not_eax, r)
          else if b = 0x85 \<and> c = 0xC9 then Some (Test_ecx, r)
          else if b = 0xC1
          then (case r of n # r' \<Rightarrow> map_option (\<lambda>k. (Shift_imm k n, r')) (shift_modrm c)
                | [] \<Rightarrow> None)
          else if b = 0xD3 then map_option (\<lambda>k. (Shift_cl k, r)) (shift_modrm c)
          else None
      | [] \<Rightarrow> None)"

definition x86_decode :: "u8 list \<Rightarrow> (x86 \<times> u8 list) option" where
  "x86_decode bs =
     (case bs of
        [] \<Rightarrow> None
      | b # r \<Rightarrow>
          if b = 0xC3 then Some (Ret, r)
          else if b = 0x41 then decode_rex_b r
          else if b = 0x0F then decode_0f r
          else if b = 0x05 then imm32 (Alu_imm Alu_add) r
          else if b = 0x25 then imm32 (Alu_imm Alu_and) r
          else if b = 0x0D then imm32 (Alu_imm Alu_or) r
          else if b = 0x35 then imm32 (Alu_imm Alu_xor) r
          else if b = 0x3D then imm32 (Alu_imm Alu_cmp) r
          else decode_two b r)"

subsection \<open>Effect\<close>

definition xget :: "xreg \<Rightarrow> 'w native \<Rightarrow> u32" where
  "xget r s = (case r of EAX \<Rightarrow> ucast (rax s) | ECX \<Rightarrow> ucast (rcx s) | EDX \<Rightarrow> ucast (rdx s))"

text \<open>Writing a 32-bit register clears the upper half.\<close>

definition xset :: "xreg \<Rightarrow> u32 \<Rightarrow> 'w native \<Rightarrow> 'w native" where
  "xset r v s = (case r of EAX \<Rightarrow> s\<lparr>rax := ucast v\<rparr> | ECX \<Rightarrow> s\<lparr>rcx := ucast v\<rparr>
     | EDX \<Rightarrow> s\<lparr>rdx := ucast v\<rparr>)"

definition sub_flags :: "u32 \<Rightarrow> u32 \<Rightarrow> x86_flags" where
  "sub_flags a b = \<lparr>zf = (a = b), sf = (sint (a - b) < 0),
     of_flag = (\<not> fits_signed 32 (sint a - sint b)), cf = (a < b)\<rparr>"

text \<open>The result of an operation on eax, and the flags when the model knows them.\<close>

definition alu_exec :: "alu \<Rightarrow> u32 \<Rightarrow> 'w native \<Rightarrow> 'w native" where
  "alu_exec a b s =
     (let x = xget EAX s in
      case a of
        Alu_add \<Rightarrow> (xset EAX (x + b) s)\<lparr>flags := None\<rparr>
      | Alu_or \<Rightarrow> (xset EAX (x OR b) s)\<lparr>flags := None\<rparr>
      | Alu_and \<Rightarrow> (xset EAX (x AND b) s)\<lparr>flags := None\<rparr>
      | Alu_sub \<Rightarrow> (xset EAX (x - b) s)\<lparr>flags := None\<rparr>
      | Alu_xor \<Rightarrow> (xset EAX (x XOR b) s)\<lparr>flags := None\<rparr>
      | Alu_cmp \<Rightarrow> s\<lparr>flags := Some (sub_flags x b)\<rparr>)"

text \<open>Shift counts are taken modulo 32.\<close>

definition shift_exec :: "shift \<Rightarrow> nat \<Rightarrow> 'w native \<Rightarrow> 'w native" where
  "shift_exec k n s =
     (let x = xget EAX s;
          y = (case k of Shl \<Rightarrow> push_bit n x | Shr \<Rightarrow> drop_bit n x | Sar \<Rightarrow> signed_drop_bit n x)
      in (xset EAX y s)\<lparr>flags := None\<rparr>)"

definition with_flags :: "'w native \<Rightarrow> (x86_flags \<Rightarrow> 'w native) \<Rightarrow> 'w native result" where
  "with_flags s f = (case flags s of None \<Rightarrow> Inl Illegal_code | Some fl \<Rightarrow> Inr (f fl))"

definition set_al :: "bool \<Rightarrow> 'w native \<Rightarrow> 'w native" where
  "set_al b s = s\<lparr>rax := (rax s AND NOT 0xFF) OR (if b then 1 else 0)\<rparr>"

fun x86_exec :: "u64 \<Rightarrow> x86 \<Rightarrow> 'w native \<Rightarrow> 'w native result" where
  "x86_exec base Push_r15 s = Inr (s\<lparr>stack := r15 s # stack s\<rparr>)"
| "x86_exec base Pop_r15 s =
     (case stack s of [] \<Rightarrow> Inl Out_of_bounds | v # st \<Rightarrow> Inr (s\<lparr>r15 := v, stack := st\<rparr>))"
| "x86_exec base Ret s = Inr s"
| "x86_exec base (Movabs_r15 v) s = Inr (s\<lparr>r15 := v\<rparr>)"
| "x86_exec base (Movabs_rax v) s = Inr (s\<lparr>rax := v\<rparr>)"
| "x86_exec base (Mov_at_rax v) s =
     rbind (guest_write base (rax s) v (guest s)) (\<lambda>g. Inr (s\<lparr>guest := g\<rparr>))"
| "x86_exec base (Load r d) s =
     rbind (guest_read base (r15 s + d) (guest s)) (\<lambda>v. Inr (xset r v s))"
| "x86_exec base (Store d) s =
     rbind (guest_write base (r15 s + d) (xget EAX s) (guest s)) (\<lambda>g. Inr (s\<lparr>guest := g\<rparr>))"
| "x86_exec base (Store_imm d v) s =
     rbind (guest_write base (r15 s + d) v (guest s)) (\<lambda>g. Inr (s\<lparr>guest := g\<rparr>))"
| "x86_exec base (Alu_mem a d) s =
     rbind (guest_read base (r15 s + d) (guest s)) (\<lambda>v. Inr (alu_exec a v s))"
| "x86_exec base (Alu_imm a v) s = Inr (alu_exec a v s)"
| "x86_exec base Not_eax s = Inr (xset EAX (NOT (xget EAX s)) s)"
| "x86_exec base Setl s = with_flags s (\<lambda>f. set_al (sf f \<noteq> of_flag f) s)"
| "x86_exec base Setb s = with_flags s (\<lambda>f. set_al (cf f) s)"
| "x86_exec base Movzx_al s = Inr (xset EAX (xget EAX s AND 0xFF) s)"
| "x86_exec base (Shift_imm k n) s = Inr (shift_exec k (unat (n AND 0x1F)) s)"
| "x86_exec base (Shift_cl k) s = Inr (shift_exec k (unat (xget ECX s AND 0x1F)) s)"
| "x86_exec base Test_ecx s =
     (let c = xget ECX s in
      Inr (s\<lparr>flags := Some \<lparr>zf = (c = 0), sf = (sint c < 0), of_flag = False, cf = False\<rparr>\<rparr>))"
| "x86_exec base Cmove s =
     with_flags s (\<lambda>f. xset EAX (if zf f then xget EDX s else xget EAX s) s)"
| "x86_exec base Cmovne s =
     with_flags s (\<lambda>f. xset EAX (if \<not> zf f then xget EDX s else xget EAX s) s)"

section \<open>Running code\<close>

text \<open>
  The code has no jumps: it runs from its first byte to the \<open>ret\<close>. Decoding consumes bytes.
\<close>

lemma imm_decode_shorter:
  "imm32 f bs = Some (i, r) \<Longrightarrow> length r < length bs"
  "imm64 f'' bs = Some (i, r) \<Longrightarrow> length r < length bs"
  "disp8 f' bs = Some (i, r) \<Longrightarrow> length r < length bs"
  by (auto simp: imm32_def imm64_def disp8_def split: list.splits)

lemma x86_decode_shorter: "x86_decode bs = Some (i, r) \<Longrightarrow> length r < length bs"
  by (auto simp: x86_decode_def decode_rex_b_def decode_0f_def decode_two_def
      dest!: imm_decode_shorter split: list.splits if_splits option.splits)

function x86_run :: "u64 \<Rightarrow> u8 list \<Rightarrow> 'w native \<Rightarrow> 'w native result" where
  "x86_run base bs s =
     (case x86_decode bs of
        None \<Rightarrow> Inl Illegal_code
      | Some (i, r) \<Rightarrow> if i = Ret then Inr s else rbind (x86_exec base i s) (x86_run base r))"
  by pat_completeness auto
termination
  by (relation "measure (\<lambda>(base, bs, s). length bs)") (auto dest: x86_decode_shorter)

declare x86_run.simps [simp del]

lemma x86_run_ret: "x86_decode bs = Some (Ret, r) \<Longrightarrow> x86_run base bs s = Inr s"
  by (simp add: x86_run.simps)

lemma x86_run_step:
  "x86_decode bs = Some (i, r) \<Longrightarrow> i \<noteq> Ret \<Longrightarrow>
    x86_run base bs s = rbind (x86_exec base i s) (x86_run base r)"
  by (simp add: x86_run.simps)

end
