(* ===== verification/Jit.thy ===== *)
theory Jit
  imports Cpu X86
begin

text \<open>
  The code generator (src/jit.c): the emitter of x86-64 code for one instruction, the compilation
  of a run of instructions into a block, the block cache and the dispatcher. Emitting functions
  return the bytes they append at the cursor \<open>cur\<close>.
\<close>

section \<open>The emitter\<close>

definition e8 :: "u8 \<Rightarrow> u8 list" where
  "e8 b = [b]"

definition e32 :: "u32 \<Rightarrow> u8 list" where
  "e32 v = e8 (ucast v) @ e8 (ucast (drop_bit 8 v)) @ e8 (ucast (drop_bit 16 v))
     @ e8 (ucast (drop_bit 24 v))"

definition e64 :: "u64 \<Rightarrow> u8 list" where
  "e64 v = e32 (ucast v) @ e32 (ucast (drop_bit 32 v))"

text \<open>The numbers of the scratch registers.\<close>

abbreviation N_EAX :: u8 where "N_EAX \<equiv> 0"
abbreviation N_ECX :: u8 where "N_ECX \<equiv> 1"
abbreviation N_EDX :: u8 where "N_EDX \<equiv> 2"

definition ld :: "u8 \<Rightarrow> u8 \<Rightarrow> u8 list" where
  "ld x86reg m = e8 0x41 @ e8 0x8B @ e8 (0x40 OR push_bit 3 x86reg OR 0x07) @ e8 (m * 4)"

text \<open>Writes to register 0 are discarded.\<close>

definition st :: "u8 \<Rightarrow> u8 list" where
  "st m = (if m = 0 then [] else e8 0x41 @ e8 0x89 @ e8 (0x40 OR 0x07) @ e8 (m * 4))"

definition ld_off :: "u32 \<Rightarrow> u8 list" where
  "ld_off off = e8 0x41 @ e8 0x8B @ e8 (0x80 OR 0x07) @ e32 off"

definition st_off :: "u32 \<Rightarrow> u8 list" where
  "st_off off = e8 0x41 @ e8 0x89 @ e8 (0x80 OR 0x07) @ e32 off"

definition alu_rr :: "u8 \<Rightarrow> u8 \<Rightarrow> u8 list" where
  "alu_rr opcode t = e8 0x41 @ e8 opcode @ e8 0x47 @ e8 (t * 4)"

definition set_flag :: "u8 \<Rightarrow> u8 list" where
  "set_flag setcc = e8 0x0F @ e8 setcc @ e8 0xC0 @ e8 0x0F @ e8 0xB6 @ e8 0xC0"

text \<open>\<open>offsetof(struct global, hi)\<close> and \<open>lo\<close>.\<close>

abbreviation OFFSETOF_HI :: u32 where "OFFSETOF_HI \<equiv> 128"
abbreviation OFFSETOF_LO :: u32 where "OFFSETOF_LO \<equiv> 132"

text \<open>The code of one instruction; \<open>None\<close> is the return value 0, left to the interpreter.\<close>

definition jit_special :: "u32 \<Rightarrow> u8 list option" where
  "jit_special i = switch (funct i)
    [(FN_ADDU, Some (ld N_EAX (rs i) @ alu_rr 0x03 (rt i) @ st (rd i))),
     (FN_SUBU, Some (ld N_EAX (rs i) @ alu_rr 0x2B (rt i) @ st (rd i))),
     (FN_AND, Some (ld N_EAX (rs i) @ alu_rr 0x23 (rt i) @ st (rd i))),
     (FN_OR, Some (ld N_EAX (rs i) @ alu_rr 0x0B (rt i) @ st (rd i))),
     (FN_XOR, Some (ld N_EAX (rs i) @ alu_rr 0x33 (rt i) @ st (rd i))),
     (FN_NOR, Some (ld N_EAX (rs i) @ alu_rr 0x0B (rt i) @ e8 0xF7 @ e8 0xD0 @ st (rd i))),
     (FN_SLT, Some (ld N_EAX (rs i) @ alu_rr 0x3B (rt i) @ set_flag 0x9C @ st (rd i))),
     (FN_SLTU, Some (ld N_EAX (rs i) @ alu_rr 0x3B (rt i) @ set_flag 0x92 @ st (rd i))),
     (FN_SLL, Some (ld N_EAX (rt i) @ e8 0xC1 @ e8 0xE0 @ e8 (shamt i) @ st (rd i))),
     (FN_SRL, Some (ld N_EAX (rt i) @ e8 0xC1 @ e8 0xE8 @ e8 (shamt i) @ st (rd i))),
     (FN_SRA, Some (ld N_EAX (rt i) @ e8 0xC1 @ e8 0xF8 @ e8 (shamt i) @ st (rd i))),
     (FN_SLLV, Some (ld N_EAX (rt i) @ ld N_ECX (rs i) @ e8 0xD3 @ e8 0xE0 @ st (rd i))),
     (FN_SRLV, Some (ld N_EAX (rt i) @ ld N_ECX (rs i) @ e8 0xD3 @ e8 0xE8 @ st (rd i))),
     (FN_SRAV, Some (ld N_EAX (rt i) @ ld N_ECX (rs i) @ e8 0xD3 @ e8 0xF8 @ st (rd i))),
     (FN_MFHI, Some (ld_off OFFSETOF_HI @ st (rd i))),
     (FN_MFLO, Some (ld_off OFFSETOF_LO @ st (rd i))),
     (FN_MTHI, Some (ld N_EAX (rs i) @ st_off OFFSETOF_HI)),
     (FN_MTLO, Some (ld N_EAX (rs i) @ st_off OFFSETOF_LO)),
     (FN_MOVZ, Some (ld N_EAX (rd i) @ ld N_EDX (rs i) @ ld N_ECX (rt i) @ e8 0x85 @ e8 0xC9
        @ e8 0x0F @ e8 0x44 @ e8 0xC2 @ st (rd i))),
     (FN_MOVN, Some (ld N_EAX (rd i) @ ld N_EDX (rs i) @ ld N_ECX (rt i) @ e8 0x85 @ e8 0xC9
        @ e8 0x0F @ e8 0x45 @ e8 0xC2 @ st (rd i)))] None"

definition jit_emit :: "u32 \<Rightarrow> u8 list option" where
  "jit_emit i = switch (op i)
    [(OP_SPECIAL, jit_special i),
     (OP_ADDIU, Some (ld N_EAX (rs i) @ e8 0x05 @ e32 (simm i) @ st (rt i))),
     (OP_ANDI, Some (ld N_EAX (rs i) @ e8 0x25 @ e32 (ucast (imm16 i)) @ st (rt i))),
     (OP_ORI, Some (ld N_EAX (rs i) @ e8 0x0D @ e32 (ucast (imm16 i)) @ st (rt i))),
     (OP_XORI, Some (ld N_EAX (rs i) @ e8 0x35 @ e32 (ucast (imm16 i)) @ st (rt i))),
     (OP_SLTI, Some (ld N_EAX (rs i) @ e8 0x3D @ e32 (simm i) @ set_flag 0x9C @ st (rt i))),
     (OP_SLTIU, Some (ld N_EAX (rs i) @ e8 0x3D @ e32 (simm i) @ set_flag 0x92 @ st (rt i))),
     (OP_LUI, Some (if rt i \<noteq> 0
        then e8 0x41 @ e8 0xC7 @ e8 0x47 @ e8 (rt i * 4) @ e32 (push_bit 16 (ucast (imm16 i)))
        else []))] None"

section \<open>Blocks\<close>

text \<open>
  The word at an address, element \<open>pc / 4\<close> of the memory as words. \<open>block_body\<close> is the loop: the code
  of at most \<open>n\<close> instructions from \<open>pc\<close> on, and how many were compiled.
\<close>

definition word_at :: "u32 \<Rightarrow> 'w machine \<Rightarrow> u32" where
  "word_at addr g = le_word (memory g) (4 * (addr div 4))"

fun block_body :: "nat \<Rightarrow> u32 \<Rightarrow> 'w machine \<Rightarrow> nat \<times> u8 list" where
  "block_body 0 a g = (0, [])"
| "block_body (Suc n) a g =
     (case jit_emit (word_at a g) of
        None \<Rightarrow> (0, [])
      | Some code \<Rightarrow> let (count, rest) = block_body n (a + 4) g in (Suc count, code @ rest))"

text \<open>\<open>push r15; movabs r15, glob\<close> and \<open>movabs rax, &glob->pc; mov dword [rax], pc; pop r15; ret\<close>.\<close>

definition prologue :: "u64 \<Rightarrow> u8 list" where
  "prologue base = e8 0x41 @ e8 0x57 @ e8 0x49 @ e8 0xBF @ e64 base"

definition epilogue :: "u64 \<Rightarrow> u32 \<Rightarrow> u8 list" where
  "epilogue base pc' = e8 0x48 @ e8 0xB8 @ e64 (base + OFF_PC) @ e8 0xC7 @ e8 0x00 @ e32 pc'
     @ e8 0x41 @ e8 0x5F @ e8 0xC3"

definition block_code :: "u64 \<Rightarrow> u32 \<Rightarrow> nat \<times> u8 list \<Rightarrow> u8 list" where
  "block_code base start b = prologue base @ snd b @ epilogue base (start + 4 * of_nat (fst b))"

text \<open>
  The state of the generator: the code emitted so far (\<open>None\<close> when the buffer could not be mapped),
  and the cache. A \<open>block_fn\<close> is the offset of its code in the buffer.
\<close>

abbreviation CODE_CAP :: nat where "CODE_CAP \<equiv> 16777216"
abbreviation CACHE_SIZE :: u32 where "CACHE_SIZE \<equiv> 65536"

record cache_entry =
  entry_pc :: u32
  entry_fn :: nat

record jit =
  code_buf :: "u8 list option"
  cache :: "u32 \<Rightarrow> cache_entry option"

definition slot :: "u32 \<Rightarrow> u32" where
  "slot a = drop_bit 2 a AND (CACHE_SIZE - 1)"

definition cache_lookup :: "u32 \<Rightarrow> jit \<Rightarrow> nat option" where
  "cache_lookup a j =
     (case cache j (slot a) of
        Some e \<Rightarrow> if entry_pc e = a then Some (entry_fn e) else None
      | None \<Rightarrow> None)"

definition cache_insert :: "u32 \<Rightarrow> nat \<Rightarrow> jit \<Rightarrow> jit" where
  "cache_insert a fn j = j\<lparr>cache := (cache j)(slot a \<mapsto> \<lparr>entry_pc = a, entry_fn = fn\<rparr>)\<rparr>"

text \<open>
  Only the start of a block is checked against the end of the buffer: 8192 bytes must be left. A
  block that runs past the end is a write outside the mapping.
\<close>

definition compile_block :: "u64 \<Rightarrow> u32 \<Rightarrow> 'w machine \<Rightarrow> jit \<Rightarrow> (nat option \<times> jit) result" where
  "compile_block base start g j =
     (case code_buf j of
        None \<Rightarrow> Inr (None, j)
      | Some buf \<Rightarrow>
          if CODE_CAP < length buf + 8192 then Inr (None, j)
          else let b = block_body 1024 start g; code = block_code base start b in
            if fst b = 0 then Inr (None, j)
            else if CODE_CAP < length buf + length code then Inl Out_of_bounds
            else Inr (Some (length buf), j\<lparr>code_buf := Some (buf @ code)\<rparr>))"

section \<open>The dispatcher\<close>

text \<open>
  \<open>fn()\<close>: run the code at an offset of the buffer, from whatever the host's registers hold, with
  \<open>struct global\<close> as the only memory.
\<close>

definition call_block :: "u64 \<Rightarrow> 'w native \<Rightarrow> nat \<Rightarrow> jit \<Rightarrow> 'w machine \<Rightarrow> 'w machine result" where
  "call_block base s fn j g =
     (case code_buf j of
        None \<Rightarrow> Inl Illegal_code
      | Some buf \<Rightarrow>
          rbind (x86_run base (drop fn buf) (s\<lparr>guest := g\<rparr>)) (\<lambda>s'. Inr (guest s')))"

text \<open>One round of the dispatcher, with the status of the step it made, or 0 after a block.\<close>

definition jit_round ::
  "'w host \<Rightarrow> u64 \<Rightarrow> 'w native \<Rightarrow> jit \<times> 'w machine \<Rightarrow> (int \<times> jit \<times> 'w machine) result"
where
  "jit_round h base s p =
     (let (j, g) = p;
          interpret = (\<lambda>j. rbind (step_instruction h g) (\<lambda>(ret, g'). Inr (ret, j, g'))) in
      if branch_is_pending g then interpret j
      else rbind (case cache_lookup (pc g) j of
            Some fn \<Rightarrow> Inr (Some fn, j)
          | None \<Rightarrow> compile_block base (pc g) g j)
        (\<lambda>(fn, j'). case fn of
            Some f \<Rightarrow>
              let j'' = cache_insert (pc g) f j' in
              rbind (call_block base s f j'' g) (\<lambda>g'. Inr (0, j'', g'))
          | None \<Rightarrow> interpret j'))"

text \<open>\<open>emit_init\<close>, when no buffer is mapped yet: \<open>mapped\<close> is whether mmap succeeds.\<close>

definition emit_init :: "bool \<Rightarrow> jit \<Rightarrow> jit" where
  "emit_init mapped j = j\<lparr>code_buf := (if mapped then Some [] else None)\<rparr>"

definition execute_jit ::
  "'w host \<Rightarrow> u64 \<Rightarrow> 'w native \<Rightarrow> bool \<Rightarrow> jit \<Rightarrow> 'w machine
    \<Rightarrow> (int \<times> jit \<times> 'w machine) result option"
where
  "execute_jit h base s mapped j g =
     loop (jit_round h base s) (if code_buf j = None then emit_init mapped j else j, g)"

end
