(* ===== verification/Jit_Correct.thy ===== *)
theory Jit_Correct
  imports Jit Arith
begin

text \<open>
  The code the generator emits does what the interpreter does: for one instruction, for a block,
  and for a run of the dispatcher.
\<close>

section \<open>Native code at work\<close>

lemma ucast_up_down [simp]: "ucast (ucast (v :: u32) :: u64) = v"
  by (rule bit_word_eqI) (auto simp: bit_ucast_iff)

lemma xset_simps [simp]:
  "xget EAX (xset EAX v s) = v" "xget EAX (xset ECX v s) = xget EAX s"
  "xget EAX (xset EDX v s) = xget EAX s" "xget ECX (xset ECX v s) = v"
  "xget ECX (xset EAX v s) = xget ECX s" "xget ECX (xset EDX v s) = xget ECX s"
  "xget EDX (xset EDX v s) = v" "xget EDX (xset EAX v s) = xget EDX s"
  "xget EDX (xset ECX v s) = xget EDX s"
  "guest (xset x v s) = guest s" "r15 (xset x v s) = r15 s" "stack (xset x v s) = stack s"
  "flags (xset x v s) = flags s"
  "xget x (s\<lparr>flags := fl\<rparr>) = xget x s" "xget x (s\<lparr>guest := g\<rparr>) = xget x s"
  by (simp_all add: xget_def xset_def split: xreg.split)

lemma alu_exec_simps [simp]:
  "guest (alu_exec a v s) = guest s" "r15 (alu_exec a v s) = r15 s"
  "stack (alu_exec a v s) = stack s"
  by (simp_all add: alu_exec_def Let_def split: alu.split)

lemma shift_exec_simps [simp]:
  "guest (shift_exec k n s) = guest s" "r15 (shift_exec k n s) = r15 s"
  "stack (shift_exec k n s) = stack s"
  by (simp_all add: shift_exec_def Let_def)

text \<open>Register \<open>m\<close> is the dword at displacement \<open>4 * m\<close>, which fits the signed byte.\<close>

lemma register_disp:
  assumes "(m :: u8) < 32"
  shows "(scast (m * 4) :: u64) < 128" "(scast (m * 4) :: u64) AND 3 = 0"
    "(ucast (drop_bit 2 (scast (m * 4) :: u64)) :: u8) = m"
proof -
  have "m = of_nat (unat m)" "unat m \<in> set [0..<32]"
    using assms by (simp_all add: word_less_nat_alt)
  then have "m \<in> of_nat ` set [0..<32]" by blast
  moreover have "\<forall>m \<in> of_nat ` set [0..<32]. (scast (m * 4 :: u8) :: u64) < 128
      \<and> (scast (m * 4) :: u64) AND 3 = 0 \<and> (ucast (drop_bit 2 (scast (m * 4) :: u64)) :: u8) = m"
    by (simp add: upt_rec)
  ultimately show "(scast (m * 4) :: u64) < 128" "(scast (m * 4) :: u64) AND 3 = 0"
    "(ucast (drop_bit 2 (scast (m * 4) :: u64)) :: u8) = m" by blast+
qed

lemma guest_access:
  assumes "m < 32"
  shows "guest_read b (b + scast (m * 4)) g = Inr (reg g m)"
    "guest_write b (b + scast (m * 4)) v g = Inr (set_reg m v g)"
  using register_disp [OF assms] by (simp_all add: guest_read_def guest_write_def)

lemma le32_e32 [simp]:
  "le32 (ucast v) (ucast (drop_bit 8 v)) (ucast (drop_bit 16 v)) (ucast (drop_bit 24 v)) = v"
proof (rule bit_word_eqI)
  fix n assume "n < LENGTH(32)"
  then consider "n < 8" | "8 \<le> n" "n < 16" | "16 \<le> n" "n < 24" | "24 \<le> n" "n < 32" by force
  then show "bit (le32 (ucast v) (ucast (drop_bit 8 v)) (ucast (drop_bit 16 v))
      (ucast (drop_bit 24 v))) n = bit v n"
    by cases (auto simp: le32_def bit_or_iff bit_byte_at bit_ucast_iff bit_drop_bit_eq)
qed

text \<open>Running \<open>c\<close> from \<open>s\<close>, whatever follows it, ends in a state with \<open>P\<close>.\<close>

definition runs_to :: "('w native \<Rightarrow> bool) \<Rightarrow> u64 \<Rightarrow> u8 list \<Rightarrow> 'w native \<Rightarrow> bool" where
  "runs_to P b c s \<longleftrightarrow> (\<exists>s'. (\<forall>r. x86_run b (c @ r) s = x86_run b r s') \<and> P s')"

lemma runs_to_Nil: "P s \<Longrightarrow> runs_to P b [] s"
  by (auto simp: runs_to_def)

lemma runs_to_append:
  assumes "\<And>r. x86_run b (c @ r) s = x86_run b r s1"
  shows "runs_to P b c s \<longleftrightarrow> runs_to P b [] s1" "runs_to P b (c @ c') s \<longleftrightarrow> runs_to P b c' s1"
  using assms by (simp_all add: runs_to_def)

lemma decode_ld [simp]:
  "x86_decode (ld N_EAX m @ r) = Some (Load EAX (scast (m * 4)), r)"
  "x86_decode (ld N_ECX m @ r) = Some (Load ECX (scast (m * 4)), r)"
  "x86_decode (ld N_EDX m @ r) = Some (Load EDX (scast (m * 4)), r)"
  by (simp_all add: ld_def e8_def x86_decode_def decode_rex_b_def disp8_def)

lemma decode_st [simp]:
  "m \<noteq> 0 \<Longrightarrow> x86_decode (st m @ r) = Some (Store (scast (m * 4)), r)"
  by (simp add: st_def e8_def x86_decode_def decode_rex_b_def disp8_def)

lemma decode_alu [simp]:
  "alu_opcode c = Some a \<Longrightarrow> x86_decode (alu_rr c m @ r) = Some (Alu_mem a (scast (m * 4)), r)"
  by (auto simp: alu_rr_def e8_def x86_decode_def decode_rex_b_def disp8_def alu_opcode_def
      split: if_splits)

lemma decode_off [simp]:
  "x86_decode (ld_off d @ r) = Some (Load EAX (scast d), r)"
  "x86_decode (st_off d @ r) = Some (Store (scast d), r)"
  by (simp_all add: ld_off_def st_off_def e8_def e32_def x86_decode_def decode_rex_b_def imm32_def)

subsection \<open>The emitted sequences\<close>

text \<open>Each rewrites a run of the sequence to a run of what follows, from the state it leaves.\<close>

lemma x86_run_simple [simp]:
  "x86_decode bs = Some (i, r) \<Longrightarrow> i \<noteq> Ret \<Longrightarrow> x86_exec b i s = Inr s' \<Longrightarrow>
    x86_run b bs s = x86_run b r s'"
  by (simp add: x86_run_step)

lemma runs_ld:
  assumes "m < 32" "r15 s = b"
  shows "x86_run b (ld N_EAX m @ r) s = x86_run b r (xset EAX (reg (guest s) m) s)"
    "x86_run b (ld N_ECX m @ r) s = x86_run b r (xset ECX (reg (guest s) m) s)"
    "x86_run b (ld N_EDX m @ r) s = x86_run b r (xset EDX (reg (guest s) m) s)"
  using assms by (simp_all add: x86_run_step guest_access)

text \<open>A register write that leaves register 0 alone.\<close>

definition put_reg :: "u8 \<Rightarrow> u32 \<Rightarrow> 'w machine \<Rightarrow> 'w machine" where
  "put_reg d v g = (if d = R0 then g else set_reg d v g)"

lemma runs_st:
  assumes "m < 32" "r15 s = b"
  shows "x86_run b (st m @ r) s = x86_run b r (s\<lparr>guest := put_reg m (xget EAX s) (guest s)\<rparr>)"
  using assms by (cases "m = 0") (simp_all add: x86_run_step guest_access put_reg_def, simp add: st_def)

lemma runs_alu:
  assumes "m < 32" "r15 s = b" "alu_opcode c = Some a"
  shows "x86_run b (alu_rr c m @ r) s = x86_run b r (alu_exec a (reg (guest s) m) s)"
  using assms by (simp add: x86_run_step guest_access)

lemma runs_off:
  assumes "r15 s = b"
  shows "x86_run b (ld_off OFFSETOF_HI @ r) s = x86_run b r (xset EAX (hi (guest s)) s)"
    "x86_run b (ld_off OFFSETOF_LO @ r) s = x86_run b r (xset EAX (lo (guest s)) s)"
    "x86_run b (st_off OFFSETOF_HI @ r) s
      = x86_run b r (s\<lparr>guest := (guest s)\<lparr>hi := xget EAX s\<rparr>\<rparr>)"
    "x86_run b (st_off OFFSETOF_LO @ r) s
      = x86_run b r (s\<lparr>guest := (guest s)\<lparr>lo := xget EAX s\<rparr>\<rparr>)"
  using assms by (simp_all add: x86_run_step guest_read_def guest_write_def)

lemma runs_alu_imm:
  "x86_run b (e8 0x05 @ e32 v @ r) s = x86_run b r (alu_exec Alu_add v s)"
  "x86_run b (e8 0x25 @ e32 v @ r) s = x86_run b r (alu_exec Alu_and v s)"
  "x86_run b (e8 0x0D @ e32 v @ r) s = x86_run b r (alu_exec Alu_or v s)"
  "x86_run b (e8 0x35 @ e32 v @ r) s = x86_run b r (alu_exec Alu_xor v s)"
  "x86_run b (e8 0x3D @ e32 v @ r) s = x86_run b r (alu_exec Alu_cmp v s)"
  by (rule x86_run_simple, simp add: e8_def e32_def x86_decode_def imm32_def, simp, simp)+

lemma runs_shift_imm:
  "x86_run b (e8 0xC1 @ e8 0xE0 @ e8 n @ r) s = x86_run b r (shift_exec Shl (unat (n AND 0x1F)) s)"
  "x86_run b (e8 0xC1 @ e8 0xE8 @ e8 n @ r) s = x86_run b r (shift_exec Shr (unat (n AND 0x1F)) s)"
  "x86_run b (e8 0xC1 @ e8 0xF8 @ e8 n @ r) s = x86_run b r (shift_exec Sar (unat (n AND 0x1F)) s)"
  by (rule x86_run_simple,
      simp add: e8_def x86_decode_def decode_two_def shift_modrm_def, simp, simp)+

lemma runs_shift_cl:
  "x86_run b (e8 0xD3 @ e8 0xE0 @ r) s
    = x86_run b r (shift_exec Shl (unat (xget ECX s AND 0x1F)) s)"
  "x86_run b (e8 0xD3 @ e8 0xE8 @ r) s
    = x86_run b r (shift_exec Shr (unat (xget ECX s AND 0x1F)) s)"
  "x86_run b (e8 0xD3 @ e8 0xF8 @ r) s
    = x86_run b r (shift_exec Sar (unat (xget ECX s AND 0x1F)) s)"
  by (rule x86_run_simple,
      simp add: e8_def x86_decode_def decode_two_def shift_modrm_def, simp, simp)+

lemma runs_not: "x86_run b (e8 0xF7 @ e8 0xD0 @ r) s = x86_run b r (xset EAX (NOT (xget EAX s)) s)"
  by (rule x86_run_simple, simp add: e8_def x86_decode_def decode_two_def, simp, simp)

text \<open>The flag of a comparison, as 0 or 1 in eax.\<close>

lemma set_al_movzx:
  "xset EAX (xget EAX (set_al c s) AND 0xFF) (set_al c s) = xset EAX (of_cond c) s"
proof -
  have ff: "(0xFF :: u32) = mask 8" "(0xFF :: u64) = mask 8" by (simp_all add: mask_eq_exp_minus_1)
  have "ucast ((rax s AND NOT 0xFF) OR (if c then 1 else 0) :: u64) AND 0xFF = of_cond c"
    unfolding ff
    by (rule bit_word_eqI) (auto simp: bit_and_iff bit_or_iff bit_not_iff bit_ucast_iff bit_mask_iff
        of_cond_def bit_1_iff)
  then show ?thesis by (simp add: xget_def xset_def set_al_def)
qed

lemma runs_set_flag:
  assumes "flags s = Some f"
  shows "x86_run b (set_flag 0x9C @ r) s = x86_run b r (xset EAX (of_cond (sf f \<noteq> of_flag f)) s)"
    "x86_run b (set_flag 0x92 @ r) s = x86_run b r (xset EAX (of_cond (cf f)) s)"
proof -
  have movzx: "x86_run b (0x0F # 0xB6 # 0xC0 # r) (set_al c s) = x86_run b r (xset EAX (of_cond c) s)"
    for c
  proof -
    have "x86_decode (0x0F # 0xB6 # 0xC0 # r) = Some (Movzx_al, r)"
      by (simp add: x86_decode_def decode_0f_def)
    then show ?thesis by (simp add: x86_run_step set_al_movzx)
  qed
  have "x86_decode (set_flag 0x9C @ r) = Some (Setl, 0x0F # 0xB6 # 0xC0 # r)"
    "x86_decode (set_flag 0x92 @ r) = Some (Setb, 0x0F # 0xB6 # 0xC0 # r)"
    by (simp_all add: set_flag_def e8_def x86_decode_def decode_0f_def)
  then show "x86_run b (set_flag 0x9C @ r) s = x86_run b r (xset EAX (of_cond (sf f \<noteq> of_flag f)) s)"
    "x86_run b (set_flag 0x92 @ r) s = x86_run b r (xset EAX (of_cond (cf f)) s)"
    using assms movzx by (simp_all add: x86_run_step with_flags_def)
qed

lemma signed_less_flags: "(sf (sub_flags a b) \<noteq> of_flag (sub_flags a b)) = (sint a < sint b)"
proof -
  define x where "x = sint a - sint b"
  have x: "a - b = word_of_int x" by (simp add: x_def)
  have up: "a - b = word_of_int (x + 2 ^ 32)" "a - b = word_of_int (x - 2 ^ 32)"
    unfolding x by (simp_all flip: word_of_int_2p add: word_of_int_hom_syms)
  have range: "- (2 ^ 32) < x" "x < 2 ^ 32"
    using sint_range_32 [of a] sint_range_32 [of b] by (auto simp: x_def)
  consider "fits_signed 32 x" | "2 ^ 31 \<le> x" | "x < - (2 ^ 31)"
    by (force simp: fits_signed_def)
  then have "(sint (a - b) < 0) \<noteq> (\<not> fits_signed 32 x) \<longleftrightarrow> x < 0"
  proof cases
    case 1
    then have "sint (a - b) = x" unfolding x by (rule sint_of_int_32)
    with 1 show ?thesis by simp
  next
    case 2
    then have "sint (a - b) = x - 2 ^ 32"
      unfolding up(2) using range by (intro sint_of_int_32) (simp add: fits_signed_def)
    with 2 range show ?thesis by (simp add: fits_signed_def)
  next
    case 3
    then have "sint (a - b) = x + 2 ^ 32"
      unfolding up(1) using range by (intro sint_of_int_32) (simp add: fits_signed_def)
    with 3 range show ?thesis by (simp add: fits_signed_def)
  qed
  then show ?thesis by (simp add: sub_flags_def x_def)
qed

lemma runs_cmov:
  "x86_run b (e8 0x85 @ e8 0xC9 @ e8 0x0F @ e8 0x44 @ e8 0xC2 @ r) s = x86_run b r
     (xset EAX (if xget ECX s = 0 then xget EDX s else xget EAX s) (s\<lparr>flags :=
       Some \<lparr>zf = (xget ECX s = 0), sf = (sint (xget ECX s) < 0), of_flag = False, cf = False\<rparr>\<rparr>))"
  "x86_run b (e8 0x85 @ e8 0xC9 @ e8 0x0F @ e8 0x45 @ e8 0xC2 @ r) s = x86_run b r
     (xset EAX (if xget ECX s \<noteq> 0 then xget EDX s else xget EAX s) (s\<lparr>flags :=
       Some \<lparr>zf = (xget ECX s = 0), sf = (sint (xget ECX s) < 0), of_flag = False, cf = False\<rparr>\<rparr>))"
proof -
  have "x86_decode (e8 0x85 @ e8 0xC9 @ r) = Some (Test_ecx, r)" for r
    by (simp add: e8_def x86_decode_def decode_two_def)
  moreover have "x86_decode (e8 0x0F @ e8 0x44 @ e8 0xC2 @ r) = Some (Cmove, r)"
    "x86_decode (e8 0x0F @ e8 0x45 @ e8 0xC2 @ r) = Some (Cmovne, r)"
    by (simp_all add: e8_def x86_decode_def decode_0f_def)
  ultimately show "x86_run b (e8 0x85 @ e8 0xC9 @ e8 0x0F @ e8 0x44 @ e8 0xC2 @ r) s = x86_run b r
     (xset EAX (if xget ECX s = 0 then xget EDX s else xget EAX s) (s\<lparr>flags :=
       Some \<lparr>zf = (xget ECX s = 0), sf = (sint (xget ECX s) < 0), of_flag = False, cf = False\<rparr>\<rparr>))"
    "x86_run b (e8 0x85 @ e8 0xC9 @ e8 0x0F @ e8 0x45 @ e8 0xC2 @ r) s = x86_run b r
     (xset EAX (if xget ECX s \<noteq> 0 then xget EDX s else xget EAX s) (s\<lparr>flags :=
       Some \<lparr>zf = (xget ECX s = 0), sf = (sint (xget ECX s) < 0), of_flag = False, cf = False\<rparr>\<rparr>))"
    by (simp_all add: x86_run_step with_flags_def Let_def)
qed

section \<open>One instruction\<close>

text \<open>
  What the code of an instruction must achieve from the machine \<open>g\<close>: the guest is in the state the
  interpreter computes, and r15 and the stack are as they were.
\<close>

definition native_ok :: "'w machine \<Rightarrow> u64 \<Rightarrow> u64 list \<Rightarrow> 'w native \<Rightarrow> bool" where
  "native_ok g b stk s \<longleftrightarrow> guest s = g \<and> r15 s = b \<and> stack s = stk"

lemma runs_to_registers:
  assumes "r15 s = b" "m < 32"
  shows "runs_to P b (ld N_EAX m @ c) s = runs_to P b c (xset EAX (reg (guest s) m) s)"
    "runs_to P b (ld N_ECX m @ c) s = runs_to P b c (xset ECX (reg (guest s) m) s)"
    "runs_to P b (ld N_EDX m @ c) s = runs_to P b c (xset EDX (reg (guest s) m) s)"
    "alu_opcode k = Some a \<Longrightarrow>
      runs_to P b (alu_rr k m @ c) s = runs_to P b c (alu_exec a (reg (guest s) m) s)"
    "P (s\<lparr>guest := put_reg m (xget EAX s) (guest s)\<rparr>) \<Longrightarrow>
      runs_to P b (st m) s"
  using assms by (auto simp: runs_to_def runs_ld runs_st runs_alu)

lemma runs_to_hilo:
  assumes "r15 s = b"
  shows "runs_to P b (ld_off OFFSETOF_HI @ c) s = runs_to P b c (xset EAX (hi (guest s)) s)"
    "runs_to P b (ld_off OFFSETOF_LO @ c) s = runs_to P b c (xset EAX (lo (guest s)) s)"
    "P (s\<lparr>guest := (guest s)\<lparr>hi := xget EAX s\<rparr>\<rparr>) \<Longrightarrow> runs_to P b (st_off OFFSETOF_HI) s"
    "P (s\<lparr>guest := (guest s)\<lparr>lo := xget EAX s\<rparr>\<rparr>) \<Longrightarrow> runs_to P b (st_off OFFSETOF_LO) s"
  using assms by (auto simp: runs_to_def runs_off)

lemma runs_to_operations:
  "runs_to P b (e8 0x05 @ e32 v @ c) s = runs_to P b c (alu_exec Alu_add v s)"
  "runs_to P b (e8 0x25 @ e32 v @ c) s = runs_to P b c (alu_exec Alu_and v s)"
  "runs_to P b (e8 0x0D @ e32 v @ c) s = runs_to P b c (alu_exec Alu_or v s)"
  "runs_to P b (e8 0x35 @ e32 v @ c) s = runs_to P b c (alu_exec Alu_xor v s)"
  "runs_to P b (e8 0x3D @ e32 v @ c) s = runs_to P b c (alu_exec Alu_cmp v s)"
  "runs_to P b (e8 0xC1 @ e8 0xE0 @ e8 n @ c) s
    = runs_to P b c (shift_exec Shl (unat (n AND 0x1F)) s)"
  "runs_to P b (e8 0xC1 @ e8 0xE8 @ e8 n @ c) s
    = runs_to P b c (shift_exec Shr (unat (n AND 0x1F)) s)"
  "runs_to P b (e8 0xC1 @ e8 0xF8 @ e8 n @ c) s
    = runs_to P b c (shift_exec Sar (unat (n AND 0x1F)) s)"
  "runs_to P b (e8 0xD3 @ e8 0xE0 @ c) s
    = runs_to P b c (shift_exec Shl (unat (xget ECX s AND 0x1F)) s)"
  "runs_to P b (e8 0xD3 @ e8 0xE8 @ c) s
    = runs_to P b c (shift_exec Shr (unat (xget ECX s AND 0x1F)) s)"
  "runs_to P b (e8 0xD3 @ e8 0xF8 @ c) s
    = runs_to P b c (shift_exec Sar (unat (xget ECX s AND 0x1F)) s)"
  "runs_to P b (e8 0xF7 @ e8 0xD0 @ c) s = runs_to P b c (xset EAX (NOT (xget EAX s)) s)"
  "flags s = Some f \<Longrightarrow>
    runs_to P b (set_flag 0x9C @ c) s = runs_to P b c (xset EAX (of_cond (sf f \<noteq> of_flag f)) s)"
  "flags s = Some f \<Longrightarrow>
    runs_to P b (set_flag 0x92 @ c) s = runs_to P b c (xset EAX (of_cond (cf f)) s)"
  "runs_to P b (e8 0x85 @ e8 0xC9 @ e8 0x0F @ e8 0x44 @ e8 0xC2 @ c) s = runs_to P b c
    (xset EAX (if xget ECX s = 0 then xget EDX s else xget EAX s) (s\<lparr>flags :=
       Some \<lparr>zf = (xget ECX s = 0), sf = (sint (xget ECX s) < 0), of_flag = False, cf = False\<rparr>\<rparr>))"
  "runs_to P b (e8 0x85 @ e8 0xC9 @ e8 0x0F @ e8 0x45 @ e8 0xC2 @ c) s = runs_to P b c
    (xset EAX (if xget ECX s \<noteq> 0 then xget EDX s else xget EAX s) (s\<lparr>flags :=
       Some \<lparr>zf = (xget ECX s = 0), sf = (sint (xget ECX s) < 0), of_flag = False, cf = False\<rparr>\<rparr>))"
  by (simp_all only: runs_to_def append_assoc runs_alu_imm runs_shift_imm runs_shift_cl runs_not
      runs_set_flag runs_cmov)

lemmas runs_to_simps = runs_to_registers runs_to_hilo runs_to_operations register_fields_less

text \<open>\<open>co\<close> is code for a step with the result \<open>r\<close>, or nothing.\<close>

definition compiled ::
  "u64 \<Rightarrow> 'w native \<Rightarrow> (int \<times> 'w machine) result \<Rightarrow> u8 list option \<Rightarrow> bool" where
  "compiled b s r co \<longleftrightarrow> (\<forall>c. co = Some c \<longrightarrow>
     (\<exists>g'. r = Inr (0, g') \<and> runs_to (native_ok g' b (stack s)) b c s))"

lemma compiled_simps [simp]:
  "compiled b s r None"
  "compiled b s (Inr (0, g')) (Some c) = runs_to (native_ok g' b (stack s)) b c s"
  by (simp_all add: compiled_def)

lemma clear_zero [simp]:
  assumes "reg g R0 = 0"
  shows "set_reg R0 0 (set_reg d v g) = put_reg d v g"
    "set_reg R0 0 g = g" "set_reg R0 0 (g\<lparr>hi := v\<rparr>) = g\<lparr>hi := v\<rparr>"
    "set_reg R0 0 (g\<lparr>lo := v\<rparr>) = g\<lparr>lo := v\<rparr>"
  using assms by (auto simp: set_reg_def put_reg_def fun_upd_idem)

lemma put_reg_same [simp]: "put_reg d (reg g d) g = g"
  by (simp add: put_reg_def set_reg_def)

lemma shamt_masked [simp]: "shamt i AND 0x1F = shamt i"
  using less_mask_eq [of "shamt i" 5] register_fields_less(4) [of i]
  by (simp add: mask_eq_exp_minus_1)

lemma sub_flags_simps:
  "cf (sub_flags a b) = (a < b)"
  "(sf (sub_flags a b) = (\<not> of_flag (sub_flags a b))) = (sint a < sint b)"
  using signed_less_flags [of a b] by (auto simp: sub_flags_def)

lemmas emit_simps = finish_r0_def Let_def runs_to_simps alu_opcode_def alu_exec_def
  native_ok_def shift_exec_def sub_flags_simps

lemma jit_special_compiled:
  assumes "r15 s = b" "reg (guest s) R0 = 0"
  shows "compiled b s (exec_register h i (guest s)) (jit_special i)"
  unfolding jit_special_def
proof (rule switch_all [where P = "compiled b s (exec_register h i (guest s))"],
    unfold list.pred_inject fst_conv snd_conv, intro conjI impI)
qed (use assms in \<open>simp_all add: exec_register_def emit_simps\<close>)

lemma runs_to_lui:
  assumes "r15 s = b" "m < 32" "m \<noteq> 0" "P (s\<lparr>guest := set_reg m v (guest s)\<rparr>)"
  shows "runs_to P b (e8 0x41 @ e8 0xC7 @ e8 0x47 @ e8 (m * 4) @ e32 v) s"
proof -
  have "x86_decode ((e8 0x41 @ e8 0xC7 @ e8 0x47 @ e8 (m * 4) @ e32 v) @ r)
      = Some (Store_imm (scast (m * 4)) v, r)" for r
    by (simp add: e8_def e32_def x86_decode_def decode_rex_b_def imm32_def)
  then show ?thesis
    using assms by (auto simp: runs_to_def x86_run_step guest_access)
qed

lemma immediate_decoded:
  assumes "op i \<in> {OP_ADDIU, OP_ANDI, OP_ORI, OP_XORI, OP_SLTI, OP_SLTIU, OP_LUI}"
  shows "exec_decoded h i g = exec_immediate h i g"
proof -
  have "i \<noteq> 0" using assms by (auto simp: field_defs)
  with assms show ?thesis by (auto simp: exec_decoded_def)
qed

lemma sint_simm: "sint (simm i) = sint (imm16 i)"
proof -
  have "fits_signed 32 (sint (imm16 i))"
    using sint_greater_eq [of "imm16 i"] sint_less [of "imm16 i"] by (simp add: fits_signed_def)
  then have "sint (word_of_int (sint (imm16 i)) :: u32) = sint (imm16 i)" by (rule sint_of_int_32)
  then show ?thesis by (simp add: simm_def)
qed

lemma jit_emit_compiled:
  assumes "r15 s = b" "reg (guest s) R0 = 0"
  shows "compiled b s (exec_decoded h i (guest s)) (jit_emit i)"
proof (cases "op i = OP_SPECIAL")
  case True
  then have "jit_emit i = jit_special i" by (simp add: jit_emit_def)
  moreover have "jit_special i = None" if "funct i = FN_SYSCALL \<or> funct i = FN_BREAK"
    using that by (auto simp: jit_special_def)
  ultimately show ?thesis
    using jit_special_compiled [OF assms, of h i] special_decoded [OF True _ _ assms(2), of h]
    by (cases "funct i = FN_SYSCALL \<or> funct i = FN_BREAK") auto
next
  case False
  show ?thesis
    unfolding jit_emit_def
  proof (rule switch_all [where P = "compiled b s (exec_decoded h i (guest s))"],
      unfold list.pred_inject fst_conv snd_conv, intro conjI impI)
    assume "op i = OP_LUI"
    then show "compiled b s (exec_decoded h i (guest s)) (Some (if rt i \<noteq> 0
        then e8 0x41 @ e8 0xC7 @ e8 0x47 @ e8 (rt i * 4) @ e32 (push_bit 16 (ucast (imm16 i)))
        else []))"
      using assms by (auto simp: immediate_decoded exec_immediate_def finish_r0_def Let_def put_reg_def
          native_ok_def register_fields_less intro: runs_to_lui runs_to_Nil)
  qed (use assms False in \<open>simp_all add: immediate_decoded exec_immediate_def emit_simps sint_simm\<close>)
qed

section \<open>What an inlined instruction leaves alone\<close>

text \<open>
  It reads and writes registers, HI and LO and nothing else: it commutes with a change of \<open>pc\<close>,
  which native code defers to the end of the block.
\<close>

definition at_pc :: "u32 \<Rightarrow> 'w machine \<Rightarrow> 'w machine" where
  "at_pc a g = g\<lparr>pc := a\<rparr>"

lemma at_pc_simps [simp]:
  "reg (at_pc a g) = reg g" "hi (at_pc a g) = hi g" "lo (at_pc a g) = lo g"
  "memory (at_pc a g) = memory g" "pc (at_pc a g) = a" "log_on (at_pc a g) = log_on g"
  "branch_pending (at_pc a g) = branch_pending g" "at_pc a (at_pc a' g) = at_pc a g"
  "at_pc (pc g) g = g"
  by (simp_all add: at_pc_def)

lemma at_pc_updates [simp]:
  "set_reg d v (at_pc a g) = at_pc a (set_reg d v g)"
  "(at_pc a g)\<lparr>hi := v\<rparr> = at_pc a (g\<lparr>hi := v\<rparr>)" "(at_pc a g)\<lparr>lo := v\<rparr> = at_pc a (g\<lparr>lo := v\<rparr>)"
  by (simp_all add: at_pc_def set_reg_def)

definition regs_only :: "'w machine \<Rightarrow> 'w machine \<Rightarrow> bool" where
  "regs_only g g' \<longleftrightarrow> memory g' = memory g \<and> log_on g' = log_on g
     \<and> branch_pending g' = branch_pending g \<and> pc g' = pc g"

lemma regs_only_simps [simp]:
  "regs_only g (set_reg d v g') = regs_only g g'" "regs_only g (g'\<lparr>hi := v\<rparr>) = regs_only g g'"
  "regs_only g (g'\<lparr>lo := v\<rparr>) = regs_only g g'" "regs_only g g"
  by (simp_all add: regs_only_def)

text \<open>\<open>f\<close> is the effect of an inlined instruction as a function of the state.\<close>

definition inlined :: "('w machine \<Rightarrow> (int \<times> 'w machine) result) \<Rightarrow> 'w machine \<Rightarrow> bool" where
  "inlined f g \<longleftrightarrow> (\<exists>g'. f g = Inr (0, g') \<and> regs_only g g'
     \<and> (\<forall>a. f (at_pc a g) = Inr (0, at_pc a g')))"

lemma special_inlined: "jit_special i \<noteq> None \<longrightarrow> inlined (exec_register h i) g"
  unfolding jit_special_def
proof (rule switch_all [where P = "\<lambda>co. co \<noteq> None \<longrightarrow> inlined (exec_register h i) g"],
    unfold list.pred_inject fst_conv snd_conv, intro conjI impI)
qed (simp_all add: inlined_def exec_register_def finish_r0_def Let_def)

lemma emit_inlined:
  assumes "jit_emit i \<noteq> None" "reg g R0 = 0"
  shows "inlined (exec_decoded h i) g"
proof (cases "op i = OP_SPECIAL")
  case True
  then have special: "jit_special i \<noteq> None" using assms(1) by (simp add: jit_emit_def)
  then have f: "funct i \<noteq> FN_SYSCALL" "funct i \<noteq> FN_BREAK" by (auto simp: jit_special_def)
  have dec: "exec_decoded h i (at_pc a g) = exec_register h i (at_pc a g)" for a
    by (rule special_decoded [OF True f]) (simp add: assms(2))
  have "inlined (exec_register h i) g"
    using special_inlined special by blast
  then show ?thesis
    using special_decoded [OF True f assms(2), of h] by (simp add: inlined_def dec)
next
  case False
  have "jit_emit i \<noteq> None \<longrightarrow> inlined (exec_decoded h i) g"
    unfolding jit_emit_def
  proof (rule switch_all [where P = "\<lambda>co. co \<noteq> None \<longrightarrow> inlined (exec_decoded h i) g"],
      unfold list.pred_inject fst_conv snd_conv, intro conjI impI)
  qed (use False in \<open>simp_all add: inlined_def immediate_decoded exec_immediate_def
      finish_r0_def Let_def\<close>)
  with assms show ?thesis by blast
qed

section \<open>Blocks\<close>

text \<open>The states in which a block may be compiled and run.\<close>

definition block_start :: "'w machine \<Rightarrow> bool" where
  "block_start g \<longleftrightarrow> \<not> branch_pending g \<and> \<not> log_on g \<and> reg g R0 = 0"

lemma fetch_word_at: "fetch g = word_at (pc g) g"
  by (simp add: fetch_def word_at_def)

lemma inlined_step:
  assumes "jit_emit (word_at (pc g) g) \<noteq> None" "block_start g"
  shows "\<exists>g'. exec_decoded h (word_at (pc g) g) g = Inr (0, g')
    \<and> step_instruction h g = Inr (0, at_pc (pc g + 4) g')
    \<and> (\<forall>a. exec_decoded h (word_at (pc g) g) (at_pc a g) = Inr (0, at_pc a g'))
    \<and> block_start (at_pc (pc g + 4) g') \<and> memory g' = memory g"
proof -
  obtain g' where g': "exec_decoded h (word_at (pc g) g) g = Inr (0, g')" "regs_only g g'"
    "\<forall>a. exec_decoded h (word_at (pc g) g) (at_pc a g) = Inr (0, at_pc a g')"
    using emit_inlined [of "word_at (pc g) g" g h] assms by (auto simp: inlined_def block_start_def)
  have same: "g\<lparr>branch_pending := False\<rparr> = g"
    using assms(2) by (simp add: block_start_def)
  have step: "step_instruction h g = Inr (0, at_pc (pc g + 4) g')"
    unfolding step_instruction_def fetch_word_at Let_def same exec_inst_def
    using assms(2) g' by (simp add: block_start_def pc_step_def at_pc_def regs_only_def)
  have "reg g' R0 = 0"
    using step_contract(3) [OF step] assms(2) by (simp add: block_start_def)
  with g' step assms(2) show ?thesis by (simp add: block_start_def regs_only_def)
qed

lemma word_at_memory: "memory g = memory g' \<Longrightarrow> word_at a g = word_at a g'"
  by (simp add: word_at_def)

lemma block_body_memory: "memory g = memory g' \<Longrightarrow> block_body n a g = block_body n a g'"
proof (induction n arbitrary: a)
  case (Suc n)
  then show ?case using word_at_memory [OF Suc.prems, of a] by (simp split: option.split)
qed simp

lemma runs_to_compose:
  assumes "runs_to P b c s" and "\<And>s'. P s' \<Longrightarrow> runs_to Q b c' s'"
  shows "runs_to Q b (c @ c') s"
proof -
  obtain s' where s': "\<And>r. x86_run b (c @ r) s = x86_run b r s'" "P s'"
    using assms(1) by (auto simp: runs_to_def)
  then obtain s'' where "\<And>r. x86_run b (c' @ r) s' = x86_run b r s''" "Q s''"
    using assms(2) by (fastforce simp: runs_to_def)
  with s'(1) show ?thesis by (auto simp: runs_to_def)
qed

text \<open>The code of one instruction does what the interpreter's step does.\<close>

lemma emitted_step:
  assumes "block_start g" "jit_emit (word_at (pc g) g) = Some c" "r15 s = b" "guest s = at_pc a g"
  shows "\<exists>g1. step_instruction h g = Inr (0, at_pc (pc g + 4) g1) \<and> block_start (at_pc (pc g + 4) g1)
    \<and> memory g1 = memory g \<and> runs_to (native_ok (at_pc a g1) b (stack s)) b c s"
proof -
  obtain g1 where g1: "step_instruction h g = Inr (0, at_pc (pc g + 4) g1)"
    "exec_decoded h (word_at (pc g) g) (at_pc a g) = Inr (0, at_pc a g1)"
    "block_start (at_pc (pc g + 4) g1)" "memory g1 = memory g"
    using inlined_step [of g h] assms(1,2) by auto
  have "compiled b s (exec_decoded h (word_at (pc g) g) (guest s)) (jit_emit (word_at (pc g) g))"
    using assms by (intro jit_emit_compiled) (simp_all add: block_start_def)
  then have "runs_to (native_ok (at_pc a g1) b (stack s)) b c s"
    using assms(2,4) g1(2) by simp
  with g1 show ?thesis by blast
qed

text \<open>
  The body of a block from any state with the registers of \<open>g\<close> does what as many steps of the
  interpreter do, but for \<open>pc\<close>.
\<close>

lemma block_body_correct:
  assumes "block_start g" "block_body n (pc g) g = (k, code)"
    and "r15 s = b" "guest s = at_pc a g"
  shows "\<exists>g'. steps (step_instruction h) k g = Some g' \<and> pc g' = pc g + 4 * of_nat k
    \<and> block_start g' \<and> memory g' = memory g
    \<and> runs_to (native_ok (at_pc a g') b (stack s)) b code s"
  using assms
proof (induction n arbitrary: g k code s)
  case 0
  then show ?case by (auto simp: native_ok_def intro!: runs_to_Nil)
next
  case (Suc n)
  show ?case
  proof (cases "jit_emit (word_at (pc g) g)")
    case None
    with Suc.prems show ?thesis by (auto simp: native_ok_def intro!: runs_to_Nil)
  next
    case (Some c)
    obtain k' rest where rest: "block_body n (pc g + 4) g = (k', rest)" by fastforce
    with Suc.prems(2) Some have kc: "k = Suc k'" "code = c @ rest" by auto
    obtain g1 where g1: "step_instruction h g = Inr (0, at_pc (pc g + 4) g1)"
      "block_start (at_pc (pc g + 4) g1)" "memory g1 = memory g" and
      head: "runs_to (native_ok (at_pc a g1) b (stack s)) b c s"
      using emitted_step [OF Suc.prems(1) Some Suc.prems(3,4), of h] by blast
    let ?g2 = "at_pc (pc g + 4) g1"
    have body: "block_body n (pc ?g2) ?g2 = (k', rest)"
      using rest block_body_memory [of g ?g2 n] g1(3) by simp
    have tail: "\<exists>g'. steps (step_instruction h) k' ?g2 = Some g'
        \<and> pc g' = pc ?g2 + 4 * of_nat k' \<and> block_start g' \<and> memory g' = memory ?g2
        \<and> runs_to (native_ok (at_pc a g') b (stack s1)) b rest s1"
      if "native_ok (at_pc a g1) b (stack s) s1" for s1
      using that by (intro Suc.IH [OF g1(2) body]) (simp_all add: native_ok_def)
    obtain s0 where s0: "native_ok (at_pc a g1) b (stack s) s0"
      using head by (auto simp: runs_to_def)
    from tail [OF s0] obtain g' where g': "steps (step_instruction h) k' ?g2 = Some g'"
      "pc g' = pc ?g2 + 4 * of_nat k'" "block_start g'" "memory g' = memory ?g2" by blast
    have "runs_to (native_ok (at_pc a g') b (stack s)) b rest s1"
      if "native_ok (at_pc a g1) b (stack s) s1" for s1
      using tail [OF that] g'(1) that by (auto simp: native_ok_def)
    then have "runs_to (native_ok (at_pc a g') b (stack s)) b (c @ rest) s"
      by (rule runs_to_compose [OF head])
    then show ?thesis
      using g' g1(1,3) kc by (intro exI [of _ g']) (simp add: algebra_simps)
  qed
qed

lemma imm64_e64 [simp]: "imm64 f (e64 v @ r) = Some (f v, r)"
  by (simp add: imm64_def e64_def e32_def e8_def del: drop_bit_drop_bit)
    (rule arg_cong [where f = f], rule bit_word_eqI,
      auto simp: bit_or_iff bit_push_bit_iff bit_ucast_iff bit_drop_bit_eq)

lemma run_prologue:
  "x86_run b (prologue b @ r) s = x86_run b r (s\<lparr>stack := r15 s # stack s, r15 := b\<rparr>)"
proof -
  have "x86_decode (prologue b @ r) = Some (Push_r15, e8 0x49 @ e8 0xBF @ e64 b @ r)"
    by (simp add: prologue_def e8_def x86_decode_def decode_rex_b_def)
  moreover have "x86_decode (e8 0x49 @ e8 0xBF @ e64 b @ r) = Some (Movabs_r15 b, r)"
    by (simp add: e8_def x86_decode_def decode_two_def)
  ultimately show ?thesis by (simp add: x86_run_step)
qed

lemma run_epilogue:
  assumes "stack s = v # stk"
  shows "x86_run b (epilogue b a @ r) s
    = Inr (s\<lparr>rax := b + OFF_PC, guest := at_pc a (guest s), r15 := v, stack := stk\<rparr>)"
proof -
  let ?ret = "e8 0xC3 @ r" let ?pop = "e8 0x41 @ e8 0x5F @ ?ret"
  let ?mov = "e8 0xC7 @ e8 0x00 @ e32 a @ ?pop"
  have "x86_decode (epilogue b a @ r) = Some (Movabs_rax (b + OFF_PC), ?mov)"
    by (simp add: epilogue_def e8_def x86_decode_def decode_two_def)
  moreover have "x86_decode ?mov = Some (Mov_at_rax a, ?pop)"
    by (simp add: e8_def e32_def x86_decode_def decode_two_def imm32_def)
  moreover have "x86_decode ?pop = Some (Pop_r15, ?ret)"
    by (simp add: e8_def x86_decode_def decode_rex_b_def)
  moreover have "x86_run b ?ret s = Inr s" for s :: "'a native"
    by (simp add: e8_def x86_decode_def x86_run_ret)
  ultimately show ?thesis
    using assms by (simp add: x86_run_step guest_write_def at_pc_def)
qed

text \<open>The whole block, called with any contents of the host's registers.\<close>

lemma block_code_correct:
  assumes "block_start g" "block_body n (pc g) g = blk"
  shows "\<exists>g' s'. steps (step_instruction h) (fst blk) g = Some g' \<and> block_start g'
    \<and> memory g' = memory g \<and> pc g' = pc g + 4 * of_nat (fst blk)
    \<and> x86_run b (block_code b (pc g) blk @ r) (s\<lparr>guest := g\<rparr>) = Inr s'
    \<and> guest s' = g' \<and> r15 s' = r15 s \<and> stack s' = stack s"
proof -
  obtain k code where blk: "blk = (k, code)" by fastforce
  let ?s = "s\<lparr>guest := g, stack := r15 s # stack s, r15 := b\<rparr>"
  obtain g' where g': "steps (step_instruction h) k g = Some g'" "pc g' = pc g + 4 * of_nat k"
    "block_start g'" "memory g' = memory g"
    "runs_to (native_ok (at_pc (pc g) g') b (r15 s # stack s)) b code ?s"
    using block_body_correct [OF assms(1), of n k code ?s b "pc g" h] assms(2) blk by auto
  then obtain s1 where s1: "\<And>r. x86_run b (code @ r) ?s = x86_run b r s1"
    "native_ok (at_pc (pc g) g') b (r15 s # stack s) s1"
    by (auto simp: runs_to_def)
  let ?e = "epilogue b (pc g + 4 * of_nat k)"
  have "x86_run b (block_code b (pc g) blk @ r) (s\<lparr>guest := g\<rparr>)
      = x86_run b (prologue b @ code @ ?e @ r) (s\<lparr>guest := g\<rparr>)"
    by (simp add: block_code_def blk)
  also have "\<dots> = x86_run b (?e @ r) s1"
    unfolding run_prologue using s1(1) by simp
  also have "\<dots> = Inr (s1\<lparr>rax := b + OFF_PC, guest := at_pc (pc g + 4 * of_nat k) (guest s1),
      r15 := r15 s, stack := stack s\<rparr>)"
    using s1(2) by (intro run_epilogue) (simp add: native_ok_def)
  also have "guest s1 = at_pc (pc g) g'" using s1(2) by (simp add: native_ok_def)
  also have "at_pc (pc g + 4 * of_nat k) (at_pc (pc g) g') = g'"
    using at_pc_simps(9) [of g'] unfolding g'(2) by simp
  finally have run: "x86_run b (block_code b (pc g) blk @ r) (s\<lparr>guest := g\<rparr>)
      = Inr (s1\<lparr>rax := b + OFF_PC, guest := g', r15 := r15 s, stack := stack s\<rparr>)" .
  show ?thesis
    by (rule exI [of _ g'], rule exI, intro conjI, simp add: blk g'(1), rule g'(3), rule g'(4),
        simp add: blk g'(2), rule run) simp_all
qed

end
