(* ===== verification/Jit_Run.thy ===== *)
theory Jit_Run
  imports Jit_Correct
begin

text \<open>
  Runs of the code generator: what the block cache must contain, that every round of the
  dispatcher keeps it so and advances the machine by steps of the interpreter, and that the
  accelerated execution therefore returns what the interpreter returns.
\<close>

section \<open>Programs that do not modify the code they execute\<close>

text \<open>
  The generator never invalidates a block. \<open>code_stable\<close> is what it relies on: the word at an
  address the program executes is the same in all states of the run.
\<close>

definition code_stable :: "'w host \<Rightarrow> 'w machine \<Rightarrow> bool" where
  "code_stable h g0 \<longleftrightarrow> (\<forall>m n g g'. steps (step_instruction h) m g0 = Some g \<longrightarrow>
     steps (step_instruction h) n g0 = Some g' \<longrightarrow> word_at (pc g) g' = word_at (pc g) g)"

lemma block_body_stable:
  assumes "code_stable h g0" "steps (step_instruction h) m g0 = Some g"
    and "steps (step_instruction h) n g0 = Some gk" "block_start gk"
  shows "block_body l (pc gk) g = block_body l (pc gk) gk"
  using assms(3,4)
proof (induction l arbitrary: gk n)
  case (Suc l)
  have w: "word_at (pc gk) g = word_at (pc gk) gk"
    using assms(1,2) Suc.prems(1) unfolding code_stable_def by blast
  show ?case
  proof (cases "jit_emit (word_at (pc gk) gk)")
    case (Some c)
    then obtain g1 where g1: "step_instruction h gk = Inr (0, at_pc (pc gk + 4) g1)"
      "block_start (at_pc (pc gk + 4) g1)" "memory g1 = memory gk"
      using inlined_step [of gk h] Suc.prems(2) by auto
    have "steps (step_instruction h) (Suc n) g0 = Some (at_pc (pc gk + 4) g1)"
      unfolding steps_Suc_last using Suc.prems(1) g1(1) by blast
    from Suc.IH [OF this g1(2)]
    have "block_body l (pc gk + 4) g = block_body l (pc gk + 4) gk"
      using block_body_memory [of gk "at_pc (pc gk + 4) g1" l] g1(3) by simp
    with Some w show ?thesis by simp
  qed (simp add: w)
qed simp

section \<open>The cache\<close>

text \<open>
  An entry is valid for the run from \<open>g0\<close> when its code is the block of its address in some state
  of the run.
\<close>

definition valid_entry :: "'w host \<Rightarrow> 'w machine \<Rightarrow> u64 \<Rightarrow> jit \<Rightarrow> u32 \<Rightarrow> nat \<Rightarrow> bool" where
  "valid_entry h g0 base j a fn \<longleftrightarrow>
     (\<exists>n gk buf r. steps (step_instruction h) n g0 = Some gk \<and> pc gk = a \<and> block_start gk
       \<and> code_buf j = Some buf \<and> fst (block_body 1024 a gk) \<noteq> 0
       \<and> fn \<le> length buf \<and> drop fn buf = block_code base a (block_body 1024 a gk) @ r)"

definition cache_valid :: "'w host \<Rightarrow> 'w machine \<Rightarrow> u64 \<Rightarrow> jit \<Rightarrow> bool" where
  "cache_valid h g0 base j \<longleftrightarrow>
     (\<forall>a fn. cache_lookup a j = Some fn \<longrightarrow> valid_entry h g0 base j a fn)"

text \<open>The cache is a partial map that may forget: an insertion replaces what its slot held.\<close>

lemma cache_lookup_insert:
  "cache_lookup a (cache_insert b fn j)
    = (if a = b then Some fn else if slot a = slot b then None else cache_lookup a j)"
  by (auto simp: cache_lookup_def cache_insert_def)

lemma valid_entry_buf:
  "code_buf j = Some buf \<Longrightarrow> code_buf j' = Some (buf @ code) \<Longrightarrow>
    valid_entry h g0 base j a fn \<Longrightarrow> valid_entry h g0 base j' a fn"
  unfolding valid_entry_def by fastforce

lemma valid_entry_code_buf:
  "code_buf j' = code_buf j \<Longrightarrow> valid_entry h g0 base j' a fn = valid_entry h g0 base j a fn"
  by (simp add: valid_entry_def)

lemma compile_block_keeps:
  assumes "cache_valid h g0 base j" "compile_block base a g j = Inr (fn, j')"
    and "steps (step_instruction h) n g0 = Some g" "pc g = a" "block_start g"
  shows "cache_valid h g0 base j'
    \<and> (case fn of None \<Rightarrow> True | Some f \<Rightarrow> valid_entry h g0 base j' a f)"
proof (cases fn)
  case None
  then have "j' = j"
    using assms(2) by (auto simp: compile_block_def Let_def split: option.splits if_splits)
  with None assms(1) show ?thesis by simp
next
  case (Some f)
  then obtain buf where buf: "code_buf j = Some buf" "f = length buf"
    "j' = j\<lparr>code_buf := Some (buf @ block_code base a (block_body 1024 a g))\<rparr>"
    "fst (block_body 1024 a g) \<noteq> 0"
    using assms(2) by (auto simp: compile_block_def Let_def split: option.splits if_splits)
  have new: "valid_entry h g0 base j' a f"
    unfolding valid_entry_def using assms(3-5) buf by (intro exI conjI) auto
  have "valid_entry h g0 base j' b fb" if "cache_lookup b j' = Some fb" for b fb
  proof (rule valid_entry_buf [OF buf(1)])
    show "code_buf j' = Some (buf @ block_code base a (block_body 1024 a g))" by (simp add: buf(3))
    have "cache_lookup b j' = cache_lookup b j" by (simp add: buf(3) cache_lookup_def)
    with that assms(1) show "valid_entry h g0 base j b fb" by (simp add: cache_valid_def)
  qed
  with new Some show ?thesis by (simp add: cache_valid_def)
qed

lemma cache_insert_keeps:
  assumes "cache_valid h g0 base j" "valid_entry h g0 base j a fn"
  shows "cache_valid h g0 base (cache_insert a fn j)"
proof -
  have "code_buf (cache_insert a fn j) = code_buf j" by (simp add: cache_insert_def)
  from valid_entry_code_buf [OF this, of h g0 base] show ?thesis
    using assms by (auto simp: cache_valid_def cache_lookup_insert split: if_splits)
qed

section \<open>One round\<close>

text \<open>Calling a valid block makes at least one step of the interpreter.\<close>

lemma call_block_correct:
  assumes "code_stable h g0" "steps (step_instruction h) m g0 = Some g" "block_start g"
    and "valid_entry h g0 base j (pc g) fn"
  shows "\<exists>k g'. 0 < k \<and> steps (step_instruction h) k g = Some g'
    \<and> call_block base s fn j g = Inr g'"
proof -
  obtain n gk buf r where e: "steps (step_instruction h) n g0 = Some gk" "pc gk = pc g"
    "block_start gk" "code_buf j = Some buf" "fst (block_body 1024 (pc g) gk) \<noteq> 0"
    "drop fn buf = block_code base (pc g) (block_body 1024 (pc g) gk) @ r"
    using assms(4) unfolding valid_entry_def by blast
  have "block_body 1024 (pc g) g = block_body 1024 (pc g) gk"
    using block_body_stable [OF assms(1,2) e(1,3), of 1024] e(2) by simp
  from block_code_correct [OF assms(3) this, of h base r s]
  show ?thesis using e(4-6) by (auto simp: call_block_def)
qed

text \<open>
  The only failure of the generator: the code of a block is longer than the 8192 bytes that
  \<open>jit_compile_block\<close> keeps free for it.
\<close>

definition overlong :: "u64 \<Rightarrow> 'w machine \<Rightarrow> bool" where
  "overlong base g \<longleftrightarrow> 8192 < length (block_code base (pc g) (block_body 1024 (pc g) g))"

lemma compile_block_Inl:
  "compile_block base (pc g) g j = Inl u \<Longrightarrow> u = Out_of_bounds \<and> overlong base g"
  by (auto simp: compile_block_def overlong_def Let_def split: option.splits if_splits)

definition round_simulates ::
  "'w host \<Rightarrow> 'w machine \<Rightarrow> u64 \<Rightarrow> 'w machine \<Rightarrow> (int \<times> jit \<times> 'w machine) result \<Rightarrow> bool"
where
  "round_simulates h g0 base g r \<longleftrightarrow>
     (case r of
        Inl u \<Rightarrow> step_instruction h g = Inl u \<or> u = Out_of_bounds \<and> overlong base g
      | Inr (ret, j', g') \<Rightarrow> cache_valid h g0 base j' \<and>
          (if ret = 0 then \<exists>k>0. steps (step_instruction h) k g = Some g'
           else step_instruction h g = Inr (ret, g')))"

lemma round_interprets:
  "cache_valid h g0 base j \<Longrightarrow> round_simulates h g0 base g
    (rbind (step_instruction h g) (\<lambda>(ret, g'). Inr (ret, j, g')))"
  by (cases "step_instruction h g") (auto simp: round_simulates_def intro!: exI [of _ 1])

lemma round_calls:
  assumes "code_stable h g0" "steps (step_instruction h) m g0 = Some g" "block_start g"
    and "cache_valid h g0 base j" "valid_entry h g0 base j (pc g) fn"
  shows "round_simulates h g0 base g
    (rbind (call_block base s fn (cache_insert (pc g) fn j) g)
      (\<lambda>g'. Inr (0, cache_insert (pc g) fn j, g')))"
proof -
  let ?j = "cache_insert (pc g) fn j"
  have "code_buf ?j = code_buf j" by (simp add: cache_insert_def)
  then have "valid_entry h g0 base ?j (pc g) fn"
    using assms(5) valid_entry_code_buf by blast
  from call_block_correct [OF assms(1-3) this, of s]
  show ?thesis
    using cache_insert_keeps [OF assms(4,5)] by (auto simp: round_simulates_def)
qed

lemma jit_round_simulates:
  assumes "code_stable h g0" "steps (step_instruction h) m g0 = Some g"
    and "\<not> log_on g" "reg g R0 = 0" "cache_valid h g0 base j"
  shows "round_simulates h g0 base g (jit_round h base s (j, g))"
proof (cases "branch_pending g")
  case True
  then show ?thesis
    using round_interprets [OF assms(5), of g] by (simp add: jit_round_def branch_is_pending_def)
next
  case False
  then have bs: "block_start g" using assms(3,4) by (simp add: block_start_def)
  show ?thesis
  proof (cases "cache_lookup (pc g) j")
    case (Some fn)
    then have "valid_entry h g0 base j (pc g) fn"
      using assms(5) by (simp add: cache_valid_def)
    from round_calls [OF assms(1,2) bs assms(5) this, of s] show ?thesis
      using Some False by (simp add: jit_round_def branch_is_pending_def Let_def)
  next
    case None
    show ?thesis
    proof (cases "compile_block base (pc g) g j")
      case (Inl u)
      from compile_block_Inl [OF this] Inl None False show ?thesis
        by (simp add: jit_round_def branch_is_pending_def round_simulates_def)
    next
      case (Inr p)
      obtain fn j' where p: "p = (fn, j')" by fastforce
      have keeps: "cache_valid h g0 base j'"
        "case fn of None \<Rightarrow> True | Some f \<Rightarrow> valid_entry h g0 base j' (pc g) f"
        using compile_block_keeps [OF assms(5) Inr [unfolded p] assms(2) refl bs] by auto
      show ?thesis
        using keeps round_interprets [OF keeps(1), of g]
          round_calls [OF assms(1,2) bs keeps(1), of _ s] None False Inr p
        by (cases fn) (simp_all add: jit_round_def branch_is_pending_def Let_def)
    qed
  qed
qed

section \<open>The code buffer\<close>

lemma e_lengths [simp]:
  "length (e8 b) = 1" "length (e32 v) = 4" "length (e64 w) = 8" "length (ld r m) = 4"
  "4 \<le> k \<Longrightarrow> length (st m) \<le> k" "length (ld_off d) = 7" "length (st_off d) = 7" "length (alu_rr c m) = 4"
  "length (set_flag c) = 6"
  by (simp_all add: e8_def e32_def e64_def ld_def st_def ld_off_def st_off_def alu_rr_def
      set_flag_def)

lemma emit_length: "jit_emit i = Some c \<Longrightarrow> length c \<le> 21"
proof -
  define short where "short co \<longleftrightarrow> (\<forall>c :: u8 list. co = Some c \<longrightarrow> length c \<le> 21)" for co
  have "short (jit_special i)"
    unfolding jit_special_def
  proof (rule switch_all [where P = short],
      unfold list.pred_inject fst_conv snd_conv, intro conjI impI)
  qed (simp_all add: short_def)
  then have "short (jit_emit i)"
    unfolding jit_emit_def
    by (intro switch_all [where P = short],
        unfold list.pred_inject fst_conv snd_conv, intro conjI impI)
      (simp_all add: short_def)
  then show "jit_emit i = Some c \<Longrightarrow> length c \<le> 21" by (simp add: short_def)
qed

lemma block_body_length: "length (snd (block_body n a g)) \<le> 21 * n"
proof (induction n arbitrary: a)
  case (Suc n)
  show ?case
    using Suc [of "a + 4"] emit_length [of "word_at a g"]
    by (fastforce split: option.split prod.split)
qed simp

section \<open>The whole run\<close>

interpretation jit_loop: driver "jit_round h base s"
  for h :: "'w host" and base and s :: "'w native"
proof
  fix p p' :: "jit \<times> 'w machine" and ret
  assume "jit_round h base s p = Inr (ret, p')"
  then show "ret \<in> {0, 1, 2}"
    using step_contract(1) [of h "snd p"]
    by (fastforce simp: jit_round_def Let_def rbind_Inr_iff split: prod.splits if_splits option.splits)
qed

lemma jit_rounds_simulate:
  assumes "code_stable h g0" "\<not> log_on g0" "reg g0 R0 = 0" "cache_valid h g0 base j0"
    and "steps (jit_round h base s) n (j0, g0) = Some (j, g)"
  shows "cache_valid h g0 base j \<and> (\<exists>m\<ge>n. steps (step_instruction h) m g0 = Some g)"
  using assms(5)
proof (induction n arbitrary: j g)
  case 0
  then show ?case using assms(4) by (auto intro: exI [of _ 0])
next
  case (Suc n)
  then obtain j1 g1 where r: "steps (jit_round h base s) n (j0, g0) = Some (j1, g1)"
    "jit_round h base s (j1, g1) = Inr (0, j, g)"
    unfolding steps_Suc_last by auto
  from Suc.IH [OF r(1)] obtain m where m: "cache_valid h g0 base j1" "n \<le> m"
    "steps (step_instruction h) m g0 = Some g1" by blast
  have "\<not> log_on g1" "reg g1 R0 = 0"
    using cpu.steps_inv [OF m(3) assms(3)] cpu_log.steps_inv [OF m(3), of False] assms(2) by auto
  from jit_round_simulates [OF assms(1) m(3) this m(1), of s]
  have "cache_valid h g0 base j" "\<exists>k>0. steps (step_instruction h) k g1 = Some g"
    using r(2) by (simp_all add: round_simulates_def)
  then obtain k where "0 < k" "steps (step_instruction h) (m + k) g0 = Some g"
    using steps_add [of "step_instruction h" m _ g0] m(3) by auto
  with \<open>cache_valid h g0 base j\<close> m(2) show ?case
    by (intro conjI exI [of _ "m + k"]) auto
qed

text \<open>The result of the accelerated run without the state of the generator.\<close>

definition outcome ::
  "(int \<times> jit \<times> 'w machine) result option \<Rightarrow> (int \<times> 'w machine) result option" where
  "outcome r = map_option (\<lambda>x. rbind x (\<lambda>(ret, j, g). Inr (ret, g))) r"

lemma jit_loop_agrees:
  assumes "code_stable h g0" "\<not> log_on g0" "reg g0 R0 = 0" "cache_valid h g0 base j0"
  shows "outcome (loop (jit_round h base s) (j0, g0)) = execute h g0
    \<or> loop (jit_round h base s) (j0, g0) = Some (Inl Out_of_bounds)
      \<and> (\<exists>m g. steps (step_instruction h) m g0 = Some g \<and> overlong base g)"
proof (cases "loop (jit_round h base s) (j0, g0)")
  case None
  have "execute h g0 = None"
  proof (rule ccontr)
    assume "execute h g0 \<noteq> None"
    then obtain N gs r where N: "steps (step_instruction h) N g0 = Some gs"
      "stops (step_instruction h gs) = Some r"
      unfolding execute_def using cpu_loop.loop_iff [of h g0] by blast
    obtain j g where "steps (jit_round h base s) (Suc N) (j0, g0) = Some (j, g)"
      using None jit_loop.loop_forever_iff [of h base s "(j0, g0)"] by (metis surj_pair)
    from jit_rounds_simulate [OF assms this] obtain m
      where m: "Suc N \<le> m" "steps (step_instruction h) m g0 = Some g" by blast
    with cpu_loop.stops_last [OF N m(2)] show False by simp
  qed
  with None show ?thesis by (simp add: outcome_def)
next
  case (Some r)
  then obtain n j g where n: "steps (jit_round h base s) n (j0, g0) = Some (j, g)"
    "stops (jit_round h base s (j, g)) = Some r"
    using jit_loop.loop_iff [of h base s "(j0, g0)" r] by auto
  from jit_rounds_simulate [OF assms n(1)] obtain m
    where m: "cache_valid h g0 base j" "steps (step_instruction h) m g0 = Some g" by blast
  have "\<not> log_on g" "reg g R0 = 0"
    using cpu.steps_inv [OF m(2) assms(3)] cpu_log.steps_inv [OF m(2), of False] assms(2) by auto
  note sim = jit_round_simulates [OF assms(1) m(2) this m(1), of s]
  show ?thesis
  proof (cases "r = Inl Out_of_bounds \<and> overlong base g")
    case False
    have "stops (step_instruction h g) = Some (rbind r (\<lambda>(ret, j, g). Inr (ret, g)))"
      using sim n(2) False
      by (auto simp: round_simulates_def stops_def split: sum.splits if_splits)
    with loop_after [OF m(2) this] Some show ?thesis by (simp add: outcome_def execute_def)
  qed (use Some m(2) in auto)
qed

text \<open>
  The states a program reaches have short blocks, for instance when the block of no such state
  has more than 388 instructions: an instruction takes 21 bytes at most.
\<close>

definition short_blocks :: "'w host \<Rightarrow> u64 \<Rightarrow> 'w machine \<Rightarrow> bool" where
  "short_blocks h base g0 \<longleftrightarrow>
     (\<forall>m g. steps (step_instruction h) m g0 = Some g \<longrightarrow> \<not> overlong base g)"

lemma block_body_size: "length (snd (block_body n a g)) \<le> 21 * fst (block_body n a g)"
proof (induction n arbitrary: a)
  case (Suc n)
  show ?case
    using Suc [of "a + 4"] emit_length [of "word_at a g"]
    by (fastforce split: option.split prod.split)
qed simp

lemma few_inlined: "fst (block_body 1024 (pc g) g) \<le> 388 \<Longrightarrow> \<not> overlong base g"
  using block_body_size [of 1024 "pc g" g]
  by (simp add: overlong_def block_code_def prologue_def epilogue_def split: prod.split)

lemma jit_agrees_or_overruns:
  assumes "code_stable h g" and "\<not> log_on g" and "reg g R0 = 0" and "cache j = (\<lambda>_. None)"
  shows "outcome (execute_jit h base s mapped j g) = execute h g
    \<or> execute_jit h base s mapped j g = Some (Inl Out_of_bounds) \<and> \<not> short_blocks h base g"
proof -
  have "cache_valid h g base (if code_buf j = None then emit_init mapped j else j)"
    using assms(4) by (simp add: cache_valid_def cache_lookup_def emit_init_def)
  from jit_loop_agrees [OF assms(1-3) this] show ?thesis
    unfolding execute_jit_def short_blocks_def by blast
qed

text \<open>
  C1: started with a fresh generator, the accelerated execution returns exactly what the
  interpreter returns, with the same final machine, and runs for ever when the interpreter does,
  for every program that does not modify the code it executes, runs without the trace flag and
  whose blocks fit in the 8192 bytes the generator reserves.
\<close>

theorem jit_agrees_with_interpreter:
  assumes "code_stable h g" and "short_blocks h base g" and "\<not> log_on g" and "reg g R0 = 0"
    and "cache j = (\<lambda>_. None)"
  shows "outcome (execute_jit h base s mapped j g) = execute h g"
  using jit_agrees_or_overruns [OF assms(1,3-5)] assms(2) by blast

text \<open>The program \<open>addiu $8, $0, 5; break\<close>.\<close>

definition five :: "unit machine" where
  "five = zero_machine\<lparr>memory := (\<lambda>_. 0)(0 := 5, 2 := 8, 3 := 0x24, 4 := 0x0D)\<rparr>"

lemma five_steps:
  "step_instruction quiet_host five = Inr (0, set_reg 8 5 (five\<lparr>pc := 4\<rparr>))"
  "step_instruction quiet_host (set_reg 8 5 (five\<lparr>pc := 4\<rparr>))
    = Inr (2, set_reg K0 1 (set_reg 8 5 (five\<lparr>pc := 4\<rparr>)))"
  by (simp_all add: five_def zero_machine_def step_instruction_def fetch_def le_word_def
      exec_inst_def exec_decoded_def exec_immediate_def finish_r0_def field_defs set_reg_def
      pc_step_def fun_eq_iff)

lemma five_run:
  assumes "steps (step_instruction quiet_host) n five = Some g"
  shows "g = five \<or> g = set_reg 8 5 (five\<lparr>pc := 4\<rparr>)"
proof (cases n)
  case (Suc k)
  with assms have "steps (step_instruction quiet_host) k (set_reg 8 5 (five\<lparr>pc := 4\<rparr>)) = Some g"
    by (simp add: five_steps(1))
  then show ?thesis by (cases k) (simp_all add: five_steps(2))
qed (use assms in simp)

lemma five_stable: "code_stable quiet_host five"
  unfolding code_stable_def by (auto dest!: five_run simp: word_at_def)

text \<open>\<open>break\<close> is not inlined: the blocks of the program have one instruction and none.\<close>

lemma five_words:
  "word_at 0 five = 0x24080005" "word_at 4 five = 0x0D"
  "jit_emit 0x24080005 \<noteq> None" "jit_emit 0x0D = None"
  by (simp_all add: word_at_def le_word_def five_def jit_emit_def jit_special_def field_defs)

lemma block_body_stops: "jit_emit (word_at a g) = None \<Longrightarrow> block_body n a g = (0, [])"
  by (cases n) simp_all

lemma five_blocks:
  "fst (block_body 1024 0 five) = 1"
  "fst (block_body 1024 4 (set_reg 8 5 (five\<lparr>pc := 4\<rparr>))) = 0"
proof -
  have "word_at 4 (set_reg 8 5 (five\<lparr>pc := 4\<rparr>)) = 0x0D"
    using five_words(2) by (simp add: word_at_def)
  then show "fst (block_body 1024 4 (set_reg 8 5 (five\<lparr>pc := 4\<rparr>))) = 0"
    using block_body_stops five_words(4) by (metis fst_conv)
  have "fst (block_body (Suc 1023) 0 five) = 1"
    using five_words block_body_stops [of 4 five 1023] by (auto simp del: Suc_numeral)
  then show "fst (block_body 1024 0 five) = 1" by simp
qed

lemma five_short: "short_blocks quiet_host base five"
proof -
  have "pc five = 0" by (simp add: five_def zero_machine_def)
  then show ?thesis
    unfolding short_blocks_def
    by (auto dest!: five_run intro!: few_inlined simp: five_blocks)
qed

definition idle_native :: "unit native" where
  "idle_native = \<lparr>rax = 0, rcx = 0, rdx = 0, r15 = 0, flags = None, stack = [], guest = five\<rparr>"

lemma jit_agrees_with_interpreter_witness:
  "outcome (execute_jit quiet_host 0x1000 idle_native True \<lparr>code_buf = None, cache = \<lambda>_. None\<rparr> five)
      = execute quiet_host five"
  by (rule jit_agrees_with_interpreter [OF five_stable five_short])
    (simp_all add: five_def zero_machine_def)

text \<open>
  C8: a block compiled at \<open>pc\<close> and called, whatever the registers of the host hold, leaves exactly
  the machine that as many steps of the interpreter leave, with \<open>pc\<close> after the block, and restores
  the host's r15 and stack.
\<close>

theorem compiled_block_runs_steps:
  assumes "\<not> branch_pending g" "\<not> log_on g" "reg g R0 = 0"
    and "compile_block base (pc g) g j = Inr (Some fn, j')"
  shows "\<exists>g' k. 0 < k \<and> k \<le> 1024 \<and> steps (step_instruction h) k g = Some g'
    \<and> pc g' = pc g + 4 * of_nat k \<and> call_block base s fn j' g = Inr g'"
proof -
  have bs: "block_start g" using assms(1-3) by (simp add: block_start_def)
  obtain buf where buf: "code_buf j' = Some (buf @ block_code base (pc g) (block_body 1024 (pc g) g))"
    "fn = length buf" "fst (block_body 1024 (pc g) g) \<noteq> 0"
    using assms(4) by (auto simp: compile_block_def Let_def split: option.splits if_splits)
  have count: "fst (block_body n a g) \<le> n" for n a
  proof (induction n arbitrary: a)
    case (Suc n)
    then show ?case
      using Suc [of "a + 4"] by (cases "block_body n (a + 4) g") (auto split: option.split)
  qed simp
  from block_code_correct [OF bs refl, of h 1024 base "[]" s]
  obtain g' where "steps (step_instruction h) (fst (block_body 1024 (pc g) g)) g = Some g'"
    "pc g' = pc g + 4 * of_nat (fst (block_body 1024 (pc g) g))"
    "call_block base s fn j' g = Inr g'"
    by (auto simp: call_block_def buf(1,2))
  with count [of 1024 "pc g"] buf(3) show ?thesis by (intro exI conjI) auto
qed

lemma compiled_block_runs_steps_witness:
  "\<exists>fn j' g' k. compile_block 0x1000 0 five \<lparr>code_buf = Some [], cache = \<lambda>_. None\<rparr> = Inr (Some fn, j')
     \<and> 0 < k \<and> steps (step_instruction quiet_host) k five = Some g'
     \<and> call_block 0x1000 idle_native fn j' five = Inr g'"
proof -
  have "fst (block_body 1024 0 five) \<noteq> 0" by (simp add: five_blocks)
  then obtain fn j' where "compile_block 0x1000 0 five \<lparr>code_buf = Some [], cache = \<lambda>_. None\<rparr>
      = Inr (Some fn, j')"
    using block_body_length [of 1024 0 five]
    by (auto simp: compile_block_def Let_def block_code_def prologue_def epilogue_def)
  moreover have "pc five = 0" by (simp add: five_def zero_machine_def)
  ultimately show ?thesis
    using compiled_block_runs_steps [of five "0x1000" "\<lparr>code_buf = Some [], cache = \<lambda>_. None\<rparr>" fn j'
        quiet_host idle_native]
    by (auto simp: five_def zero_machine_def)
qed

text \<open>
  A block takes at most 21535 bytes, so that with that much room left compilation never writes
  outside the code buffer.
\<close>

lemma block_fits_buffer:
  assumes "code_buf j = Some buf" and "length buf + 21535 \<le> CODE_CAP"
  shows "compile_block base a g j \<noteq> Inl u"
proof -
  have "length (block_code base a (block_body 1024 a g)) \<le> 21535"
    using block_body_length [of 1024 a g]
    by (simp add: block_code_def prologue_def epilogue_def)
  with assms show ?thesis by (auto simp: compile_block_def Let_def)
qed

lemma block_fits_buffer_witness:
  "compile_block 0x1000 0 five \<lparr>code_buf = Some [], cache = \<lambda>_. None\<rparr> \<noteq> Inl Out_of_bounds"
  by (rule block_fits_buffer [where buf = "[]"]) simp_all

text \<open>A memory in which every word is \<open>movz $8, $9, $10\<close>, which takes 21 bytes.\<close>

definition all_movz :: "unit machine" where
  "all_movz = zero_machine\<lparr>memory := \<lambda>a. if a AND 3 = 0 then 0x0A else if a AND 3 = 1 then 0x40
     else if a AND 3 = 2 then 0x2A else 0x01\<rparr>"

lemma word_at_all_movz: "word_at a all_movz = 0x012A400A"
proof -
  have "(4 * (a div 4)) AND 3 = (0 :: u32)"
  proof -
    have "4 * (a div 4) = push_bit 2 (a div 4)" by (simp add: push_bit_eq_mult mult.commute)
    then show ?thesis by (simp only: low_bits_eq take_bit_push_bit) simp
  qed
  from low_bits_add(1) [OF this] this show ?thesis
    by (simp add: word_at_def le_word_def all_movz_def)
qed

lemma block_body_all_movz:
  "fst (block_body n a all_movz) = n \<and> length (snd (block_body n a all_movz)) = 21 * n"
proof (induction n arbitrary: a)
  case (Suc n)
  obtain c where c: "jit_emit 0x012A400A = Some c" "length c = 21"
    by (simp add: jit_emit_def jit_special_def field_defs st_def ld_def e8_def)
  from Suc [of "a + 4"] show ?case
    by (cases "block_body n (a + 4) all_movz") (simp add: word_at_all_movz c)
qed simp

text \<open>
  C27: the check before compilation is not enough: with the 8192 bytes it asks for left in the
  buffer, a block can be written past its end.
\<close>

theorem block_can_overrun_buffer:
  "\<exists>(g :: unit machine) j buf. code_buf j = Some buf \<and> length buf + 8192 \<le> CODE_CAP
     \<and> compile_block base a g j = Inl Out_of_bounds"
proof -
  define n where "n = CODE_CAP - 8192"
  then have n: "n + 8192 = CODE_CAP" by simp
  let ?j = "\<lparr>code_buf = Some (replicate n 0), cache = \<lambda>_. None\<rparr>"
  have "length (block_code base a (block_body 1024 a all_movz)) = 21535"
    using block_body_all_movz [of 1024 a] by (simp add: block_code_def prologue_def epilogue_def)
  then have "compile_block base a all_movz ?j = Inl Out_of_bounds"
    using block_body_all_movz [of 1024 a] n by (simp add: compile_block_def Let_def)
  with n show ?thesis by (intro exI [of _ all_movz] exI [of _ ?j]) simp
qed

end
