(* ===== verification/Jit_Stale.thy ===== *)
theory Jit_Stale
  imports Jit_Run
begin

text \<open>
  What the generator does with a program that overwrites code it has executed: nothing invalidates
  the cached block, so the accelerated run keeps executing the old instruction.
\<close>

section \<open>The program\<close>

text \<open>
  \<open>addiu $8, $8, 1\<close>, \<open>sw $9, 0($0)\<close>, \<open>j 0\<close>, \<open>nop\<close>, with the word of \<open>break\<close> in \<open>$9\<close>: the first
  instruction is executed once and then replaced by \<open>break\<close>.
\<close>

definition patcher :: "unit machine" where
  "patcher = zero_machine\<lparr>reg := (\<lambda>_. 0)(9 := 0x0D),
     memory := (\<lambda>_. 0)(0 := 1, 2 := 8, 3 := 0x25, 6 := 9, 7 := 0xAC, 11 := 8)\<rparr>"

text \<open>The program at its instruction \<open>k\<close>, whatever its first word is.\<close>

definition patching :: "nat \<Rightarrow> unit machine \<Rightarrow> bool" where
  "patching k g \<longleftrightarrow> reg g R0 = 0 \<and> reg g 9 = 0x0D \<and> \<not> log_on g \<and> pc g = of_nat (4 * k)
     \<and> branch_pending g = (k = 3) \<and> (k = 3 \<longrightarrow> branch_target g = 0)
     \<and> word_at 4 g = 0xAC090000 \<and> word_at 8 g = 0x08000000 \<and> word_at 12 g = 0"

lemma patcher_start: "patching 0 patcher" "word_at 0 patcher = 0x25080001"
  by (simp_all add: patching_def patcher_def zero_machine_def word_at_def le_word_def)

lemma patcher_fields:
  "op 0x25080001 = OP_ADDIU" "rs 0x25080001 = 8" "rt 0x25080001 = 8" "simm 0x25080001 = 1"
  "op 0xAC090000 = OP_SW" "rs 0xAC090000 = 0" "rt 0xAC090000 = 9" "simm 0xAC090000 = 0"
  "op 0x08000000 = OP_J" "target26 0x08000000 = 0"
  by code_simp+

text \<open>One step of the interpreter from each instruction but the first.\<close>

lemma patching_steps:
  "patching 1 g \<Longrightarrow> \<exists>g'. step_instruction quiet_host g = Inr (0, g') \<and> patching 2 g' \<and> word_at 0 g' = 0x0D"
  "patching 2 g \<Longrightarrow> \<exists>g'. step_instruction quiet_host g = Inr (0, g') \<and> patching 3 g' \<and> word_at 0 g' = word_at 0 g"
  "patching 3 g \<Longrightarrow> \<exists>g'. step_instruction quiet_host g = Inr (0, g') \<and> patching 0 g' \<and> word_at 0 g' = word_at 0 g"
proof -
  assume "patching 1 g"
  then show "\<exists>g'. step_instruction quiet_host g = Inr (0, g') \<and> patching 2 g' \<and> word_at 0 g' = 0x0D"
    by (simp add: patching_def step_instruction_def fetch_word_at exec_inst_def exec_decoded_def patcher_fields
        exec_immediate_def finish_r0_def mem_addr_def store_word_def device_store_word_def pc_step_def
        quiet_host_def set_reg_def word_at_def le_word_def)
next
  assume "patching 2 g"
  then show "\<exists>g'. step_instruction quiet_host g = Inr (0, g') \<and> patching 3 g' \<and> word_at 0 g' = word_at 0 g"
    by (simp add: patching_def step_instruction_def fetch_word_at exec_inst_def exec_decoded_def patcher_fields
        exec_jump_def finish_def schedule_branch_def pc_step_def word_at_def le_word_def)
next
  assume "patching 3 g"
  then show "\<exists>g'. step_instruction quiet_host g = Inr (0, g') \<and> patching 0 g' \<and> word_at 0 g' = word_at 0 g"
    by (simp add: patching_def step_instruction_def fetch_word_at exec_inst_def exec_decoded_def pc_step_def
        word_at_def le_word_def)
qed

text \<open>The effect of the first instruction, interpreted or native, and of the \<open>break\<close> that replaces it.\<close>

lemma patching_add:
  assumes "patching 0 g"
  shows "\<exists>g'. exec_decoded quiet_host 0x25080001 g = Inr (0, g') \<and> patching 1 (at_pc 4 g')"
    "word_at 0 g = 0x25080001 \<Longrightarrow> \<exists>g'. step_instruction quiet_host g = Inr (0, g') \<and> patching 1 g'"
    "word_at 0 g = 0x0D \<Longrightarrow> \<exists>g'. step_instruction quiet_host g = Inr (2, g')"
  using assms
  by (simp_all add: patching_def step_instruction_def fetch_word_at exec_inst_def exec_decoded_def patcher_fields
      exec_immediate_def finish_r0_def pc_step_def set_reg_def word_at_def)
    (simp add: field_defs)

lemma patcher_interpreted: "\<exists>m. execute quiet_host patcher = Some (Inr (0, m))"
proof -
  obtain g1 where g1: "step_instruction quiet_host patcher = Inr (0, g1)" "patching 1 g1"
    using patching_add(2) [OF patcher_start] by blast
  obtain g2 where g2: "step_instruction quiet_host g1 = Inr (0, g2)" "patching 2 g2" "word_at 0 g2 = 0x0D"
    using patching_steps(1) [OF g1(2)] by blast
  obtain g3 where g3: "step_instruction quiet_host g2 = Inr (0, g3)" "patching 3 g3" "word_at 0 g3 = 0x0D"
    using patching_steps(2) [OF g2(2)] g2(3) by auto
  obtain g4 where g4: "step_instruction quiet_host g3 = Inr (0, g4)" "patching 0 g4" "word_at 0 g4 = 0x0D"
    using patching_steps(3) [OF g3(2)] g3(3) by auto
  obtain m where m: "step_instruction quiet_host g4 = Inr (2, m)"
    using patching_add(3) [OF g4(2,3)] by blast
  have "steps (step_instruction quiet_host) 4 patcher = Some g4"
    using g1(1) g2(1) g3(1) g4(1) by (simp add: numeral_eq_Suc)
  moreover have "stops (step_instruction quiet_host g4) = Some (Inr (0, m))" by (simp add: m stops_def)
  ultimately show ?thesis unfolding execute_def using cpu_loop.loop_iff by blast
qed

section \<open>The accelerated run\<close>

text \<open>A block of one instruction does the instruction it was compiled from, whatever the memory holds now.\<close>

lemma one_instruction_block:
  assumes "reg g R0 = 0" "jit_emit i = Some c" "exec_decoded h i g = Inr (0, g1)"
  shows "\<exists>s'. x86_run b (block_code b a (1, c) @ r) (s\<lparr>guest := g\<rparr>) = Inr s' \<and> guest s' = at_pc (a + 4) g1"
proof -
  let ?s = "s\<lparr>guest := g, stack := r15 s # stack s, r15 := b\<rparr>"
  have "compiled b ?s (exec_decoded h i (guest ?s)) (jit_emit i)"
    using assms(1) by (intro jit_emit_compiled) simp_all
  then obtain s1 where s1: "\<And>r. x86_run b (c @ r) ?s = x86_run b r s1"
    "native_ok g1 b (r15 s # stack s) s1"
    using assms(2,3) by (auto simp: runs_to_def)
  have "x86_run b (block_code b a (1, c) @ r) (s\<lparr>guest := g\<rparr>)
      = x86_run b (epilogue b (a + 4) @ r) s1"
    using s1(1) by (simp add: block_code_def run_prologue)
  also have "\<dots> = Inr (s1\<lparr>rax := b + OFF_PC, guest := at_pc (a + 4) (guest s1), r15 := r15 s, stack := stack s\<rparr>)"
    using s1(2) by (intro run_epilogue) (simp add: native_ok_def)
  finally show ?thesis using s1(2) by (simp add: native_ok_def)
qed

text \<open>The generator once the block at 0 is cached: nothing else is ever compiled.\<close>

definition stale :: "u64 \<Rightarrow> jit \<Rightarrow> bool" where
  "stale base j \<longleftrightarrow> (\<exists>buf fn c r. code_buf j = Some buf \<and> cache_lookup 0 j = Some fn
     \<and> jit_emit 0x25080001 = Some c \<and> drop fn buf = block_code base 0 (1, c) @ r)
     \<and> cache_lookup 4 j = None \<and> cache_lookup 8 j = None"

lemma patcher_emit: "jit_emit 0x25080001 \<noteq> None" "jit_emit 0xAC090000 = None" "jit_emit 0x08000000 = None"
  by (simp_all add: jit_emit_def patcher_fields)

text \<open>Each of the four rounds: the cached block, two interpreted instructions, the delay slot.\<close>

lemma stale_round_cached:
  assumes "stale base j" "patching 0 g"
  shows "\<exists>j' g'. jit_round quiet_host base s (j, g) = Inr (0, j', g') \<and> stale base j' \<and> patching 1 g'"
proof -
  obtain buf fn c r where st: "code_buf j = Some buf" "cache_lookup 0 j = Some fn"
    "jit_emit 0x25080001 = Some c" "drop fn buf = block_code base 0 (1, c) @ r"
    "cache_lookup 4 j = None" "cache_lookup 8 j = None"
    using assms(1) unfolding stale_def by blast
  let ?j = "cache_insert 0 fn j"
  obtain g1 where g1: "exec_decoded quiet_host 0x25080001 g = Inr (0, g1)" "patching 1 (at_pc 4 g1)"
    using patching_add(1) assms(2) by blast
  have g: "pc g = 0" "\<not> branch_pending g" "reg g R0 = 0" using assms(2) by (simp_all add: patching_def)
  obtain s' where "x86_run base (drop fn buf) (s\<lparr>guest := g\<rparr>) = Inr s'" "guest s' = at_pc 4 g1"
    unfolding st(4) using one_instruction_block [OF g(3) st(3) g1(1), of base 0 r s] by auto
  then have "call_block base s fn ?j g = Inr (at_pc 4 g1)"
    using st(1) by (simp add: call_block_def cache_insert_def)
  then have "jit_round quiet_host base s (j, g) = Inr (0, ?j, at_pc 4 g1)"
    using st(2) g by (simp add: jit_round_def branch_is_pending_def Let_def)
  moreover have "code_buf ?j = Some buf" using st(1) by (simp add: cache_insert_def)
  then have "stale base ?j"
    using st(3-6) by (auto simp: stale_def cache_lookup_insert)
  ultimately show ?thesis using g1(2) by auto
qed

lemma interpreted_round:
  assumes "cache_lookup (pc g) j = None" "jit_emit (word_at (pc g) g) = None" "\<not> branch_pending g"
    and "step_instruction quiet_host g = Inr r"
  shows "jit_round quiet_host base s (j, g) = Inr (fst r, j, snd r)"
proof -
  have "compile_block base (pc g) g j = Inr (None, j)"
    using assms(2) block_body_stops [of "pc g" g 1024] by (simp add: compile_block_def Let_def split: option.split)
  with assms show ?thesis
    by (cases r) (simp add: jit_round_def branch_is_pending_def Let_def)
qed

lemma stale_round:
  assumes "stale base j" "patching k g" "k < 4"
  shows "\<exists>j' g'. jit_round quiet_host base s (j, g) = Inr (0, j', g') \<and> stale base j'
    \<and> patching (if k = 3 then 0 else k + 1) g'"
proof -
  have lookup: "cache_lookup 4 j = None" "cache_lookup 8 j = None" using assms(1) by (auto simp: stale_def)
  consider "k = 0" | "k = 1" | "k = 2" | "k = 3" using assms(3) by linarith
  then show ?thesis
  proof cases
    case 1
    with stale_round_cached [OF assms(1)] assms(2) show ?thesis by simp
  next
    case 2
    obtain g' where g': "step_instruction quiet_host g = Inr (0, g')" "patching 2 g'"
      using patching_steps(1) assms(2) 2 by blast
    have g: "pc g = 4" "\<not> branch_pending g" "word_at 4 g = 0xAC090000" using assms(2) 2 by (simp_all add: patching_def)
    then have "jit_round quiet_host base s (j, g) = Inr (0, j, g')"
      using interpreted_round [OF _ _ _ g'(1)] lookup(1) patcher_emit(2) by simp
    with g'(2) assms(1) 2 show ?thesis by (auto simp: numeral_2_eq_2)
  next
    case 3
    obtain g' where g': "step_instruction quiet_host g = Inr (0, g')" "patching 3 g'"
      using patching_steps(2) assms(2) 3 by blast
    have g: "pc g = 8" "\<not> branch_pending g" "word_at 8 g = 0x08000000" using assms(2) 3 by (simp_all add: patching_def)
    then have "jit_round quiet_host base s (j, g) = Inr (0, j, g')"
      using interpreted_round [OF _ _ _ g'(1)] lookup(2) patcher_emit(3) by simp
    with g'(2) assms(1) 3 show ?thesis by auto
  next
    case 4
    obtain g' where g': "step_instruction quiet_host g = Inr (0, g')" "patching 0 g'"
      using patching_steps(3) assms(2) 4 by blast
    have "branch_pending g" using assms(2) 4 by (simp add: patching_def)
    then have "jit_round quiet_host base s (j, g) = Inr (0, j, g')"
      using g'(1) by (simp add: jit_round_def branch_is_pending_def Let_def)
    with g'(2) assms(1) 4 show ?thesis by auto
  qed
qed

lemma patcher_block:
  "\<exists>c. jit_emit 0x25080001 = Some c \<and> block_body 1024 0 patcher = (1, c @ []) \<and> length c \<le> 21"
proof -
  obtain c where c: "jit_emit 0x25080001 = Some c" using patcher_emit(1) by blast
  have "word_at 4 patcher = 0xAC090000" using patcher_start(1) by (simp add: patching_def)
  then have "block_body 1023 4 patcher = (0, [])" using patcher_emit(2) by (simp add: block_body_stops)
  then have "block_body (Suc 1023) 0 patcher = (1, c @ [])"
    using patcher_start(2) c by (simp del: Suc_numeral)
  then show ?thesis using c emit_length [OF c] by simp
qed

lemma stale_start:
  "\<exists>j g. jit_round quiet_host base s (emit_init True \<lparr>code_buf = None, cache = \<lambda>_. None\<rparr>, patcher) = Inr (0, j, g)
    \<and> stale base j \<and> patching 1 g"
proof -
  let ?init = "emit_init True \<lparr>code_buf = None, cache = \<lambda>_. None\<rparr>"
  obtain c where c: "jit_emit 0x25080001 = Some c" "block_body 1024 0 patcher = (1, c)" "length c \<le> 21"
    using patcher_block by auto
  let ?code = "block_code base 0 (1, c)"
  let ?made = "\<lparr>code_buf = Some ?code, cache = \<lambda>_. None\<rparr> :: jit"
  let ?j = "cache_insert 0 0 ?made"
  obtain g1 where g1: "exec_decoded quiet_host 0x25080001 patcher = Inr (0, g1)" "patching 1 (at_pc 4 g1)"
    using patching_add(1) [OF patcher_start(1)] by blast
  have g: "pc patcher = 0" "\<not> branch_pending patcher" "reg patcher R0 = 0"
    using patcher_start(1) by (simp_all add: patching_def)
  have "length ?code \<le> CODE_CAP" using c(3) by (simp add: block_code_def prologue_def epilogue_def)
  then have compile: "compile_block base 0 patcher ?init = Inr (Some 0, ?made)"
    using c(2) by (simp add: compile_block_def emit_init_def Let_def)
  obtain s' where "x86_run base (?code @ []) (s\<lparr>guest := patcher\<rparr>) = Inr s'" "guest s' = at_pc 4 g1"
    using one_instruction_block [OF g(3) c(1) g1(1), of base 0 "[]" s] by auto
  then have "call_block base s 0 ?j patcher = Inr (at_pc 4 g1)"
    by (simp add: call_block_def cache_insert_def)
  moreover have "cache_lookup 0 ?init = None" by (simp add: cache_lookup_def emit_init_def)
  ultimately have "jit_round quiet_host base s (?init, patcher) = Inr (0, ?j, at_pc 4 g1)"
    using compile g by (simp add: jit_round_def branch_is_pending_def Let_def)
  moreover have "code_buf ?j = Some ?code" "cache_lookup a ?made = None" for a
    by (simp_all add: cache_insert_def cache_lookup_def)
  then have "stale base ?j"
    using c(1) by (auto simp: stale_def cache_lookup_insert intro!: exI [of _ "[]"])
  ultimately show ?thesis using g1(2) by blast
qed

lemma stale_forever:
  assumes "stale base j" "patching k g" "k < 4"
  shows "\<exists>p. steps (jit_round quiet_host base s) n (j, g) = Some p"
  using assms
proof (induction n arbitrary: j g k)
  case (Suc n)
  obtain j' g' where "jit_round quiet_host base s (j, g) = Inr (0, j', g')" "stale base j'"
    "patching (if k = 3 then 0 else k + 1) g'"
    using stale_round [OF Suc.prems] by blast
  then show ?case using Suc.IH [of j' "if k = 3 then 0 else k + 1" g'] Suc.prems(3) by auto
qed simp

text \<open>
  C12: the hypothesis that code is not modified is needed: the program that replaces its first
  instruction by \<open>break\<close> ends normally under the interpreter, and runs for ever with \<open>-j\<close>, which goes
  on executing the instruction that is no longer there, wherever \<open>struct global\<close> and the buffer are.
\<close>

theorem stale_block_never_stops:
  "(\<exists>m. execute quiet_host patcher = Some (Inr (0, m)))
    \<and> execute_jit quiet_host base s True \<lparr>code_buf = None, cache = \<lambda>_. None\<rparr> patcher = None"
proof
  obtain j g where first: "jit_round quiet_host base s
      (emit_init True \<lparr>code_buf = None, cache = \<lambda>_. None\<rparr>, patcher) = Inr (0, j, g)" "stale base j" "patching 1 g"
    using stale_start by blast
  have "\<exists>p. steps (jit_round quiet_host base s) n
      (emit_init True \<lparr>code_buf = None, cache = \<lambda>_. None\<rparr>, patcher) = Some p" for n
    using first(1) stale_forever [OF first(2,3)] by (cases n) simp_all
  then show "execute_jit quiet_host base s True \<lparr>code_buf = None, cache = \<lambda>_. None\<rparr> patcher = None"
    unfolding execute_jit_def using jit_loop.loop_forever_iff [of quiet_host base s] by simp
qed (rule patcher_interpreted)

end
