(* ===== verification/Typing.thy ===== *)
theory Typing
  imports Cpu Loader_Correct
begin

text \<open>
  The types the C code gives the state, which the model's larger types do not show: register arrays
  of 32 elements, a condition flag that is 0 or 1, a key that is one byte. Every instruction keeps
  them, and the program starts with them.
\<close>

named_theorems typed \<open>operations that keep the state well typed\<close>

definition well_typed :: "'w machine \<Rightarrow> bool" where
  "well_typed g \<longleftrightarrow> (\<forall>n. 32 \<le> n \<longrightarrow> reg g n = 0 \<and> fpr g n = 0) \<and> (fp_cond g = 0 \<or> fp_cond g = 1)
     \<and> last_key g < 256"

section \<open>Updates\<close>

lemma well_typed_registers [typed]:
  "n < 32 \<Longrightarrow> well_typed g \<Longrightarrow> well_typed (set_reg n v g)"
  "n < 32 \<Longrightarrow> well_typed g \<Longrightarrow> well_typed (set_fpr n w g)"
  "well_typed g \<Longrightarrow> well_typed (set_cond c g)"
  by (auto simp: well_typed_def set_reg_def set_fpr_def set_cond_def not_le [symmetric])

lemma well_typed_updates [typed]:
  "well_typed (schedule_branch t g) = well_typed g" "well_typed (poke a b g) = well_typed g"
  "well_typed (store_byte a v g) = well_typed g" "well_typed (store_half a v g) = well_typed g"
  "well_typed (set_hilo acc g) = well_typed g" "well_typed (pc_step k g) = well_typed g"
  "well_typed (put_stdout s g) = well_typed g" "well_typed (put_stderr s g) = well_typed g"
  "well_typed (g\<lparr>hi := v\<rparr>) = well_typed g" "well_typed (g\<lparr>lo := v\<rparr>) = well_typed g"
  "well_typed (g\<lparr>pc := v\<rparr>) = well_typed g" "well_typed (g\<lparr>world := x\<rparr>) = well_typed g"
  "well_typed (g\<lparr>branch_pending := b'\<rparr>) = well_typed g"
  "well_typed (g\<lparr>stdin_chars := s\<rparr>) = well_typed g"
  by (simp_all add: well_typed_def schedule_branch_def poke_def store_byte_def store_half_def
      set_hilo_def pc_step_def put_stdout_def put_stderr_def)

lemma well_typed_poke_list [typed]: "well_typed (poke_list k bs g) = well_typed g"
  by (induction bs arbitrary: k g) (simp_all add: typed)

section \<open>The device\<close>

lemma key_is_byte: "k < 256 \<Longrightarrow> foldl handle_event k es < 256"
proof (induction es arbitrary: k)
  case (Cons e es)
  have "(x AND 0xFF :: u32) < 256" for x
    using word_and_le1 [of x "0xFF"] by (rule order_le_less_trans) simp
  then have "handle_event k e < 256" using Cons.prems by (cases e) simp_all
  with Cons.IH show ?case by simp
qed simp

lemma well_typed_device [typed]:
  "well_typed g \<Longrightarrow> well_typed (gpu_flush h g)"
  "well_typed g \<Longrightarrow> well_typed (snd (load_word h a g))"
  "well_typed g \<Longrightarrow> well_typed (store_word h a v g)"
proof -
  assume g: "well_typed g"
  then show flush: "well_typed (gpu_flush h g)"
    by (auto simp: gpu_flush_def gpu_init_def pump_events_def Let_def case_prod_beta well_typed_def key_is_byte)
  show "well_typed (snd (load_word h a g))"
    using g by (auto simp: load_word_def device_load_word_def well_typed_def split: option.split)
  show "well_typed (store_word h a v g)"
    using g flush by (simp add: store_word_def device_store_word_def typed split: prod.split)
qed

section \<open>Instructions\<close>

lemma high_pair: "n < 31 \<Longrightarrow> n + 1 < (32 :: u8)"
  by (simp add: word_less_nat_alt unat_word_ariths(1))

lemma link_registers: "RA < 32" "K0 < 32" "R0 < 32" "V0 < 32"
  by simp_all

lemmas fields [typed] = register_fields_less

lemma well_typed_arith [typed]:
  "well_typed g \<Longrightarrow> well_typed (add_instr i g)" "well_typed g \<Longrightarrow> well_typed (sub_instr i g)"
  "well_typed g \<Longrightarrow> well_typed (addi_instr i g)" "well_typed g \<Longrightarrow> well_typed (mult_instr i g)"
  "well_typed g \<Longrightarrow> well_typed (multu_instr i g)" "well_typed g \<Longrightarrow> well_typed (divu_instr i g)"
  "well_typed g \<Longrightarrow> on_ok well_typed (div_instr i g)" "well_typed g \<Longrightarrow> on_ok well_typed (accumulate x g)"
  "well_typed g \<Longrightarrow> well_typed (exec_regimm i g)"
  by (simp_all add: add_instr_def sub_instr_def addi_instr_def mult_instr_def multu_instr_def divu_instr_def
      div_instr_def accumulate_def exec_regimm_def Let_def typed)

lemma well_typed_unaligned [typed]:
  "well_typed g \<Longrightarrow> well_typed (exec_lwl h i g)" "well_typed g \<Longrightarrow> well_typed (exec_lwr h i g)"
  "well_typed g \<Longrightarrow> well_typed (exec_swl h i g)" "well_typed g \<Longrightarrow> well_typed (exec_swr h i g)"
  by (simp_all add: exec_lwl_def exec_lwr_def exec_swl_def exec_swr_def Let_def case_prod_beta typed)

lemma well_typed_fpu [typed]:
  "n < 32 \<Longrightarrow> well_typed g \<Longrightarrow> well_typed (setf n f g)" "n < 32 \<Longrightarrow> well_typed g \<Longrightarrow> well_typed (setw n f g)"
  "n < 32 \<Longrightarrow> well_typed g \<Longrightarrow> on_ok well_typed (setd n d g)"
  by (simp_all add: setf_def setw_def setd_def typed high_pair)

text \<open>The cases of a decoder.\<close>

definition case_typed :: "'w machine result option \<Rightarrow> bool" where
  "case_typed r = (case r of None \<Rightarrow> True | Some s \<Rightarrow> on_ok well_typed s)"

lemma finish_typed:
  assumes "list_all (\<lambda>c. case_typed (snd c)) cs" "well_typed g"
  shows "on_ok (\<lambda>p. well_typed (snd p)) (finish g (switch k cs None))"
    and "on_ok (\<lambda>p. well_typed (snd p)) (finish_r0 g (switch k cs None))"
proof -
  have "case_typed (switch k cs None)"
    by (rule switch_rule) (use assms(1) in \<open>auto simp: list_all_iff case_typed_def\<close>)
  then show "on_ok (\<lambda>p. well_typed (snd p)) (finish g (switch k cs None))"
    "on_ok (\<lambda>p. well_typed (snd p)) (finish_r0 g (switch k cs None))"
    using assms(2)
    by (auto simp: finish_def finish_r0_def case_typed_def on_ok_def rbind_Inr_iff typed split: option.splits)
qed

lemma register_typed: "well_typed g \<Longrightarrow> on_ok (\<lambda>p. well_typed (snd p)) (exec_register h i g)"
  unfolding exec_register_def Let_def
  by (rule finish_typed(2)) (simp_all add: case_typed_def typed)

lemma immediate_typed: "well_typed g \<Longrightarrow> on_ok (\<lambda>p. well_typed (snd p)) (exec_immediate h i g)"
  unfolding exec_immediate_def Let_def case_prod_beta
  by (rule finish_typed(2)) (simp_all add: case_typed_def typed)

lemma jump_typed: "well_typed g \<Longrightarrow> on_ok (\<lambda>p. well_typed (snd p)) (exec_jump h i g)"
  unfolding exec_jump_def Let_def
  by (rule finish_typed(1)) (simp_all add: case_typed_def typed)

lemma special2_typed: "well_typed g \<Longrightarrow> on_ok (\<lambda>p. well_typed (snd p)) (exec_special2 h i g)"
  unfolding exec_special2_def Let_def
  by (rule finish_typed(2)) (simp_all add: case_typed_def typed)

lemma cop1_ldst_typed: "well_typed g \<Longrightarrow> on_ok (\<lambda>p. well_typed (snd p)) (exec_cop1_ldst h i g)"
  unfolding exec_cop1_ldst_def Let_def case_prod_beta
  by (rule finish_typed(1)) (simp_all add: case_typed_def typed high_pair)

lemma fp_typed:
  "well_typed g \<Longrightarrow> on_ok (\<lambda>p. well_typed (snd p)) (fp_single h i g)"
  "well_typed g \<Longrightarrow> on_ok (\<lambda>p. well_typed (snd p)) (fp_double h i g)"
  "well_typed g \<Longrightarrow> on_ok (\<lambda>p. well_typed (snd p)) (fp_word h i g)"
  unfolding fp_single_def fp_double_def fp_word_def Let_def
  by (rule finish_typed(1); simp add: case_typed_def typed on_ok_rbindI)+

lemma cop1_typed: "well_typed g \<Longrightarrow> on_ok (\<lambda>p. well_typed (snd p)) (exec_cop1 h i g)"
  unfolding exec_cop1_def Let_def
  by (rule switch_rule) (auto simp: typed fp_typed)

lemma write_bytes_typed [typed]: "well_typed g \<Longrightarrow> on_ok well_typed (write_bytes k bs g)"
  by (simp add: write_bytes_def typed)

lemma calls_typed [typed]:
  assumes "well_typed g"
  shows "well_typed (print_int g)" "well_typed (print_char g)" "well_typed (read_char g)"
    "well_typed (close_call h g)" "on_ok well_typed (print_string g)" "on_ok well_typed (read_int g)"
    "on_ok well_typed (open_call h g)" "on_ok well_typed (read_string h g)"
    "on_ok well_typed (read_call h g)" "on_ok well_typed (write_call h g)"
proof -
  show "well_typed (print_int g)" "well_typed (print_char g)" "well_typed (read_char g)"
    "well_typed (close_call h g)" "on_ok well_typed (print_string g)" "on_ok well_typed (read_int g)"
    "on_ok well_typed (open_call h g)"
    using assms by (simp_all add: print_int_def print_char_def read_char_def close_call_def print_string_def
        read_int_def open_call_def Let_def case_prod_beta typed split: list.split option.split)
  show "on_ok well_typed (read_string h g)"
    using assms by (simp add: read_string_def Let_def case_prod_beta typed)
  show "on_ok well_typed (read_call h g)"
    unfolding read_call_def case_prod_beta on_ok_rbind Let_def
    by (rule on_ok_mono [where P = well_typed]) (simp_all add: assms typed)
  show "on_ok well_typed (write_call h g)"
    unfolding write_call_def by (rule on_ok_rbindI) (simp add: assms typed case_prod_beta)
qed

lemma syscall_typed: "well_typed g \<Longrightarrow> on_ok (\<lambda>p. well_typed (snd p)) (call_syscall h g)"
  unfolding call_syscall_def Let_def
  by (rule switch_rule) (auto simp: on_ok_rbind typed logger_def)

lemma exec_decoded_typed:
  assumes "well_typed g"
  shows "on_ok (\<lambda>p. well_typed (snd p)) (exec_decoded h i g)"
proof -
  have sys: "on_ok (\<lambda>p. well_typed (snd p))
      (rbind (call_syscall h g) (\<lambda>(r, g'). Inr (if r \<noteq> 0 then 2 else 0 :: int, g')))"
    unfolding on_ok_rbind by (rule on_ok_mono [OF syscall_typed [OF assms]]) auto
  have "on_ok (\<lambda>p. well_typed (snd p)) (switch (op i)
      [(OP_SPECIAL, exec_register h i g), (OP_SPECIAL2, exec_special2 h i g),
       (OP_COP1, exec_cop1 h i g), (OP_LWC1, exec_cop1_ldst h i g),
       (OP_LDC1, exec_cop1_ldst h i g), (OP_SWC1, exec_cop1_ldst h i g),
       (OP_SDC1, exec_cop1_ldst h i g), (OP_J, exec_jump h i g), (OP_JAL, exec_jump h i g)]
      (exec_immediate h i g))"
    by (rule switch_rule)
      (auto intro!: assms register_typed special2_typed cop1_typed cop1_ldst_typed jump_typed immediate_typed)
  with sys show ?thesis using assms by (simp add: exec_decoded_def typed)
qed

lemma log_instr_typed [typed]: "well_typed (log_instr i f l g) = well_typed g"
  by (simp add: log_instr_def typed)

lemma step_typed: "well_typed g \<Longrightarrow> step_instruction h g = Inr (ret, g') \<Longrightarrow> well_typed g'"
proof -
  assume g: "well_typed g" and step: "step_instruction h g = Inr (ret, g')"
  have "on_ok (\<lambda>p. well_typed (snd p)) (exec_inst h (fetch g) (g\<lparr>branch_pending := False\<rparr>))"
    unfolding exec_inst_def by (rule exec_decoded_typed) (simp add: typed g)
  with step show ?thesis
    unfolding step_instruction_def Let_def by (auto simp: rbind_Inr_iff on_ok_def typed split: if_splits)
qed

interpretation cpu_typed: stepper "step_instruction h" well_typed for h :: "'w host"
  by unfold_locales (rule step_typed)

section \<open>The start\<close>

text \<open>Loading leaves the registers, the condition flag and the key alone.\<close>

definition cpu_file :: "'w machine \<Rightarrow> (u8 \<Rightarrow> u32) \<times> (u8 \<Rightarrow> u32) \<times> int \<times> u32" where
  "cpu_file g = (reg g, fpr g, fp_cond g, last_key g)"

lemma cpu_file_updates [simp]:
  "cpu_file (cpu_state (log_error f l s g)) = cpu_file (cpu_state g)"
  "cpu_file (cpu_state (put_bytes k bs g)) = cpu_file (cpu_state g)"
  "cpu_file (cpu_state (map_memory g)) = cpu_file (cpu_state g)"
  "cpu_file (m\<lparr>pc := v\<rparr>) = cpu_file m"
proof -
  have list: "cpu_file (poke_list k bs m) = cpu_file m" for k bs and m :: "'a machine"
    by (induction bs arbitrary: k m) (simp_all add: cpu_file_def)
  show "cpu_file (cpu_state (log_error f l s g)) = cpu_file (cpu_state g)"
    by (simp add: log_error_def logger_def put_stderr_def cpu_file_def)
  show "cpu_file (cpu_state (put_bytes k bs g)) = cpu_file (cpu_state g)" by (simp add: put_bytes_def list)
  show "cpu_file (cpu_state (map_memory g)) = cpu_file (cpu_state g)" by (simp add: map_memory_def cpu_file_def)
  show "cpu_file (m\<lparr>pc := v\<rparr>) = cpu_file m" by (simp add: cpu_file_def)
qed

lemma options_file: "cpu_file (cpu_state (fold parse_option args g)) = cpu_file (cpu_state g)"
proof (induction args arbitrary: g)
  case (Cons a args)
  have "cpu_file (cpu_state (parse_option a g)) = cpu_file (cpu_state g)"
    by (simp add: cpu_file_def parse_option.simps split: list.split)
  with Cons show ?case by simp
qed simp

lemma copy_segments_file:
  "copy_segments env i n g = Inr (ok, g') \<Longrightarrow> cpu_file (cpu_state g') = cpu_file (cpu_state g)"
proof (induction n arbitrary: i g)
  case (Suc n)
  obtain ph where "prg_header_at i g = Inr ph" using Suc.prems by (auto simp: rbind_Inr_iff)
  with Suc show ?case by (auto split: if_splits)
qed simp

lemma program_size_state: "program_size_loop i n g = Inr g' \<Longrightarrow> cpu_state g' = cpu_state g"
  by (induction n arbitrary: i g) (fastforce simp: rbind_Inr_iff split: if_splits)+

lemma open_file_file: "cpu_file (cpu_state (snd (open_file env path g))) = cpu_file (cpu_state g)"
  by (simp add: open_file_def)

lemma binary_or_elf_file:
  "binary_or_elf env path g = Inr (ok, g') \<Longrightarrow> cpu_file (cpu_state g') = cpu_file (cpu_state g)"
  using open_file_file [of env path g]
  by (auto simp: binary_or_elf_def Let_def split: prod.splits if_splits)

lemma map_elf_file: "map_elf env g = Inr (ok, g') \<Longrightarrow> cpu_file (cpu_state g') = cpu_file (cpu_state g)"
  by (auto simp: map_elf_def get_program_size_def rbind_Inr_iff dest!: copy_segments_file program_size_state
      split: if_splits)

lemma init_memory_file: "cpu_file (cpu_state (snd (init_memory env g))) = cpu_file (cpu_state g)"
  by (simp add: init_memory_def Let_def)

lemma init_registers:
  assumes "init_global env args g = Inr (True, g')"
  shows "reg (cpu_state g') = (\<lambda>_. 0)(SP := 0xFFFFFFFC)" "fpr (cpu_state g') = (\<lambda>_. 0)"
    "fp_cond (cpu_state g') = 0" "last_key (cpu_state g') = last_key (cpu_state g)"
proof -
  define g0 where "g0 = fold parse_option args (reset_global g)"
  define g1 where "g1 = g0\<lparr>cpu_state := (cpu_state g0)\<lparr>pc := 0\<rparr>\<rparr>"
  have start: "cpu_file (cpu_state g1) = (\<lambda>_. 0, \<lambda>_. 0, 0, last_key (cpu_state g))"
    by (simp add: g0_def g1_def options_file) (simp add: reset_global_def cpu_file_def)
  note init = assms [unfolded init_global_def Let_def, folded g0_def, folded g1_def]
  then obtain ok g2 e where parts: "binary_or_elf env (last args) g1 = Inr (ok, g2)" "elf g2 = Some e"
    by (auto simp: rbind_Inr_iff split: option.splits)
  from init obtain g3 where g3: "(if e then map_elf env g2 else Inr (init_memory env g2)) = Inr (True, g3)"
    "g' = g3\<lparr>cpu_state := set_reg SP (of_nat (MEM_SIZE - 4)) (cpu_state g3),
      address_map := replicate 100 (0, 0), map_index := 0\<rparr>"
    by (auto simp: parts rbind_Inr_iff split: if_splits prod.splits)
  have "cpu_file (cpu_state g3) = cpu_file (cpu_state g2)"
    using g3(1) map_elf_file [of env g2 True g3] init_memory_file [of env g2] by (cases e) auto
  with binary_or_elf_file [OF parts(1)] start
  show "reg (cpu_state g') = (\<lambda>_. 0)(SP := 0xFFFFFFFC)" "fpr (cpu_state g') = (\<lambda>_. 0)"
    "fp_cond (cpu_state g') = 0" "last_key (cpu_state g') = last_key (cpu_state g)"
    by (simp_all add: g3(2) set_reg_def cpu_file_def)
qed

section \<open>Properties\<close>

text \<open>
  C15: every state the program can reach is well typed: only the 32 registers that exist are ever
  written, the condition flag is 0 or 1 and the key fits in a byte, from the loaded machine on,
  through every instruction, errors included.
\<close>

theorem reachable_states_typed:
  assumes "init_global env args g = Inr (True, g')" and "last_key (cpu_state g) = 0"
    and "reaches (step_instruction h) (cpu_state g') m"
  shows "well_typed m"
proof (rule cpu_typed.reaches_inv [OF assms(3)])
  have "SP \<noteq> n" if "32 \<le> n" for n using that by auto
  then show "well_typed (cpu_state g')"
    using init_registers [OF assms(1)] assms(2) by (auto simp: well_typed_def)
qed

lemma reachable_states_typed_witness:
  "\<exists>g'. init_global (good_env (replicate 52 7)) [''prog''] sample_global = Inr (True, g')
     \<and> well_typed (cpu_state g')"
proof -
  let ?env = "good_env (replicate 52 7)"
  have env: "no_failures ?env" "52 \<le> length (contents ?env)" "length (contents ?env) < MEM_SIZE"
    by (simp_all add: no_failures_def good_env_def)
  have header: "\<not> check_header (read_ehdr (take 52 (contents ?env)))"
    by (auto simp: check_header_def read_ehdr_def good_env_def intro!: exI [of _ 0])
  obtain g' where init: "init_global ?env [''prog''] sample_global = Inr (True, g')"
    using flat_loaded [OF env header] by blast
  have "well_typed (cpu_state g')"
    by (rule reachable_states_typed [OF init _ reaches.start [of "step_instruction quiet_host"]])
      (simp add: sample_global_def zero_machine_def)
  with init show ?thesis by blast
qed

end
