(* ===== verification/Strto.thy ===== *)
theory Strto
  imports Format
begin

text \<open>
  The numbers the debugger reads: the C library's \<open>strtoumax\<close>, \<open>strtoul\<close> and \<open>strtol\<close> (base 10 or 16, C
  locale, 64 bits), and \<open>strtou32\<close> (src/utils.c) over the first. Strings are those before the NUL; the
  end pointer is the part of the string after the number.
\<close>

section \<open>The C library\<close>

definition alnum_value :: "char \<Rightarrow> nat" where
  "alnum_value c = (let n = of_char c in
     if 48 \<le> n \<and> n \<le> 57 then n - 48
     else if 97 \<le> n \<and> n \<le> 122 then n - 87
     else if 65 \<le> n \<and> n \<le> 90 then n - 55 else 36)"

definition digit_in :: "nat \<Rightarrow> char \<Rightarrow> bool" where
  "digit_in b c \<longleftrightarrow> alnum_value c < b"

definition number_value :: "nat \<Rightarrow> string \<Rightarrow> nat" where
  "number_value b s = foldl (\<lambda>v c. v * b + alnum_value c) 0 s"

definition take_sign :: "string \<Rightarrow> bool \<times> string" where
  "take_sign s = (case s of
      [] \<Rightarrow> (False, [])
    | c # cs \<Rightarrow> if c = CHR ''-'' then (True, cs)
        else if c = CHR ''+'' then (False, cs) else (False, s))"

text \<open>A prefix 0x counts only before a hexadecimal digit; otherwise the number is its zero.\<close>

definition skip_prefix :: "nat \<Rightarrow> string \<Rightarrow> string" where
  "skip_prefix b s = (case s of
      z # x # d # cs \<Rightarrow>
        if b = 16 \<and> z = CHR ''0'' \<and> (x = CHR ''x'' \<or> x = CHR ''X'') \<and> digit_in 16 d
        then d # cs else s
    | _ \<Rightarrow> s)"

text \<open>Sign and magnitude, and the rest of the string; without digits nothing is consumed.\<close>

definition strto :: "nat \<Rightarrow> string \<Rightarrow> (bool \<times> nat) option \<times> string" where
  "strto b s =
     (let (neg, s1) = take_sign (dropWhile is_space s);
          s2 = skip_prefix b s1;
          ds = takeWhile (digit_in b) s2
      in if ds = [] then (None, s)
         else (Some (neg, number_value b ds), dropWhile (digit_in b) s2))"

abbreviation ERANGE :: int where "ERANGE \<equiv> 34"
abbreviation ENOTSUP :: int where "ENOTSUP \<equiv> 95"
abbreviation ECANCELED :: int where "ECANCELED \<equiv> 125"

text \<open>The value, \<open>errno\<close> (0 when it is left alone) and the end pointer.\<close>

definition strtoumax :: "nat \<Rightarrow> string \<Rightarrow> nat \<times> int \<times> string" where
  "strtoumax b s =
     (case strto b s of
        (None, r) \<Rightarrow> (0, 0, r)
      | (Some (neg, n), r) \<Rightarrow>
          if 2 ^ 64 \<le> n then (2 ^ 64 - 1, ERANGE, r)
          else (if neg then (2 ^ 64 - n) mod 2 ^ 64 else n, 0, r))"

definition strtoul :: "nat \<Rightarrow> string \<Rightarrow> nat" where
  "strtoul b s = fst (strtoumax b s)"

definition strtol :: "nat \<Rightarrow> string \<Rightarrow> int" where
  "strtol b s =
     (case strto b s of
        (None, r) \<Rightarrow> 0
      | (Some (neg, n), r) \<Rightarrow>
          let x = (if neg then - int n else int n) in
          if x < - (2 ^ 63) then - (2 ^ 63) else if 2 ^ 63 \<le> x then 2 ^ 63 - 1 else x)"

section \<open>strtou32\<close>

text \<open>The number and the status.\<close>

definition strtou32 :: "string \<Rightarrow> nat \<Rightarrow> u32 \<times> int" where
  "strtou32 nptr base =
     (let lo = 0; hi = 2 ^ 32 - 1;
          (im, err, endptr) = strtoumax base nptr;
          rstatus = (if err = 0
            then if nptr = endptr then ECANCELED else if endptr \<noteq> [] then ENOTSUP else err
            else err)
      in if im < lo then (of_nat lo, if rstatus = 0 then ERANGE else rstatus)
         else if hi < im then (of_nat hi, if rstatus = 0 then ERANGE else rstatus)
         else (of_nat im, rstatus))"

section \<open>Lemmas\<close>

lemma strto_number:
  assumes "\<forall>c\<in>set ws. is_space c" and "sg \<in> {[], ''+'', ''-''}"
    and "pre = [] \<or> b = 16 \<and> pre \<in> {''0x'', ''0X''}" and "b = 10 \<or> b = 16"
    and "ds \<noteq> []" "\<forall>c\<in>set ds. digit_in b c"
    and "rest = [] \<or> \<not> digit_in b (hd rest) \<and> hd rest \<notin> {CHR ''x'', CHR ''X''}"
  shows "strto b (ws @ sg @ pre @ ds @ rest) = (Some (sg = ''-'', number_value b ds), rest)"
proof -
  obtain d ds' where ds: "ds = d # ds'" using assms(5) by (cases ds) auto
  then have d: "digit_in b d" using assms(6) by simp
  then have not_sign: "d \<noteq> CHR ''-''" "d \<noteq> CHR ''+''" "\<not> is_space d"
    using assms(4) by (auto simp: digit_in_def alnum_value_def is_space_def Let_def split: if_splits)
  have signs: "\<not> is_space (CHR ''-'')" "\<not> is_space (CHR ''+'')" "\<not> is_space (CHR ''0'')"
    by (simp_all add: is_space_def)
  have drop: "dropWhile is_space (ws @ xs) = dropWhile is_space xs" for xs
    using assms(1) by (simp add: dropWhile_append2)
  have body: "take_sign (dropWhile is_space (ws @ sg @ pre @ ds @ rest)) = (sg = ''-'', pre @ ds @ rest)"
    unfolding drop using assms(2,3) not_sign signs by (auto simp: take_sign_def ds)
  have not_x: "\<not> digit_in b (CHR ''x'')" "\<not> digit_in b (CHR ''X'')"
    using assms(4) by (auto simp: digit_in_def alnum_value_def)
  have prefix: "skip_prefix b (pre @ ds @ rest) = ds @ rest"
  proof (cases "pre = []")
    case True
    have "case ds' @ rest of [] \<Rightarrow> True | x # _ \<Rightarrow> x \<noteq> CHR ''x'' \<and> x \<noteq> CHR ''X''"
      using assms(6,7) not_x by (cases ds'; cases rest) (auto simp: ds)
    with True show ?thesis by (auto simp: skip_prefix_def ds split: list.splits)
  next
    case False
    with assms(3) d show ?thesis by (auto simp: skip_prefix_def ds)
  qed
  have split: "takeWhile (digit_in b) (ds @ rest) = ds" "dropWhile (digit_in b) (ds @ rest) = rest"
    using assms(6,7) by (cases rest; simp add: takeWhile_append dropWhile_append)+
  show ?thesis using assms(5) by (simp add: strto_def body prefix split)
qed

lemma strto_SomeE:
  assumes "strto b s = (Some (neg, n), r)"
  obtains ws sg pre ds where "s = ws @ sg @ pre @ ds @ r" "\<forall>c\<in>set ws. is_space c"
    "sg \<in> {[], ''+'', ''-''}" "neg \<longleftrightarrow> sg = ''-''" "pre = [] \<or> b = 16 \<and> pre \<in> {''0x'', ''0X''}"
    "ds \<noteq> []" "\<forall>c\<in>set ds. digit_in b c" "n = number_value b ds"
proof -
  define s0 where "s0 = dropWhile is_space s"
  obtain ng s1 where t: "take_sign s0 = (ng, s1)" by fastforce
  define ds where "ds = takeWhile (digit_in b) (skip_prefix b s1)"
  from assms t have eqs: "ds \<noteq> []" "ng = neg" "n = number_value b ds"
    "r = dropWhile (digit_in b) (skip_prefix b s1)"
    by (auto simp: strto_def s0_def ds_def Let_def split: if_splits)
  obtain sg where sg: "s0 = sg @ s1" "sg \<in> {[], ''+'', ''-''}" "ng \<longleftrightarrow> sg = ''-''"
    using t by (auto simp: take_sign_def split: list.splits if_splits)
  obtain pre where pre: "s1 = pre @ skip_prefix b s1" "pre = [] \<or> b = 16 \<and> pre \<in> {''0x'', ''0X''}"
  proof (cases "skip_prefix b s1 = s1")
    case True
    with that [of "[]"] show ?thesis by simp
  next
    case False
    then obtain x where "s1 = [CHR ''0'', x] @ skip_prefix b s1" "b = 16" "x = CHR ''x'' \<or> x = CHR ''X''"
      by (auto simp: skip_prefix_def split: list.splits if_splits)
    with that [of "[CHR ''0'', x]"] show ?thesis by auto
  qed
  have "skip_prefix b s1 = ds @ r" by (simp add: ds_def eqs(4))
  moreover have "s = takeWhile is_space s @ s0" by (simp add: s0_def)
  ultimately show ?thesis
    using that [of "takeWhile is_space s" sg pre ds] sg pre eqs
    by (auto simp: ds_def dest: set_takeWhileD)
qed

lemma strto_NoneE: "strto b s = (None, r) \<Longrightarrow> r = s"
  by (auto simp: strto_def Let_def split: prod.splits if_splits)

section \<open>Properties\<close>

lemma alnum_digit_char: "d < 16 \<Longrightarrow> alnum_value (digit_char d) = d"
proof -
  assume "d < 16"
  moreover have "\<forall>d\<in>set [0..<16]. alnum_value (digit_char d) = d"
    by (simp add: upt_rec alnum_value_def digit_char_def)
  ultimately show ?thesis by simp
qed

lemma number_value_show_base:
  assumes "2 \<le> b" "b \<le> 16"
  shows "number_value b (show_base b n) = n \<and> (\<forall>c\<in>set (show_base b n). digit_in b c)"
proof (induction n rule: less_induct)
  case (less n)
  show ?case
  proof (cases "n < b")
    case True
    with assms show ?thesis
      by (simp add: show_base.simps number_value_def alnum_digit_char digit_in_def)
  next
    case False
    with assms less.IH [of "n div b"] have
      "number_value b (show_base b (n div b)) = n div b \<and> (\<forall>c\<in>set (show_base b (n div b)). digit_in b c)"
      by (simp add: div_less_dividend)
    with False assms show ?thesis
      by (subst (1 2) show_base.simps)
        (auto simp: number_value_def alnum_digit_char digit_in_def less_le_trans [of _ b])
  qed
qed

lemma number_value_zeros: "number_value b (replicate k (CHR ''0'') @ s) = number_value b s"
  by (induction k) (simp_all add: number_value_def alnum_value_def)

lemma fmt_08x_number:
  "number_value 16 (fmt_08x n) = n" "\<forall>c\<in>set (fmt_08x n). digit_in 16 c" "fmt_08x n \<noteq> []"
  using number_value_show_base [of 16 n] show_base_nonempty [of 16 n]
  by (auto simp: fmt_08x_def fmt_x_def number_value_zeros digit_in_def alnum_value_def)

lemma strtou32_of:
  assumes "strto b s = (Some (neg, n), r)"
  shows "strtou32 s b = (let im = (if neg then (2 ^ 64 - n) mod 2 ^ 64 else n) in
    if 2 ^ 64 \<le> n then (2 ^ 32 - 1, ERANGE)
    else if 2 ^ 32 \<le> im then (2 ^ 32 - 1, if r = [] then ERANGE else ENOTSUP)
    else (of_nat im, if r = [] then 0 else ENOTSUP))"
proof -
  from assms obtain ws sg pre ds where "s = ws @ sg @ pre @ ds @ r" "ds \<noteq> []"
    by (rule strto_SomeE)
  then have "s \<noteq> r" by (metis append_assoc append_is_Nil_conv append_self_conv2)
  with assms show ?thesis
    by (simp add: strtou32_def strtoumax_def Let_def)
qed

lemma number_status:
  assumes "(if 2 ^ 64 \<le> n then (2 ^ 32 - 1, ERANGE)
      else if 2 ^ 32 \<le> im then (2 ^ 32 - 1, if r = [] then ERANGE else ENOTSUP)
      else (of_nat im, if r = [] then 0 else ENOTSUP)) = (a :: u32, 0)"
  shows "n < (2 ^ 64 :: nat) \<and> r = [] \<and> im = unat a"
proof -
  have "\<not> 2 ^ 64 \<le> n" "\<not> 2 ^ 32 \<le> im" "r = []" "a = of_nat im"
    using assms by (simp_all split: if_splits)
  then show ?thesis by (simp add: unat_of_nat take_bit_nat_eq_self not_le)
qed

text \<open>
  C33: \<open>strtou32\<close> in base 16 succeeds exactly on white space, an optional sign, an optional 0x and at
  least one digit and nothing else, whose value fits 64 bits and, taken modulo \<open>2 ^ 64\<close> with its
  sign, 32 bits: a negative number is accepted when its magnitude is large enough.
\<close>

theorem strtou32_accepts:
  "strtou32 s 16 = (a, 0) \<longleftrightarrow>
     (\<exists>ws sg pre ds. s = ws @ sg @ pre @ ds \<and> list_all is_space ws \<and> sg \<in> {[], ''+'', ''-''}
        \<and> pre \<in> {[], ''0x'', ''0X''} \<and> ds \<noteq> [] \<and> list_all (digit_in 16) ds
        \<and> number_value 16 ds < 2 ^ 64
        \<and> (if sg = ''-'' then (2 ^ 64 - number_value 16 ds) mod 2 ^ 64 else number_value 16 ds)
          = unat a)"
  (is "?ok \<longleftrightarrow> (\<exists>ws sg pre ds. ?parts ws sg pre ds)")
proof
  assume ok: ?ok
  obtain num r where st: "strto 16 s = (num, r)" by fastforce
  show "\<exists>ws sg pre ds. ?parts ws sg pre ds"
  proof (cases num)
    case None
    with st ok strto_NoneE [of 16 s r] show ?thesis by (simp add: strtou32_def strtoumax_def)
  next
    case (Some p)
    then obtain neg n where p: "strto 16 s = (Some (neg, n), r)" using st by (cases p) simp
    then obtain ws sg pre ds where parts: "s = ws @ sg @ pre @ ds @ r" "\<forall>c\<in>set ws. is_space c"
      "sg \<in> {[], ''+'', ''-''}" "neg \<longleftrightarrow> sg = ''-''" "pre = [] \<or> 16 = (16::nat) \<and> pre \<in> {''0x'', ''0X''}"
      "ds \<noteq> []" "\<forall>c\<in>set ds. digit_in 16 c" "n = number_value 16 ds"
      by (rule strto_SomeE)
    have num: "n < 2 ^ 64 \<and> r = [] \<and> (if neg then (2 ^ 64 - n) mod 2 ^ 64 else n) = unat a"
      using ok unfolding strtou32_of [OF p] Let_def by (rule number_status)
    from parts(1-3,5-7) num [unfolded parts(4,8)] have "?parts ws sg pre ds" by (simp add: list_all_iff split del: if_split)
    then show ?thesis by blast
  qed
next
  assume "\<exists>ws sg pre ds. ?parts ws sg pre ds"
  then obtain ws sg pre ds where parts: "?parts ws sg pre ds" by blast
  then have "strto 16 (ws @ sg @ pre @ ds @ []) = (Some (sg = ''-'', number_value 16 ds), [])"
    by (intro strto_number) (auto simp: list_all_iff)
  then have st: "strto 16 s = (Some (sg = ''-'', number_value 16 ds), [])" using parts by simp
  have "unat a < 2 ^ 32" using unat_bounds(3) [of a] by simp
  with parts show ?ok unfolding strtou32_of [OF st] Let_def by (auto simp: not_le)
qed

lemma strtou32_digits:
  assumes "pre \<in> {[], ''0x'', ''0X''}" "ds \<noteq> []" "\<forall>c\<in>set ds. digit_in 16 c" "number_value 16 ds = unat a"
  shows "strtou32 (pre @ ds) 16 = (a, 0)"
proof -
  have "strto 16 ([] @ [] @ pre @ ds @ []) = (Some (([] :: string) = ''-'', number_value 16 ds), [])"
    using assms by (intro strto_number) auto
  then have st: "strto 16 (pre @ ds) = (Some (False, unat a), [])" using assms(4) by simp
  have "unat a < 2 ^ 32" using unat_bounds(3) [of a] by simp
  then show ?thesis unfolding strtou32_of [OF st] Let_def by simp
qed

lemma strto_decimal: "strto 10 (fmt_u n) = (Some (False, n), [])"
proof -
  have "strto 10 ([] @ [] @ [] @ fmt_u n @ []) = (Some (([] :: string) = ''-'', number_value 10 (fmt_u n)), [])"
    using number_value_show_base [of 10 n] show_base_nonempty [of 10 n]
    by (intro strto_number) (auto simp: fmt_u_def)
  then show ?thesis using number_value_show_base [of 10 n] by (simp add: fmt_u_def)
qed

text \<open>
  An address printed by the debugger, eight digits after 0x, is read back as that address, in
  either case of the digits' prefix or without it.
\<close>

lemma printed_address_reads_back:
  "strtou32 (''0x'' @ fmt_08x (unat a)) 16 = (a, 0) \<and> strtou32 (fmt_08x (unat a)) 16 = (a, 0)
   \<and> strtou32 (''0X'' @ fmt_x (unat a)) 16 = (a, 0)"
  using strtou32_digits [of "''0x''" "fmt_08x (unat a)"] strtou32_digits [of "[]" "fmt_08x (unat a)"]
    strtou32_digits [of "''0X''" "fmt_x (unat a)"] fmt_08x_number [of "unat a"]
    number_value_show_base [of 16 "unat a"] show_base_nonempty [of 16 "unat a"]
  by (simp add: fmt_x_def)

end
