(* ===== verification/Vec.thy ===== *)
theory Vec
  imports Prelude
begin

text \<open>
  The growable character array (src/vec.c): the array behind its pointer, the number of characters
  in it and the number it has room for. The interface the debugger uses is the locale \<open>char_buffer\<close>.
\<close>

section \<open>The structure\<close>

text \<open>
  \<open>vec_data\<close> is \<open>None\<close> for NULL. The allocator is the C library's: \<open>alloc n\<close> is the contents of
  \<open>n\<close> fresh bytes, or \<open>None\<close> when there are none. Sizes are natural numbers: the capacity doubles,
  and \<open>malloc\<close> fails long before \<open>size_t\<close> wraps.
\<close>

type_synonym allocator = "nat \<Rightarrow> (nat \<Rightarrow> char) option"

record vec =
  vec_data :: "(nat \<Rightarrow> char) option"
  vec_size :: nat
  vec_capacity :: nat

definition vec_init :: vec where
  "vec_init = \<lparr>vec_data = None, vec_size = 0, vec_capacity = 0\<rparr>"

definition vec_destroy :: "vec \<Rightarrow> vec" where
  "vec_destroy v = v\<lparr>vec_data := None\<rparr>"

text \<open>\<open>realloc\<close> keeps the bytes of the old array.\<close>

definition vec_grow :: "allocator \<Rightarrow> vec \<Rightarrow> vec" where
  "vec_grow alloc v =
     (let new_capacity = (if vec_capacity v = 0 then 10 else vec_capacity v * 2);
          new_data = (case vec_data v of
              None \<Rightarrow> alloc new_capacity
            | Some d \<Rightarrow> map_option (\<lambda>fresh i. if i < vec_capacity v then d i else fresh i)
                (alloc new_capacity))
      in v\<lparr>vec_data := new_data, vec_capacity := new_capacity\<rparr>)"

definition vec_reset :: "vec \<Rightarrow> vec" where
  "vec_reset v = v\<lparr>vec_size := 0\<rparr>"

text \<open>The result of \<open>vec_grow\<close> is not checked: without memory the write goes through NULL.\<close>

definition vec_push :: "allocator \<Rightarrow> vec \<Rightarrow> char \<Rightarrow> vec result" where
  "vec_push alloc v c =
     (let w = (if vec_size v = vec_capacity v then vec_grow alloc v else v) in
      case vec_data w of
        None \<Rightarrow> Inl Out_of_bounds
      | Some d \<Rightarrow>
          if vec_capacity w \<le> vec_size w then Inl Out_of_bounds
          else Inr (w\<lparr>vec_data := Some (d(vec_size w := c)), vec_size := vec_size w + 1\<rparr>))"

text \<open>The characters of the array.\<close>

definition vec_chars :: "vec \<Rightarrow> string" where
  "vec_chars v = (case vec_data v of None \<Rightarrow> [] | Some d \<Rightarrow> map d [0..<vec_size v])"

definition vec_cstring :: "allocator \<Rightarrow> vec \<Rightarrow> (string \<times> vec) result" where
  "vec_cstring alloc v =
     (let v' = (if vec_size v = 0 then vec_push alloc v (CHR 0x00)
          else (case vec_data v of
              None \<Rightarrow> Inl Out_of_bounds
            | Some d \<Rightarrow> if d (vec_size v - 1) \<noteq> CHR 0x00 then vec_push alloc v (CHR 0x00)
                else Inr v))
      in rbind v' (\<lambda>w. Inr (takeWhile (\<lambda>c. c \<noteq> CHR 0x00) (vec_chars w), w)))"

section \<open>The interface\<close>

text \<open>What a client may rely on while there is memory.\<close>

definition vec_wf :: "vec \<Rightarrow> bool" where
  "vec_wf v \<longleftrightarrow> vec_size v \<le> vec_capacity v \<and> (vec_data v = None \<longrightarrow> vec_capacity v = 0)"

definition has_memory :: "allocator \<Rightarrow> bool" where
  "has_memory alloc \<longleftrightarrow> (\<forall>n. alloc n \<noteq> None)"

fun push_all :: "('b \<Rightarrow> char \<Rightarrow> 'b result) \<Rightarrow> 'b \<Rightarrow> string \<Rightarrow> 'b result" where
  "push_all push b [] = Inr b"
| "push_all push b (c # cs) = rbind (push b c) (\<lambda>b'. push_all push b' cs)"

lemma push_all_snoc: "push_all push b (cs @ [c]) = rbind (push_all push b cs) (\<lambda>b'. push b' c)"
proof (induction cs arbitrary: b)
  case Nil
  then show ?case by (cases "push b c") simp_all
next
  case (Cons d cs)
  then show ?case by (cases "push b d") simp_all
qed

locale char_buffer =
  fixes new :: "'b" and push :: "'b \<Rightarrow> char \<Rightarrow> 'b result"
    and chars :: "'b \<Rightarrow> string" and inv :: "'b \<Rightarrow> bool"
  assumes new_inv: "inv new" and new_chars: "chars new = []"
    and push_ok: "inv b \<Longrightarrow> \<exists>b'. push b c = Inr b' \<and> inv b' \<and> chars b' = chars b @ [c]"
begin

lemma push_all_ok:
  "inv b \<Longrightarrow> \<exists>b'. push_all push b cs = Inr b' \<and> inv b' \<and> chars b' = chars b @ cs"
proof (induction cs arbitrary: b)
  case (Cons c cs)
  obtain b1 where "push b c = Inr b1" "inv b1" "chars b1 = chars b @ [c]"
    using push_ok [OF Cons.prems] by blast
  with Cons.IH [of b1] show ?case by auto
qed simp

end

lemma vec_push_ok:
  assumes "has_memory alloc" "vec_wf v"
  shows "\<exists>v'. vec_push alloc v c = Inr v' \<and> vec_wf v' \<and> vec_chars v' = vec_chars v @ [c]"
proof -
  define w where "w = (if vec_size v = vec_capacity v then vec_grow alloc v else v)"
  obtain d where d: "vec_data w = Some d" and room: "vec_size w < vec_capacity w"
    and size: "vec_size w = vec_size v" and same: "vec_chars w = vec_chars v"
  proof (cases "vec_size v = vec_capacity v")
    case True
    obtain f where f: "alloc (if vec_capacity v = 0 then 10 else vec_capacity v * 2) = Some f"
      using assms(1) unfolding has_memory_def by blast
    show ?thesis
      using True f assms(2) that
      by (cases "vec_data v") (auto simp: w_def vec_grow_def Let_def vec_chars_def vec_wf_def)
  next
    case False
    with assms(2) that show ?thesis by (auto simp: w_def vec_wf_def)
  qed
  have "vec_push alloc v c = Inr (w\<lparr>vec_data := Some (d(vec_size w := c)), vec_size := vec_size w + 1\<rparr>)"
    unfolding vec_push_def w_def [symmetric] Let_def using d room by simp
  moreover have "map (d(vec_size w := c)) [0..<Suc (vec_size w)] = map d [0..<vec_size w] @ [c]"
    by simp
  ultimately show ?thesis
    using d room same by (auto simp: vec_wf_def vec_chars_def)
qed

text \<open>An allocator that never fails, whatever its fresh memory holds.\<close>

definition total_alloc :: "(nat \<Rightarrow> nat \<Rightarrow> char) \<Rightarrow> allocator" where
  "total_alloc fresh n = Some (fresh n)"

lemma total_alloc_memory: "has_memory (total_alloc fresh)"
  by (simp add: has_memory_def total_alloc_def)

interpretation vec: char_buffer vec_init "vec_push (total_alloc fresh)" vec_chars vec_wf for fresh
proof unfold_locales
  show "vec_wf vec_init" "vec_chars vec_init = []"
    by (simp_all add: vec_wf_def vec_init_def vec_chars_def)
qed (rule vec_push_ok [OF total_alloc_memory])

text \<open>
  Pushing any characters onto a new vector never fails while there is memory, keeps the vector
  well formed, and leaves exactly these characters; without memory the first push is undefined.
\<close>

lemma vec_grows_as_needed:
  "(\<exists>v. push_all (vec_push (total_alloc fresh)) vec_init cs = Inr v \<and> vec_wf v \<and> vec_chars v = cs
      \<and> vec_size v = length cs)
   \<and> vec_push (\<lambda>_. None) vec_init c = Inl Out_of_bounds"
proof -
  obtain v where v: "push_all (vec_push (total_alloc fresh)) vec_init cs = Inr v" "vec_wf v" "vec_chars v = cs"
    using vec.push_all_ok [OF vec.new_inv, of fresh cs] vec.new_chars by auto
  have size: "vec_size w = n + length cs'" if "push_all (vec_push (total_alloc fresh)) u cs' = Inr w" "vec_size u = n"
    for u w n cs'
    using that
  proof (induction cs' arbitrary: u n)
    case (Cons d ds)
    then obtain u' where "vec_push (total_alloc fresh) u d = Inr u'" "push_all (vec_push (total_alloc fresh)) u' ds = Inr w"
      by (auto simp: rbind_Inr_iff)
    moreover from this(1) have "vec_size u' = Suc (vec_size u)"
      by (auto simp: vec_push_def vec_grow_def Let_def split: option.splits if_splits)
    ultimately show ?case using Cons.IH [of u' "Suc n"] Cons.prems(2) by simp
  qed simp
  have "vec_size v = length cs" using size [OF v(1), of 0] by (simp add: vec_init_def)
  with v show ?thesis by (auto simp: vec_push_def vec_grow_def vec_init_def)
qed

end
