(* ===== verification/Cstream.thy ===== *)
theory Cstream
  imports Prelude
begin

text \<open>
  Error values and warnings (include/error.h, src/error.c), and the
  character streams (src/cstream.c, src/cstream_file.c, src/cstream_readline.c) and the
  interruptible line editor behind the interactive one (src/interruptible_readline.c). The virtual
  function \<open>read\<close> of a stream is an argument; the contract of an implementation is the locale
  \<open>char_stream\<close>, which the file stream and the interactive stream are shown to meet.
\<close>

section \<open>Errors and readers\<close>

text \<open>\<open>enum error\<close> without \<open>NO_ERROR\<close>, which is \<open>Inr\<close>.\<close>

datatype error = ERROR | KEYBOARD_INTERUPT | BREAK_INTERUPT | CONTINUE_INTERUPT | EXIT_INTERUPT

text \<open>
  What \<open>vwarn\<close> and \<open>vwarnx\<close> of the C library put around the message on stderr: the name of the
  program and the text of \<open>errno\<close>.
\<close>

record warning =
  program :: string
  errno_text :: string

text \<open>\<open>error_warn\<close> and \<open>error_warnx\<close>: the error they return and what they print on stderr.\<close>

definition error_warn :: "error \<Rightarrow> string \<Rightarrow> warning \<Rightarrow> error \<times> string" where
  "error_warn err msg w = (err, program w @ '': '' @ msg @ '': '' @ errno_text w @ [CHR 0x0A])"

definition error_warnx :: "error \<Rightarrow> string \<Rightarrow> warning \<Rightarrow> error \<times> string" where
  "error_warnx err msg w = (err, program w @ '': '' @ msg @ [CHR 0x0A])"

abbreviation EOF :: int where "EOF \<equiv> -1"

text \<open>
  \<open>read\<close> of an implementation with state \<open>'s\<close>: the error or the character stored through \<open>c\<close>, or
  \<open>None\<close> when it waits for input that never comes.
\<close>

type_synonym 's reader = "'s \<Rightarrow> ((error + int) \<times> 's) option"

record 's cstream =
  has_buffer :: bool
  buffer :: int
  impl :: 's

definition cstream_read :: "'s reader \<Rightarrow> 's cstream \<Rightarrow> ((error + int) \<times> 's cstream) option" where
  "cstream_read rd cs = map_option (\<lambda>(r, s). (r, cs\<lparr>impl := s\<rparr>)) (rd (impl cs))"

definition cstream_peek :: "'s reader \<Rightarrow> 's cstream \<Rightarrow> ((error + int) \<times> 's cstream) option" where
  "cstream_peek rd cs =
     (if \<not> has_buffer cs
      then (case cstream_read rd cs of
          None \<Rightarrow> None
        | Some (Inl err, cs') \<Rightarrow> Some (Inl err, cs')
        | Some (Inr c, cs') \<Rightarrow> Some (Inr c, cs'\<lparr>buffer := c, has_buffer := True\<rparr>))
      else Some (Inr (buffer cs), cs))"

text \<open>
  \<open>struct cstream_type\<close>: the functions of an implementation; \<open>reset\<close> is NULL for a stream that is not
  interactive.
\<close>

record 's cstream_type =
  type_read :: "'s reader"
  type_free :: "'s \<Rightarrow> (error + unit) \<times> 's"
  type_reset :: "('s \<Rightarrow> 's) option"
  interactive :: bool

text \<open>The stream may be NULL.\<close>

definition cstream_pop ::
  "'s reader \<Rightarrow> 's cstream option \<Rightarrow> ((error + int) \<times> 's cstream option) option" where
  "cstream_pop rd ptr =
     (case ptr of
        None \<Rightarrow> Some (Inl ERROR, None)
      | Some cs \<Rightarrow>
          if \<not> has_buffer cs
          then map_option (\<lambda>(r, cs'). (r, Some cs')) (cstream_read rd cs)
          else Some (Inr (buffer cs), Some (cs\<lparr>has_buffer := False\<rparr>)))"

definition cstream_free :: "('s \<Rightarrow> (error + unit) \<times> 's) \<Rightarrow> 's cstream \<Rightarrow> (error + unit) \<times> 's cstream" where
  "cstream_free fr cs = (let (r, s) = fr (impl cs) in (r, cs\<lparr>impl := s\<rparr>))"

section \<open>The file stream\<close>

text \<open>
  A \<open>FILE\<close> of the C library: the characters it still has to deliver, whether reading past them is
  an error rather than the end of the file, its error indicator, whether closing it fails, and what
  a warning about it says.
\<close>

record c_file =
  pending :: string
  broken :: bool
  error_flag :: bool
  close_fails :: bool
  closed :: bool
  failure :: warning

definition c_fgetc :: "c_file \<Rightarrow> int \<times> c_file" where
  "c_fgetc f = (case pending f of
     [] \<Rightarrow> (EOF, f\<lparr>error_flag := error_flag f \<or> broken f\<rparr>)
   | c # cs \<Rightarrow> (of_char c, f\<lparr>pending := cs\<rparr>))"

definition c_fclose :: "c_file \<Rightarrow> int \<times> c_file" where
  "c_fclose f = (if close_fails f then EOF else 0, f\<lparr>closed := True\<rparr>)"

text \<open>\<open>warned\<close> is what was printed on stderr.\<close>

record cstream_file =
  fclose_on_free :: bool
  cfile :: c_file
  warned :: string

text \<open>\<open>return error_warn(...)\<close>: the warning on stderr and the error.\<close>

definition file_warn :: "error \<times> string \<Rightarrow> cstream_file \<Rightarrow> (error + 'a) \<times> cstream_file" where
  "file_warn e s = (Inl (fst e), s\<lparr>warned := warned s @ snd e\<rparr>)"

definition cstream_file_read :: "cstream_file reader" where
  "cstream_file_read s =
     (let (res, f) = c_fgetc (cfile s); s' = s\<lparr>cfile := f\<rparr> in
      Some (if res = EOF \<and> error_flag f
        then file_warn (error_warn ERROR ''failed to read from file stream'' (failure f)) s'
        else (Inr res, s')))"

definition cstream_file_free :: "cstream_file \<Rightarrow> (error + unit) \<times> cstream_file" where
  "cstream_file_free s =
     (if \<not> fclose_on_free s then (Inr (), s)
      else let (r, f) = c_fclose (cfile s); s' = s\<lparr>cfile := f\<rparr> in
        if r \<noteq> EOF then (Inr (), s')
        else file_warn (error_warn ERROR ''failed to close file stream'' (failure f)) s')"

definition cstream_file_type :: "cstream_file cstream_type" where
  "cstream_file_type = \<lparr>type_read = cstream_file_read, type_free = cstream_file_free,
     type_reset = None, interactive = False\<rparr>"

text \<open>\<open>calloc\<close> clears the buffer flag.\<close>

definition cstream_file_create :: "c_file \<Rightarrow> bool \<Rightarrow> cstream_file cstream" where
  "cstream_file_create f on_free =
     \<lparr>has_buffer = False, buffer = 0, impl = \<lparr>fclose_on_free = on_free, cfile = f, warned = []\<rparr>\<rparr>"

section \<open>The line editor\<close>

text \<open>
  What can happen to \<open>interruptible_readline\<close>, in order: the signal handler runs; \<open>select\<close> fails
  with EAGAIN, with EINTR or otherwise, which is reported; or a key is read, which may complete a
  line (NULL for Ctrl-D) and then calls the callback.
\<close>

datatype rl_event = Rl_sigint | Rl_again | Rl_intr | Rl_fail warning | Rl_key "string option option"

text \<open>
  \<open>check_interrupt\<close>: the error, the flag afterwards, and what it prints on stderr. The calls that
  put the line editor back into its initial state are the library's.
\<close>

definition check_interrupt :: "bool \<Rightarrow> error option \<times> bool \<times> string" where
  "check_interrupt interrupted =
     (if \<not> interrupted then (None, interrupted, [])
      else (Some KEYBOARD_INTERUPT, False, ''^C'' @ [CHR 0x0A]))"

text \<open>\<open>readline_callback\<close>: the statics \<open>user_input\<close> and \<open>user_input_complete\<close>.\<close>

definition readline_callback :: "string option \<Rightarrow> string option \<times> bool" where
  "readline_callback line = (line, True)"

text \<open>The handler that \<open>interruptible_readline_setup\<close> installs.\<close>

definition sigint_handler :: "bool \<Rightarrow> bool" where
  "sigint_handler interrupted = True"

text \<open>
  The loop, with the flag: its result, the events it leaves, and what it prints on stderr;
  \<open>None\<close> when the events run out and it still waits. \<open>user_input_complete\<close> is false whenever the loop
  waits, and \<open>user_input\<close> is only read when it was just set.
\<close>

fun readline_loop ::
  "rl_event list \<Rightarrow> bool \<Rightarrow> ((error + string option) \<times> rl_event list \<times> string) option" where
  "readline_loop [] interrupted = None"
| "readline_loop (e # es) interrupted =
     (case e of
        Rl_sigint \<Rightarrow> readline_loop es (sigint_handler interrupted)
      | Rl_again \<Rightarrow> readline_loop es interrupted
      | Rl_intr \<Rightarrow> (case check_interrupt interrupted of
            (Some err, _, out) \<Rightarrow> Some (Inl err, es, out)
          | (None, interrupted', _) \<Rightarrow> readline_loop es interrupted')
      | Rl_fail w \<Rightarrow>
          (let (err, out) = error_warn ERROR ''select failed in interruptible_readline'' w
           in Some (Inl err, es, out))
      | Rl_key key \<Rightarrow>
          (let (user_input, complete) =
             (case key of Some line \<Rightarrow> readline_callback line | None \<Rightarrow> (None, False))
           in if complete then Some (Inr user_input, es, [])
             else (case check_interrupt interrupted of
                 (Some err, _, out) \<Rightarrow> Some (Inl err, es, out)
               | (None, interrupted', _) \<Rightarrow> readline_loop es interrupted')))"

declare readline_callback_def [simp]

definition interruptible_readline ::
  "rl_event list \<Rightarrow> ((error + string option) \<times> rl_event list \<times> string) option" where
  "interruptible_readline es = readline_loop es False"

section \<open>The interactive stream\<close>

text \<open>
  The line being delivered is a C string: its characters are not NUL. \<open>terminal\<close> is what is going to
  happen there, \<open>prompts\<close> the prompts handed to the line editor, \<open>echo\<close> what was printed on stderr.
\<close>

record cstream_readline =
  line_start :: bool
  current_line :: "string option"
  line_position :: nat
  terminal :: "rl_event list"
  prompts :: "string list"
  echo :: string

definition prompt_get :: "cstream_readline \<Rightarrow> string" where
  "prompt_get s = (if line_start s then ''dbg$ '' else ''> '')"

text \<open>The part of \<open>read\<close> after a line is there (or Ctrl-D was pressed).\<close>

definition deliver :: "cstream_readline \<Rightarrow> (error + int) \<times> cstream_readline" where
  "deliver s =
     (case current_line s of
        None \<Rightarrow> (Inr EOF, s)
      | Some str \<Rightarrow>
          if length str \<le> line_position s then (Inr 10, s\<lparr>current_line := None\<rparr>)
          else (Inr (of_char (str ! line_position s)), s\<lparr>line_position := line_position s + 1\<rparr>))"

definition cstream_readline_read :: "cstream_readline reader" where
  "cstream_readline_read s =
     (case current_line s of
        Some str \<Rightarrow> Some (deliver s)
      | None \<Rightarrow>
          (let s1 = s\<lparr>prompts := prompts s @ [prompt_get s]\<rparr> in
           case interruptible_readline (terminal s1) of
             None \<Rightarrow> None
           | Some (Inl err, es, out) \<Rightarrow>
               Some (Inl err, s1\<lparr>terminal := es, echo := echo s1 @ out\<rparr>)
           | Some (Inr line, es, out) \<Rightarrow>
               Some (deliver (s1\<lparr>current_line := line, line_position := 0, terminal := es,
                 echo := echo s1 @ out\<rparr>))))"

definition cstream_readline_free :: "cstream_readline \<Rightarrow> (error + unit) \<times> cstream_readline" where
  "cstream_readline_free s = (Inr (), s\<lparr>current_line := None\<rparr>)"

definition cstream_readline_reset :: "cstream_readline \<Rightarrow> cstream_readline" where
  "cstream_readline_reset s = s\<lparr>current_line := None, line_position := 0, line_start := True\<rparr>"

definition cstream_readline_type :: "cstream_readline cstream_type" where
  "cstream_readline_type = \<lparr>type_read = cstream_readline_read, type_free = cstream_readline_free,
     type_reset = Some cstream_readline_reset, interactive = True\<rparr>"

text \<open>
  \<open>malloc\<close> leaves the fields of the base structure as they are: \<open>junk\<close> is the buffer flag and the
  buffer found there.
\<close>

definition cstream_readline_create :: "bool \<times> int \<Rightarrow> rl_event list \<Rightarrow> cstream_readline cstream" where
  "cstream_readline_create junk es =
     \<lparr>has_buffer = fst junk, buffer = snd junk,
      impl = \<lparr>line_start = True, current_line = None, line_position = 0, terminal = es,
        prompts = [], echo = []\<rparr>\<rparr>"

section \<open>The contract of an implementation\<close>

text \<open>
  What a client of \<open>cstream_pop\<close> relies on: the characters of \<open>rest\<close> in order, as values of an
  \<open>unsigned char\<close>, then EOF. \<open>pop_n\<close> is such a client: \<open>n\<close> characters, one after the other.
\<close>

fun pop_n :: "'s reader \<Rightarrow> nat \<Rightarrow> 's cstream \<Rightarrow> (int list \<times> 's cstream) option" where
  "pop_n rd 0 cs = Some ([], cs)"
| "pop_n rd (Suc n) cs =
     (case cstream_pop rd (Some cs) of
        Some (Inr c, Some cs') \<Rightarrow> map_option (\<lambda>(rs, cs''). (c # rs, cs'')) (pop_n rd n cs')
      | _ \<Rightarrow> None)"

locale char_stream =
  fixes rd :: "'s reader" and rest :: "'s \<Rightarrow> string" and inv :: "'s \<Rightarrow> bool"
  assumes read_char: "inv s \<Longrightarrow> rest s = c # cs
      \<Longrightarrow> \<exists>s'. rd s = Some (Inr (of_char c), s') \<and> inv s' \<and> rest s' = cs"
    and read_end: "inv s \<Longrightarrow> rest s = [] \<Longrightarrow> \<exists>s'. rd s = Some (Inr EOF, s')"
begin

definition ready :: "string \<Rightarrow> 's cstream \<Rightarrow> bool" where
  "ready xs cs \<longleftrightarrow> \<not> has_buffer cs \<and> inv (impl cs) \<and> rest (impl cs) = xs"

lemma pop_char:
  "ready (c # xs) cs \<Longrightarrow> \<exists>cs'. cstream_pop rd (Some cs) = Some (Inr (of_char c), Some cs') \<and> ready xs cs'"
  using read_char [of "impl cs" c xs]
  by (auto simp: ready_def cstream_pop_def cstream_read_def)

lemma pop_end: "ready [] cs \<Longrightarrow> \<exists>cs'. cstream_pop rd (Some cs) = Some (Inr EOF, Some cs')"
  using read_end [of "impl cs"] by (auto simp: ready_def cstream_pop_def cstream_read_def)

lemma pop_n_chars:
  "ready (xs @ ys) cs \<Longrightarrow> \<exists>cs'. pop_n rd (length xs) cs = Some (map of_char xs, cs') \<and> ready ys cs'"
proof (induction xs arbitrary: cs)
  case (Cons x xs)
  then obtain cs1 where "cstream_pop rd (Some cs) = Some (Inr (of_char x), Some cs1)" "ready (xs @ ys) cs1"
    using pop_char [of x "xs @ ys" cs] by auto
  with Cons.IH [of cs1] show ?case by auto
qed simp

end

lemma char_not_EOF: "(of_char c :: int) \<noteq> EOF"
proof -
  have "(of_char c :: int) = int (of_char c)" by (rule of_nat_of_char [symmetric])
  then show ?thesis by linarith
qed

section \<open>The file stream meets it\<close>

definition file_ok :: "cstream_file \<Rightarrow> bool" where
  "file_ok s \<longleftrightarrow> \<not> broken (cfile s) \<and> \<not> error_flag (cfile s)"

interpretation from_file: char_stream cstream_file_read "\<lambda>s. pending (cfile s)" file_ok
  by unfold_locales
    (auto simp: cstream_file_read_def c_fgetc_def file_ok_def char_not_EOF Let_def)

section \<open>The interactive stream meets it\<close>

text \<open>
  What the user types before ending the input with Ctrl-D: every line, with its newline. Keys that
  complete no line and calls of \<open>select\<close> that have to be repeated do not matter; \<open>None\<close> when
  something else happens first.
\<close>

fun typed :: "rl_event list \<Rightarrow> string option" where
  "typed [] = None"
| "typed (e # es) =
     (case e of
        Rl_key (Some (Some line)) \<Rightarrow> map_option (\<lambda>cs. line @ CHR 0x0A # cs) (typed es)
      | Rl_key (Some None) \<Rightarrow> Some []
      | Rl_key None \<Rightarrow> typed es
      | Rl_again \<Rightarrow> typed es
      | Rl_intr \<Rightarrow> typed es
      | _ \<Rightarrow> None)"

definition readline_rest :: "cstream_readline \<Rightarrow> string" where
  "readline_rest s =
     (case current_line s of None \<Rightarrow> [] | Some str \<Rightarrow> drop (line_position s) str @ [CHR 0x0A])
     @ the (typed (terminal s))"

definition readline_ok :: "cstream_readline \<Rightarrow> bool" where
  "readline_ok s \<longleftrightarrow> typed (terminal s) \<noteq> None
     \<and> (case current_line s of None \<Rightarrow> True | Some str \<Rightarrow> line_position s \<le> length str)"

lemma readline_typed:
  assumes "typed es = Some cs"
  shows "(cs = [] \<and> (\<exists>es'. readline_loop es False = Some (Inr None, es', [])))
    \<or> (\<exists>line cs' es'. cs = line @ CHR 0x0A # cs' \<and> typed es' = Some cs'
         \<and> readline_loop es False = Some (Inr (Some line), es', []))"
  using assms
proof (induction es)
  case (Cons e es)
  then show ?case by (auto simp: check_interrupt_def split: rl_event.splits option.splits)
qed simp

lemma deliver_char:
  assumes "current_line s = Some str" "line_position s \<le> length str"
    and "typed (terminal s) = Some ts"
    and "drop (line_position s) str @ CHR 0x0A # ts = c # cs"
  shows "\<exists>s'. deliver s = (Inr (of_char c), s') \<and> readline_ok s' \<and> readline_rest s' = cs"
proof (cases "line_position s = length str")
  case True
  with assms have "c = CHR 0x0A" "cs = ts" by simp_all
  with assms True show ?thesis by (auto simp: deliver_def readline_ok_def readline_rest_def)
next
  case False
  with assms(2) have less: "line_position s < length str" by simp
  then have "drop (line_position s) str = str ! line_position s # drop (Suc (line_position s)) str"
    by (rule Cons_nth_drop_Suc [symmetric])
  with assms less show ?thesis by (auto simp: deliver_def readline_ok_def readline_rest_def)
qed

interpretation from_terminal: char_stream cstream_readline_read readline_rest readline_ok
proof unfold_locales
  fix s c cs assume ok: "readline_ok s" and rest: "readline_rest s = c # cs"
  then obtain ts where ts: "typed (terminal s) = Some ts" by (auto simp: readline_ok_def)
  show "\<exists>s'. cstream_readline_read s = Some (Inr (of_char c), s') \<and> readline_ok s' \<and> readline_rest s' = cs"
  proof (cases "current_line s")
    case None
    with rest ts have "ts = c # cs" by (simp add: readline_rest_def)
    with readline_typed [OF ts] obtain line cs' es' where
      line: "c # cs = line @ CHR 0x0A # cs'" "typed es' = Some cs'"
        "readline_loop (terminal s) False = Some (Inr (Some line), es', [])" by auto
    define s1 where "s1 = s\<lparr>prompts := prompts s @ [prompt_get s], current_line := Some line,
      line_position := 0, terminal := es'\<rparr>"
    have "cstream_readline_read s = Some (deliver s1)"
      using None line(3) by (simp add: cstream_readline_read_def interruptible_readline_def s1_def Let_def)
    moreover have "\<exists>s'. deliver s1 = (Inr (of_char c), s') \<and> readline_ok s' \<and> readline_rest s' = cs"
      by (rule deliver_char [of _ line cs']) (use line in \<open>simp_all add: s1_def\<close>)
    ultimately show ?thesis by auto
  next
    case (Some str)
    have "\<exists>s'. deliver s = (Inr (of_char c), s') \<and> readline_ok s' \<and> readline_rest s' = cs"
      by (rule deliver_char [OF Some _ ts])
        (use Some ok rest ts in \<open>simp_all add: readline_ok_def readline_rest_def\<close>)
    with Some show ?thesis by (auto simp: cstream_readline_read_def)
  qed
next
  fix s assume "readline_ok s" and rest: "readline_rest s = []"
  then obtain ts where ts: "typed (terminal s) = Some ts" by (auto simp: readline_ok_def)
  with rest have "current_line s = None" "ts = []"
    by (auto simp: readline_rest_def split: option.splits)
  with readline_typed [OF ts] show "\<exists>s'. cstream_readline_read s = Some (Inr EOF, s')"
    by (auto simp: cstream_readline_read_def interruptible_readline_def deliver_def Let_def)
qed

section \<open>Properties\<close>

text \<open>
  Whatever the stream, peeking again returns the same character and changes nothing, the pop
  that follows returns it and clears the buffer, and this is what popping right away would have
  returned, with the underlying stream left in the same state.
\<close>

lemma peek_then_pop:
  assumes "cstream_peek rd cs = Some (Inr c, cs')"
  shows "cstream_peek rd cs' = Some (Inr c, cs')
    \<and> (\<exists>cs''. cstream_pop rd (Some cs') = Some (Inr c, Some cs'') \<and> \<not> has_buffer cs''
        \<and> impl cs'' = impl cs')
    \<and> (\<exists>cs''. cstream_pop rd (Some cs) = Some (Inr c, Some cs'') \<and> \<not> has_buffer cs''
        \<and> impl cs'' = impl cs')"
  using assms
  by (auto simp: cstream_peek_def cstream_pop_def cstream_read_def split: if_splits option.splits sum.splits)

definition sample_file :: "cstream_file cstream" where
  "sample_file = cstream_file_create
     \<lparr>pending = ''ok'', broken = False, error_flag = False, close_fails = False, closed = False,
       failure = \<lparr>program = ''my_mips'', errno_text = ''Success''\<rparr>\<rparr> True"

lemma peek_then_pop_witness:
  "\<exists>cs'. cstream_peek cstream_file_read sample_file = Some (Inr 111, cs')
     \<and> cstream_peek cstream_file_read cs' = Some (Inr 111, cs')"
proof -
  obtain cs' where peek: "cstream_peek cstream_file_read sample_file = Some (Inr 111, cs')"
    by (simp add: cstream_peek_def cstream_read_def sample_file_def cstream_file_create_def
        cstream_file_read_def c_fgetc_def)
  with peek_then_pop [OF this] show ?thesis by blast
qed

text \<open>
  Popping a fresh file stream delivers exactly the bytes of the file, none of them equal to EOF,
  and then EOF; when reading fails after them, the next pop returns ERROR instead.
\<close>

lemma file_read_to_the_end:
  assumes "pending f = xs" "\<not> error_flag f"
  shows "\<exists>cs'. pop_n cstream_file_read (length xs) (cstream_file_create f b)
      = Some (map of_char xs, cs') \<and> EOF \<notin> set (map of_char xs)
    \<and> (\<exists>cs''. cstream_pop cstream_file_read (Some cs')
      = Some (if broken f then Inl ERROR else Inr EOF, Some cs''))"
proof -
  have "\<exists>cs'. pop_n cstream_file_read (length xs) (cstream_file_create f b) = Some (map of_char xs, cs')
      \<and> \<not> has_buffer cs' \<and> impl cs' = \<lparr>fclose_on_free = b, cfile = f\<lparr>pending := []\<rparr>, warned = []\<rparr>"
    using assms(1)
  proof (induction xs arbitrary: f)
    case Nil
    then show ?case by (simp add: cstream_file_create_def)
  next
    case (Cons x xs)
    have "cstream_pop cstream_file_read (Some (cstream_file_create f b))
        = Some (Inr (of_char x), Some (cstream_file_create (f\<lparr>pending := xs\<rparr>) b))"
      using Cons.prems char_not_EOF [of x]
      by (simp add: cstream_pop_def cstream_read_def cstream_file_create_def cstream_file_read_def
          c_fgetc_def Let_def)
    with Cons.IH [of "f\<lparr>pending := xs\<rparr>"] show ?case by auto
  qed
  then obtain cs' where cs': "pop_n cstream_file_read (length xs) (cstream_file_create f b) = Some (map of_char xs, cs')"
    "\<not> has_buffer cs'" "impl cs' = \<lparr>fclose_on_free = b, cfile = f\<lparr>pending := []\<rparr>, warned = []\<rparr>" by blast
  have "EOF \<notin> set (map of_char xs)" using char_not_EOF by fastforce
  with cs' assms(2) show ?thesis
    by (auto simp: cstream_pop_def cstream_read_def cstream_file_read_def c_fgetc_def Let_def file_warn_def
        error_warn_def)
qed

lemma file_read_to_the_end_witness:
  "\<exists>cs'. pop_n cstream_file_read 2 sample_file = Some ([111, 107], cs')
    \<and> (\<exists>cs''. cstream_pop cstream_file_read (Some cs') = Some (Inr EOF, Some cs''))"
  using file_read_to_the_end [of "\<lparr>pending = ''ok'', broken = False, error_flag = False,
      close_fails = False, closed = False, failure = \<lparr>program = ''my_mips'', errno_text = ''Success''\<rparr>\<rparr>" "''ok''" True]
  by (auto simp: sample_file_def numeral_2_eq_2)

text \<open>
  A fresh interactive stream delivers every typed line with its newline, character by
  character, and EOF for Ctrl-D, provided the buffer flag that \<open>malloc\<close> left uninitialised is
  clear; when it is set, the first character popped is the garbage in the buffer.
\<close>

lemma typed_lines_delivered:
  assumes "typed es = Some xs"
  shows "(\<exists>cs'. pop_n cstream_readline_read (length xs) (cstream_readline_create (False, j) es)
        = Some (map of_char xs, cs')
      \<and> (\<exists>cs''. cstream_pop cstream_readline_read (Some cs') = Some (Inr EOF, Some cs'')))
    \<and> (\<exists>cs'. cstream_pop cstream_readline_read (Some (cstream_readline_create (True, j) es))
        = Some (Inr j, Some cs'))"
proof -
  have "from_terminal.ready (xs @ []) (cstream_readline_create (False, j) es)"
    using assms by (simp add: from_terminal.ready_def cstream_readline_create_def readline_ok_def
        readline_rest_def)
  from from_terminal.pop_n_chars [OF this] from_terminal.pop_end show ?thesis
    by (fastforce simp: cstream_pop_def cstream_readline_create_def)
qed

lemma typed_lines_delivered_witness:
  "\<exists>cs'. pop_n cstream_readline_read 3
      (cstream_readline_create (False, 0) [Rl_key None, Rl_key (Some (Some ''hi'')), Rl_key (Some None)])
    = Some ([104, 105, 10], cs')"
  using typed_lines_delivered [of "[Rl_key None, Rl_key (Some (Some ''hi'')), Rl_key (Some None)]"
      "''hi'' @ [CHR 0x0A]" 0]
  by (auto simp: numeral_3_eq_3)

text \<open>The handler sets the flag; the loop keeps it while \<open>select\<close> only has to be repeated.\<close>

lemma waits_on:
  assumes "\<forall>e\<in>set pre. e \<in> {Rl_again, Rl_intr, Rl_key None}"
  shows "readline_loop (pre @ es) False = readline_loop es False"
  using assms by (induction pre) (auto simp: check_interrupt_def)

lemma keeps_flag:
  assumes "\<forall>e\<in>set mid. e \<in> {Rl_again, Rl_sigint}"
  shows "readline_loop (mid @ es) True = readline_loop es True"
  using assms by (induction mid) (auto simp: sigint_handler_def)

text \<open>
  C34: after Ctrl-C the next interrupted \<open>select\<close>, or the next key that completes no line, makes the
  read fail with KEYBOARD_INTERUPT, with \<open>^C\<close> on stderr and no line stored; a key that completes
  the line wins over the signal, and the line is delivered.
\<close>

theorem interrupt_abandons_line:
  assumes "current_line s = None"
    and "\<forall>e\<in>set pre. e \<in> {Rl_again, Rl_intr, Rl_key None}"
    and "\<forall>e\<in>set mid. e \<in> {Rl_again, Rl_sigint}"
    and "terminal s = pre @ Rl_sigint # mid @ e # post"
  shows "(e \<in> {Rl_intr, Rl_key None} \<longrightarrow> cstream_readline_read s =
      Some (Inl KEYBOARD_INTERUPT, s\<lparr>prompts := prompts s @ [prompt_get s], terminal := post,
        echo := echo s @ ''^C'' @ [CHR 0x0A]\<rparr>))
    \<and> (\<forall>c cs. e = Rl_key (Some (Some (c # cs))) \<longrightarrow>
      (\<exists>s'. cstream_readline_read s = Some (Inr (of_char c), s') \<and> current_line s' = Some (c # cs)
        \<and> echo s' = echo s))"
proof -
  have "readline_loop (terminal s) False = readline_loop (e # post) True"
    unfolding assms(4) waits_on [OF assms(2)]
    using keeps_flag [OF assms(3), of "e # post"] by (simp add: sigint_handler_def)
  with assms(1) show ?thesis
    by (auto simp: cstream_readline_read_def interruptible_readline_def check_interrupt_def
        deliver_def Let_def)
qed

lemma interrupt_abandons_line_witness:
  "\<exists>s. cstream_readline_read (impl (cstream_readline_create (False, 0)
      [Rl_key None, Rl_sigint, Rl_intr, Rl_key (Some None)])) = Some (Inl KEYBOARD_INTERUPT, s)
    \<and> terminal s = [Rl_key (Some None)]"
  using interrupt_abandons_line [of "impl (cstream_readline_create (False, 0)
      [Rl_key None, Rl_sigint, Rl_intr, Rl_key (Some None)])" "[Rl_key None]" "[]" Rl_intr
      "[Rl_key (Some None)]"]
  by (simp add: cstream_readline_create_def)

end
