(* ===== verification/Dbg.thy ===== *)
theory Dbg
  imports Jit Strto Vec Cstream
begin

text \<open>
  The debugger (src/dbg.c): its state, the commands, the parsing of a command line, and the session
  that reads lines from standard input or from the terminal until it is told to stop.
\<close>

section \<open>The state\<close>

text \<open>
  The emulator with \<open>glob->file_size\<close>, and the statics of dbg.c. \<open>breakpoints\<close> are the
  \<open>nbreakpoints\<close> first elements of the array, the only ones the code reads.
\<close>

abbreviation MAX_BREAKPOINTS :: nat where "MAX_BREAKPOINTS \<equiv> 128"

record 'w debugger =
  mach :: "'w machine"
  file_size :: nat
  breakpoints :: "u32 list"
  halted :: bool

definition say :: "string \<Rightarrow> 'w debugger \<Rightarrow> 'w debugger" where
  "say s d = d\<lparr>mach := put_stdout s (mach d)\<rparr>"

abbreviation newline :: string where "newline \<equiv> [CHR 0x0A]"

abbreviation hex :: "u32 \<Rightarrow> string" where "hex w \<equiv> ''0x'' @ fmt_08x (unat w)"

definition print_registers :: "'w debugger \<Rightarrow> 'w debugger" where
  "print_registers d =
     (let g = mach d in
      say (''pc = '' @ hex (pc g) @ ''   hi = '' @ hex (hi g) @ ''   lo = '' @ hex (lo g) @ newline
        @ concat (map (\<lambda>i. ''r'' @ fmt_m2d i @ '' = '' @ hex (reg g (of_nat i))
            @ (if i mod 4 = 3 then newline else ''   '')) [0..<32])) d)"

text \<open>One line of a listing: the address, the word there and its disassembly.\<close>

definition code_line :: "u32 \<Rightarrow> 'w debugger \<Rightarrow> string" where
  "code_line addr d =
     (let instr = word_at addr (mach d) in
      hex addr @ '': '' @ hex instr @ '': '' @ disassemble instr 64 @ newline)"

definition trace_instr :: "u32 \<Rightarrow> 'w debugger \<Rightarrow> 'w debugger" where
  "trace_instr addr d = say (''Executing pc = '' @ code_line addr d) d"

section \<open>Breakpoints\<close>

definition bp_contains :: "u32 \<Rightarrow> 'w debugger \<Rightarrow> bool" where
  "bp_contains addr d = list_ex (\<lambda>b. b = addr) (breakpoints d)"

definition bp_add :: "u32 \<Rightarrow> 'w debugger \<Rightarrow> 'w debugger" where
  "bp_add addr d =
     (if bp_contains addr d then d
      else if MAX_BREAKPOINTS \<le> length (breakpoints d) then say (''Too many breakpoints'' @ newline) d
      else say (''Breakpoint set at '' @ hex addr @ newline)
        (d\<lparr>breakpoints := breakpoints d @ [addr]\<rparr>))"

text \<open>The last one takes the place of the one deleted.\<close>

fun bp_index :: "u32 \<Rightarrow> u32 list \<Rightarrow> nat option" where
  "bp_index addr [] = None"
| "bp_index addr (b # bs) = (if b = addr then Some 0 else map_option Suc (bp_index addr bs))"

definition bp_delete :: "u32 \<Rightarrow> 'w debugger \<Rightarrow> 'w debugger" where
  "bp_delete addr d =
     (let bs = breakpoints d in
      case bp_index addr bs of
        Some i \<Rightarrow> say (''Breakpoint removed at '' @ hex addr @ newline)
          (d\<lparr>breakpoints := take (length bs - 1) (bs[i := bs ! (length bs - 1)])\<rparr>)
      | None \<Rightarrow> say (''No breakpoint at '' @ hex addr @ newline) d)"

definition bp_list :: "'w debugger \<Rightarrow> 'w debugger" where
  "bp_list d =
     (if length (breakpoints d) = 0 then say (''No breakpoints'' @ newline) d
      else say (concat (map (\<lambda>b. ''  '' @ hex b @ newline) (breakpoints d))) d)"

section \<open>Execution\<close>

definition do_step :: "'w host \<Rightarrow> 'w debugger \<Rightarrow> (int \<times> 'w debugger) result" where
  "do_step h d =
     (if halted d then Inr (0, say (''Program has finished.'' @ newline) d)
      else let d1 = trace_instr (pc (mach d)) d in
        rbind (step_instruction h (mach d1)) (\<lambda>(ret, g).
          let d2 = d1\<lparr>mach := g\<rparr> in
          Inr (ret,
            if ret = 1 then say (''Error during execution'' @ newline) d2\<lparr>halted := True\<rparr>
            else if ret = 2 then say (''Program exited.'' @ newline) d2\<lparr>halted := True\<rparr>
            else d2)))"

text \<open>The body of the loop of \<open>do_continue\<close>; status 2 is its \<open>return\<close>.\<close>

definition continue_round :: "'w host \<Rightarrow> 'w debugger \<Rightarrow> (int \<times> 'w debugger) result" where
  "continue_round h d =
     rbind (do_step h d) (\<lambda>(ret, d').
       if ret \<noteq> 0 then Inr (2, d')
       else if bp_contains (pc (mach d')) d'
       then Inr (2, say (''Breakpoint at '' @ hex (pc (mach d')) @ newline) d')
       else Inr (0, d'))"

definition do_continue :: "'w host \<Rightarrow> 'w debugger \<Rightarrow> 'w debugger result option" where
  "do_continue h d =
     (if halted d then Some (Inr (say (''Program has finished.'' @ newline) d))
      else map_option (\<lambda>r. rbind r (\<lambda>(_, d'). Inr d')) (loop (continue_round h) d))"

text \<open>The loop of the command \<open>step\<close>, \<open>n\<close> rounds from the end.\<close>

fun do_steps :: "'w host \<Rightarrow> nat \<Rightarrow> 'w debugger \<Rightarrow> 'w debugger result" where
  "do_steps h 0 d = Inr d"
| "do_steps h (Suc n) d =
     (if halted d then Inr d else rbind (do_step h d) (\<lambda>(_, d'). do_steps h n d'))"

section \<open>Listings\<close>

text \<open>The counter is a \<open>uint32_t\<close>: \<open>None\<close> when the loop never ends.\<close>

partial_function (option) print_code_loop :: "u32 \<Rightarrow> 'w debugger \<Rightarrow> 'w debugger option" where
  "print_code_loop addr d =
     (if unat addr < file_size d
      then print_code_loop (addr + 4) (say (code_line addr d) d)
      else Some d)"

definition print_code :: "'w debugger \<Rightarrow> 'w debugger option" where
  "print_code d = print_code_loop 0 d"

definition print_word :: "u32 \<Rightarrow> 'w debugger \<Rightarrow> 'w debugger" where
  "print_word addr d = say (code_line addr d) d"

definition dump_memory :: "u32 \<Rightarrow> nat \<Rightarrow> 'w debugger \<Rightarrow> 'w debugger" where
  "dump_memory addr count d =
     say (concat (map (\<lambda>i. let a = addr + of_nat (i * 4) in
       hex a @ '': '' @ hex (word_at a (mach d)) @ newline) [0..<count])) d"

definition help_debug :: "'w debugger \<Rightarrow> 'w debugger" where
  "help_debug d = say (concat (map (\<lambda>s. s @ newline)
     [''Commands:'',
      ''  step [n]        execute n instructions (default 1)'',
      ''  continue        run until a breakpoint or the end'',
      ''  break <addr>    set a breakpoint (hex address)'',
      ''  delete <addr>   remove a breakpoint'',
      ''  breakpoints     list breakpoints'',
      ''  registers       print the registers'',
      ''  print <addr>    disassemble the instruction at addr'',
      ''  memory <addr> [n]  dump n memory words (default 1)'',
      ''  code            disassemble the whole program'',
      ''  help            show this help'',
      ''  exit            quit the debugger''])) d"

section \<open>Commands\<close>

definition word_prefix :: "string \<Rightarrow> string \<Rightarrow> bool" where
  "word_prefix line a \<longleftrightarrow> take (length a) line = a
     \<and> (case drop (length a) line of [] \<Rightarrow> True | c # _ \<Rightarrow> c = CHR '' '')"

definition is_cmd :: "string \<Rightarrow> string \<Rightarrow> string option \<Rightarrow> bool" where
  "is_cmd line a b \<longleftrightarrow>
     (if word_prefix line a then True else case b of Some b \<Rightarrow> word_prefix line b | None \<Rightarrow> False)"

definition cmd_arg :: "string \<Rightarrow> string option" where
  "cmd_arg line =
     (let line = dropWhile (\<lambda>c. c \<noteq> CHR '' '') line;
          line = dropWhile (\<lambda>c. c = CHR '' '') line
      in if line = [] then None else Some line)"

definition parse_addr :: "string \<Rightarrow> 'w debugger \<Rightarrow> u32 option \<times> 'w debugger" where
  "parse_addr line d =
     (case cmd_arg line of
        None \<Rightarrow> (None, say (''Missing address'' @ newline) d)
      | Some a \<Rightarrow>
          let tok = take 31 (takeWhile (\<lambda>c. c \<noteq> CHR '' '') a); (out, status) = strtou32 tok 16 in
          if status \<noteq> 0 then (None, say (''Bad address'' @ newline) d) else (Some out, d))"

definition with_addr ::
  "string \<Rightarrow> (u32 \<Rightarrow> 'w debugger \<Rightarrow> 'w debugger) \<Rightarrow> 'w debugger \<Rightarrow> 'w debugger" where
  "with_addr line f d =
     (case parse_addr line d of (None, d') \<Rightarrow> d' | (Some addr, d') \<Rightarrow> f addr d')"

text \<open>The result is whether to quit, and the state.\<close>

definition run_command ::
  "'w host \<Rightarrow> string \<Rightarrow> 'w debugger \<Rightarrow> (bool \<times> 'w debugger) result option" where
  "run_command h line d =
     (let go = (\<lambda>d'. Some (Inr (False, d'))) in
      if is_cmd line ''step'' (Some ''s'')
      then let n = (case cmd_arg line of Some a \<Rightarrow> strtol 10 a | None \<Rightarrow> 1) in
        Some (rbind (do_steps h (nat n) d) (\<lambda>d'. Inr (False, d')))
      else if is_cmd line ''continue'' (Some ''c'')
      then map_option (\<lambda>r. rbind r (\<lambda>d'. Inr (False, d'))) (do_continue h d)
      else if is_cmd line ''break'' (Some ''b'') then go (with_addr line bp_add d)
      else if is_cmd line ''delete'' (Some ''d'') then go (with_addr line bp_delete d)
      else if is_cmd line ''breakpoints'' None then go (bp_list d)
      else if is_cmd line ''registers'' (Some ''regs'') then go (print_registers d)
      else if is_cmd line ''print'' (Some ''p'') then go (with_addr line print_word d)
      else if is_cmd line ''memory'' (Some ''m'')
      then go (with_addr line (\<lambda>addr d'.
        let sp = dropWhile (\<lambda>c. c \<noteq> CHR '' '') (the (cmd_arg line));
            count = (if sp = [] then 1 else strtoul 10 (tl sp))
        in dump_memory addr (if count \<noteq> 0 then count else 1) d') d)
      else if is_cmd line ''code'' None then map_option (\<lambda>d'. Inr (False, d')) (print_code d)
      else if is_cmd line ''help'' (Some ''h'') then go (help_debug d)
      else if is_cmd line ''exit'' (Some ''quit'') \<or> is_cmd line ''q'' None then Some (Inr (True, d))
      else go (say (''Unknown command: '' @ line @ '' (try '' @ [CHR 0x27] @ ''help'' @ [CHR 0x27]
        @ '')'' @ newline) d))"

section \<open>The session\<close>

text \<open>
  \<open>None\<close> when the stream waits forever. A character is pushed as a \<open>char\<close>, the low byte of the \<open>int\<close>.
\<close>

partial_function (option) read_line ::
  "'s reader \<Rightarrow> allocator \<Rightarrow> 's cstream \<Rightarrow> vec \<Rightarrow> (error option \<times> 's cstream \<times> vec) result option"
where
  "read_line input alloc cs line =
     (case cstream_pop input (Some cs) of
        None \<Rightarrow> None
      | Some (r, ptr) \<Rightarrow> (case r of
            Inl err \<Rightarrow> Some (Inr (Some err, the ptr, line))
          | Inr c \<Rightarrow>
              if c = EOF \<or> c = 10
              then Some (rbind (vec_push alloc line (CHR 0x00)) (\<lambda>line'. Inr (None, the ptr, line')))
              else (case vec_push alloc line (char_of c) of
                  Inl u \<Rightarrow> Some (Inl u)
                | Inr line' \<Rightarrow> read_line input alloc (the ptr) line')))"

text \<open>
  One round of the loop of \<open>debug\<close>: whether to leave it, and the state. The stream's reader works on
  the state of the stream and of the debugger, because a stream on standard input shares it with
  the emulated program.
\<close>

definition debug_round ::
  "'w host \<Rightarrow> allocator \<Rightarrow> ('s \<times> 'w debugger) reader \<Rightarrow> ('s \<times> 'w debugger) cstream
    \<Rightarrow> (bool \<times> ('s \<times> 'w debugger) cstream) result option"
where
  "debug_round h alloc input cs =
     (case read_line input alloc cs vec_init of
        None \<Rightarrow> None
      | Some (Inl u) \<Rightarrow> Some (Inl u)
      | Some (Inr (err, cs', line)) \<Rightarrow>
          if err \<noteq> None \<or> vec_size line \<le> 1 then Some (Inr (True, cs'))
          else map_option (\<lambda>r. rbind r (\<lambda>(quit, d). Inr (quit, cs'\<lparr>impl := (fst (impl cs'), d)\<rparr>)))
            (run_command h (takeWhile (\<lambda>c. c \<noteq> CHR 0x00) (vec_chars line)) (snd (impl cs'))))"

partial_function (option) debug_loop ::
  "'w host \<Rightarrow> allocator \<Rightarrow> ('s \<times> 'w debugger) reader \<Rightarrow> ('s \<times> 'w debugger) cstream
    \<Rightarrow> ('s \<times> 'w debugger) cstream result option"
where
  "debug_loop h alloc input cs =
     (case debug_round h alloc input cs of
        None \<Rightarrow> None
      | Some (Inl u) \<Rightarrow> Some (Inl u)
      | Some (Inr (quit, cs')) \<Rightarrow>
          if quit then Some (Inr cs') else debug_loop h alloc input cs')"

text \<open>The two streams, with the debugger beside them; \<open>stdin\<close> is the emulator's.\<close>

definition stdin_read :: "(cstream_file \<times> 'w debugger) reader" where
  "stdin_read p =
     (let (s, d) = p in
      map_option (\<lambda>(r, s'). (r, s', d\<lparr>mach := (mach d)\<lparr>stdin_chars := pending (cfile s')\<rparr>\<rparr>))
        (cstream_file_read (s\<lparr>cfile := (cfile s)\<lparr>pending := stdin_chars (mach d)\<rparr>\<rparr>)))"

definition terminal_read :: "(cstream_readline \<times> 'w debugger) reader" where
  "terminal_read p = map_option (\<lambda>(r, s). (r, s, snd p)) (cstream_readline_read (fst p))"

text \<open>The functions \<open>free\<close> of the two streams, on such a state.\<close>

definition beside :: "('s \<Rightarrow> (error + unit) \<times> 's) \<Rightarrow> 's \<times> 'd \<Rightarrow> (error + unit) \<times> 's \<times> 'd" where
  "beside fr p = (let (r, s) = fr (fst p) in (r, s, snd p))"

text \<open>\<open>with_debugger\<close> puts the debugger beside a stream that was just created.\<close>

definition with_debugger :: "'w debugger \<Rightarrow> 's cstream \<Rightarrow> ('s \<times> 'w debugger) cstream" where
  "with_debugger d cs = \<lparr>has_buffer = has_buffer cs, buffer = buffer cs, impl = (impl cs, d)\<rparr>"

text \<open>
  \<open>debug\<close>: \<open>terminal\<close> is what happens on the terminal when standard input is one, with what
  \<open>malloc\<close> leaves in the stream, and otherwise \<open>stdin_file\<close> is the state of the \<open>FILE\<close>. The stream is
  released at the end, whatever that returns.
\<close>

definition debug ::
  "'w host \<Rightarrow> allocator \<Rightarrow> ((bool \<times> int) \<times> rl_event list) + c_file \<Rightarrow> 'w debugger
    \<Rightarrow> 'w debugger result option"
where
  "debug h alloc stdin_kind d =
     (case stdin_kind of
        Inl (junk, events) \<Rightarrow>
          map_option (\<lambda>r. rbind r (\<lambda>cs.
              Inr (snd (impl (snd (cstream_free (beside (type_free cstream_readline_type)) cs))))))
            (debug_loop h alloc terminal_read (with_debugger d (cstream_readline_create junk events)))
      | Inr stdin_file \<Rightarrow>
          map_option (\<lambda>r. rbind r (\<lambda>cs.
              Inr (snd (impl (snd (cstream_free (beside (type_free cstream_file_type)) cs))))))
            (debug_loop h alloc stdin_read (with_debugger d (cstream_file_create stdin_file False))))"

lemma freed_debugger [simp]: "snd (impl (snd (cstream_free (beside fr) cs))) = snd (impl cs)"
  by (simp add: cstream_free_def beside_def Let_def case_prod_beta)

end
