(* ===== verification/Output.thy ===== *)
theory Output
  imports Cpu
begin

text \<open>
  The emulated program cannot observe what was printed before: running an instruction after some
  text was put on stdout gives what it gives without, with the text in front. This is what makes
  the traces of the debugger harmless (theory \<open>Dbg_Run\<close>).
\<close>

section \<open>Printing first\<close>

definition printed :: "string \<Rightarrow> 'w machine \<Rightarrow> 'w machine" where
  "printed p g = g\<lparr>stdout_chars := p @ stdout_chars g\<rparr>"

lemma printed_simps [simp]:
  "reg (printed p g) = reg g" "hi (printed p g) = hi g" "lo (printed p g) = lo g"
  "fpr (printed p g) = fpr g" "fp_cond (printed p g) = fp_cond g"
  "memory (printed p g) = memory g" "pc (printed p g) = pc g" "log_on (printed p g) = log_on g"
  "branch_pending (printed p g) = branch_pending g"
  "branch_target (printed p g) = branch_target g"
  "gpu_ready (printed p g) = gpu_ready g" "last_key (printed p g) = last_key g"
  "stdin_chars (printed p g) = stdin_chars g" "stderr_chars (printed p g) = stderr_chars g"
  "world (printed p g) = world g" "stdout_chars (printed p g) = p @ stdout_chars g"
  "printed [] g = g" "printed p (printed q g) = printed (p @ q) g"
  by (simp_all add: printed_def)

text \<open>The updates of the state pass it by.\<close>

lemma printed_updates [simp]:
  "set_reg n v (printed p g) = printed p (set_reg n v g)"
  "set_fpr n v (printed p g) = printed p (set_fpr n v g)"
  "put_stdout s (printed p g) = printed p (put_stdout s g)"
  "put_stderr s (printed p g) = printed p (put_stderr s g)"
  "poke a b (printed p g) = printed p (poke a b g)"
  "schedule_branch t (printed p g) = printed p (schedule_branch t g)"
  "pc_step k (printed p g) = printed p (pc_step k g)"
  "(printed p g)\<lparr>hi := w\<rparr> = printed p (g\<lparr>hi := w\<rparr>)"
  "(printed p g)\<lparr>lo := w\<rparr> = printed p (g\<lparr>lo := w\<rparr>)"
  "(printed p g)\<lparr>fp_cond := c\<rparr> = printed p (g\<lparr>fp_cond := c\<rparr>)"
  "(printed p g)\<lparr>pc := w\<rparr> = printed p (g\<lparr>pc := w\<rparr>)"
  "(printed p g)\<lparr>world := x\<rparr> = printed p (g\<lparr>world := x\<rparr>)"
  "(printed p g)\<lparr>last_key := w\<rparr> = printed p (g\<lparr>last_key := w\<rparr>)"
  "(printed p g)\<lparr>gpu_ready := b'\<rparr> = printed p (g\<lparr>gpu_ready := b'\<rparr>)"
  "(printed p g)\<lparr>stdin_chars := s\<rparr> = printed p (g\<lparr>stdin_chars := s\<rparr>)"
  "(printed p g)\<lparr>branch_pending := b'\<rparr> = printed p (g\<lparr>branch_pending := b'\<rparr>)"
  by (simp_all add: printed_def set_reg_def set_fpr_def put_stdout_def put_stderr_def poke_def
      schedule_branch_def pc_step_def)

lemma put_stdout_printed: "put_stdout s g = printed (stdout_chars g @ s) (g\<lparr>stdout_chars := []\<rparr>)"
  by (simp add: put_stdout_def printed_def)

text \<open>On results: \<open>carry p\<close> for a state, \<open>carry_status p\<close> for a status and a state.\<close>

definition carry :: "string \<Rightarrow> 'w machine result \<Rightarrow> 'w machine result" where
  "carry p r = rbind r (\<lambda>g. Inr (printed p g))"

definition carry_status :: "string \<Rightarrow> (int \<times> 'w machine) result \<Rightarrow> (int \<times> 'w machine) result" where
  "carry_status p r = rbind r (\<lambda>(ret, g). Inr (ret, printed p g))"

lemma carry_simps [simp]:
  "carry p (Inl u) = Inl u" "carry p (Inr g) = Inr (printed p g)"
  "carry_status p (Inl u) = Inl u" "carry_status p (Inr x) = Inr (fst x, printed p (snd x))"
  by (simp_all add: carry_def carry_status_def case_prod_beta)

lemma carry_rbind: "rbind r (\<lambda>x. carry p (f x)) = carry p (rbind r f)"
  "rbind (carry p r') (\<lambda>g. Inr (ret, g)) = carry_status p (rbind r' (\<lambda>g. Inr (ret, g)))"
  by (cases r; cases r'; simp)+

lemma carry_if:
  "(if c then carry p a else carry p b) = carry p (if c then a else b)"
  "(if c then carry_status p a' else carry_status p b') = carry_status p (if c then a' else b')"
  "(if c then printed p x else printed p y) = printed p (if c then x else y)"
  by simp_all

lemma finish_carry:
  assumes "list_all2 (\<lambda>c c'. fst c = fst c' \<and> snd c = map_option (carry p) (snd c')) cs cs'"
  shows "finish (printed p g) (switch k cs None) = carry_status p (finish g (switch k cs' None))"
    "finish_r0 (printed p g) (switch k cs None) = carry_status p (finish_r0 g (switch k cs' None))"
proof -
  have "switch k cs None = map_option (carry p) (switch k cs' None)"
    by (rule switch_rel [OF assms]) simp
  then show "finish (printed p g) (switch k cs None) = carry_status p (finish g (switch k cs' None))"
    "finish_r0 (printed p g) (switch k cs None) = carry_status p (finish_r0 g (switch k cs' None))"
    by (auto simp: finish_def finish_r0_def carry_def carry_status_def split: option.splits sum.splits)
      (auto simp: rbind_def split: sum.splits)
qed

section \<open>The device and the memory accesses\<close>

lemma device_printed [simp]:
  "gpu_init h (printed p g) = map_prod id (printed p) (gpu_init h g)"
  "pump_events h (printed p g) = printed p (pump_events h g)"
  "framebuffer (printed p g) = framebuffer g"
  by (simp_all add: gpu_init_def pump_events_def framebuffer_def Let_def case_prod_beta)

lemma gpu_flush_printed [simp]: "gpu_flush h (printed p g) = printed p (gpu_flush h g)"
  by (simp add: gpu_flush_def Let_def case_prod_beta)

lemma device_word_printed [simp]:
  "device_store_word h a v (printed p g) = map_prod id (printed p) (device_store_word h a v g)"
  "device_load_word h a (printed p g) = map_prod id (printed p) (device_load_word h a g)"
  by (simp_all add: device_store_word_def device_load_word_def)

lemma memory_printed [simp]:
  "load_byte a (printed p g) = load_byte a g" "load_half a (printed p g) = load_half a g"
  "load_word h a (printed p g) = map_prod id (printed p) (load_word h a g)"
  "store_byte a v (printed p g) = printed p (store_byte a v g)"
  "store_half a v (printed p g) = printed p (store_half a v g)"
  "store_word h a v (printed p g) = printed p (store_word h a v g)"
  by (simp_all add: load_byte_def load_half_def load_word_def store_byte_def store_half_def
      store_word_def case_prod_beta split: option.split bool.split)

section \<open>The instruction groups\<close>

lemma helpers_printed [simp]:
  "mem_addr i (printed p g) = mem_addr i g" "branch_dest i (printed p g) = branch_dest i g"
  "branch_is_pending (printed p g) = branch_is_pending g"
  "sreg (printed p g) n = sreg g n" "acc_u64 (printed p g) = acc_u64 g"
  "acc_s64 (printed p g) = acc_s64 g" "fetch (printed p g) = fetch g"
  "getf n (printed p g) = getf n g" "getw n (printed p g) = getw n g" "getd n (printed p g) = getd n g"
  by (simp_all add: mem_addr_def branch_dest_def branch_is_pending_def sreg_def acc_u64_def
      acc_s64_def fetch_def getf_def getw_def getd_def)

lemma arith_printed [simp]:
  "add_instr i (printed p g) = printed p (add_instr i g)"
  "sub_instr i (printed p g) = printed p (sub_instr i g)"
  "addi_instr i (printed p g) = printed p (addi_instr i g)"
  "mult_instr i (printed p g) = printed p (mult_instr i g)"
  "multu_instr i (printed p g) = printed p (multu_instr i g)"
  "divu_instr i (printed p g) = printed p (divu_instr i g)"
  "div_instr i (printed p g) = carry p (div_instr i g)"
  "set_hilo acc (printed p g) = printed p (set_hilo acc g)"
  "accumulate x (printed p g) = carry p (accumulate x g)"
  "setf n f (printed p g) = printed p (setf n f g)"
  "setw n w (printed p g) = printed p (setw n w g)"
  "setd n d (printed p g) = carry p (setd n d g)"
  "set_cond c (printed p g) = printed p (set_cond c g)"
  "exec_regimm i (printed p g) = printed p (exec_regimm i g)"
  "exec_lwl h i (printed p g) = printed p (exec_lwl h i g)"
  "exec_lwr h i (printed p g) = printed p (exec_lwr h i g)"
  "exec_swl h i (printed p g) = printed p (exec_swl h i g)"
  "exec_swr h i (printed p g) = printed p (exec_swr h i g)"
  by (simp_all add: add_instr_def sub_instr_def addi_instr_def mult_instr_def multu_instr_def
      divu_instr_def div_instr_def set_hilo_def accumulate_def setf_def setw_def setd_def set_cond_def
      exec_regimm_def exec_lwl_def exec_lwr_def exec_swl_def exec_swr_def Let_def case_prod_beta)

lemma groups_printed [simp]:
  "exec_register h i (printed p g) = carry_status p (exec_register h i g)"
  "exec_immediate h i (printed p g) = carry_status p (exec_immediate h i g)"
  "exec_jump h i (printed p g) = carry_status p (exec_jump h i g)"
  "exec_special2 h i (printed p g) = carry_status p (exec_special2 h i g)"
proof -
  show "exec_register h i (printed p g) = carry_status p (exec_register h i g)"
    unfolding exec_register_def Let_def by (rule finish_carry) (simp add: carry_if)
  show "exec_immediate h i (printed p g) = carry_status p (exec_immediate h i g)"
    unfolding exec_immediate_def Let_def by (rule finish_carry) (simp add: case_prod_beta)
  show "exec_jump h i (printed p g) = carry_status p (exec_jump h i g)"
    unfolding exec_jump_def Let_def by (simp only: printed_simps, rule finish_carry) simp
  show "exec_special2 h i (printed p g) = carry_status p (exec_special2 h i g)"
    unfolding exec_special2_def Let_def by (rule finish_carry) simp
qed

lemma rbind_carry: "(\<And>x. f x = carry p (g x)) \<Longrightarrow> rbind r f = carry p (rbind r g)"
  by (cases r) simp_all

lemma fp_printed [simp]:
  "fp_single h i (printed p g) = carry_status p (fp_single h i g)"
  "fp_double h i (printed p g) = carry_status p (fp_double h i g)"
  "fp_word h i (printed p g) = carry_status p (fp_word h i g)"
proof -
  have push: "rbind r (\<lambda>x. carry p (f x)) = carry p (rbind r f)"
    "rbind r (\<lambda>x. Inr (printed p (k x))) = carry p (rbind r (\<lambda>x. Inr (k x)))" for r :: "'b result" and f k
    by (cases r; simp)+
  show "fp_single h i (printed p g) = carry_status p (fp_single h i g)"
    unfolding fp_single_def Let_def by (rule finish_carry) (simp add: push)
  show "fp_double h i (printed p g) = carry_status p (fp_double h i g)"
    unfolding fp_double_def Let_def by (rule finish_carry) (simp add: push)
  show "fp_word h i (printed p g) = carry_status p (fp_word h i g)"
    unfolding fp_word_def Let_def helpers_printed by (rule finish_carry) simp
qed

lemma cop1_printed [simp]:
  "exec_cop1 h i (printed p g) = carry_status p (exec_cop1 h i g)"
  "exec_cop1_ldst h i (printed p g) = carry_status p (exec_cop1_ldst h i g)"
proof -
  show "exec_cop1 h i (printed p g) = carry_status p (exec_cop1 h i g)"
    unfolding exec_cop1_def
    by (rule switch_rel [where R = "\<lambda>x y. x = carry_status p y"]) (simp_all add: Let_def)
  show "exec_cop1_ldst h i (printed p g) = carry_status p (exec_cop1_ldst h i g)"
    unfolding exec_cop1_ldst_def Let_def printed_simps
    by (rule finish_carry) (simp add: case_prod_beta)
qed

section \<open>System calls\<close>

lemma poke_list_printed [simp]: "poke_list k bs (printed p g) = printed p (poke_list k bs g)"
  by (induction bs arbitrary: k g) simp_all

lemma bytes_printed [simp]:
  "read_bytes k n (printed p g) = read_bytes k n g"
  "write_bytes k bs (printed p g) = carry p (write_bytes k bs g)"
  by (simp_all add: read_bytes_def write_bytes_def)

lemma calls_printed [simp]:
  "print_int (printed p g) = printed p (print_int g)"
  "print_char (printed p g) = printed p (print_char g)"
  "read_char (printed p g) = printed p (read_char g)"
  "close_call h (printed p g) = printed p (close_call h g)"
  "print_string (printed p g) = carry p (print_string g)"
  "read_int (printed p g) = carry p (read_int g)"
  "read_string h (printed p g) = carry p (read_string h g)"
  "open_call h (printed p g) = carry p (open_call h g)"
  by (simp_all add: print_int_def print_char_def read_char_def close_call_def print_string_def
      read_int_def read_string_def open_call_def Let_def case_prod_beta
      split: option.split list.split)

lemma rw_printed [simp]:
  "read_call h (printed p g) = carry p (read_call h g)"
  "write_call h (printed p g) = carry p (write_call h g)"
proof -
  have *: "rbind (carry p r) (\<lambda>g. Inr (set_reg V0 v g)) = carry p (rbind r (\<lambda>g. Inr (set_reg V0 v g)))"
    for r :: "'a machine result" and v
    by (cases r) simp_all
  show "read_call h (printed p g) = carry p (read_call h g)"
    by (simp add: read_call_def case_prod_beta *)
  show "write_call h (printed p g) = carry p (write_call h g)"
    unfolding write_call_def printed_simps bytes_printed
    by (rule rbind_carry) (simp add: Let_def case_prod_beta)
qed

lemma call_syscall_printed [simp]:
  "call_syscall h (printed p g) = carry_status p (call_syscall h g)"
proof -
  have log: "logger f l m (printed p g) = printed p (logger f l m g)" for f l m
    by (simp add: logger_def)
  show ?thesis
    unfolding call_syscall_def Let_def printed_simps
    by (rule switch_rel [where R = "\<lambda>x y. x = carry_status p y"]) (simp_all add: carry_rbind log)
qed

section \<open>One step\<close>

lemma exec_inst_printed: "exec_inst h i (printed p g) = carry_status p (exec_inst h i g)"
proof -
  have dec: "exec_decoded h i (printed p g) = carry_status p (exec_decoded h i g)" for g
  proof -
    have "rbind (carry_status p r) (\<lambda>(ret, g). Inr (if ret \<noteq> 0 then 2 else 0, g))
        = carry_status p (rbind r (\<lambda>(ret, g). Inr (if ret \<noteq> 0 then 2 else 0, g)))"
      for r :: "(int \<times> 'a machine) result"
      by (cases r) (simp_all add: case_prod_beta)
    moreover have "switch (op i) cs (exec_immediate h i (printed p g))
        = carry_status p (switch (op i) cs' (exec_immediate h i g))"
      if "list_all2 (\<lambda>c c'. fst c = fst c' \<and> snd c = carry_status p (snd c')) cs cs'" for cs cs'
      by (rule switch_rel [OF that]) simp
    ultimately show ?thesis unfolding exec_decoded_def by simp
  qed
  have log: "log_instr i f l (printed p g) = printed p (log_instr i f l g)" for f l
    by (simp add: log_instr_def)
  show ?thesis unfolding exec_inst_def by (simp add: log dec)
qed

lemma step_printed: "step_instruction h (printed p g) = carry_status p (step_instruction h g)"
proof -
  have *: "rbind (carry_status p r) f = carry_status p (rbind r f)"
    if "\<And>x. f (fst x, printed p (snd x)) = carry_status p (f x)"
    for r :: "(int \<times> 'a machine) result" and f
    using that by (cases r) simp_all
  show ?thesis
    unfolding step_instruction_def Let_def printed_simps helpers_printed printed_updates exec_inst_printed
    by (rule *) (simp add: case_prod_beta)
qed

lemma steps_printed:
  "steps (step_instruction h) n (printed p g) = map_option (printed p) (steps (step_instruction h) n g)"
  by (induction n arbitrary: g) (auto simp: step_printed split: sum.splits)

end
