(* ===== verification/Dbg_Run.thy ===== *)
theory Dbg_Run
  imports Dbg Output
begin

text \<open>
  Execution under the debugger: stepping and continuing run the emulated program as the interpreter
  does, up to what the debugger itself prints, and stop where they should.
\<close>

section \<open>Up to the text on stdout\<close>

definition silent :: "'w machine \<Rightarrow> 'w machine" where
  "silent g = g\<lparr>stdout_chars := []\<rparr>"

lemma silent_simps [simp]:
  "silent (put_stdout s g) = silent g" "silent (printed p g) = silent g" "pc (silent g) = pc g"
  "printed (stdout_chars g) (silent g) = g"
  by (simp_all add: silent_def put_stdout_def printed_def)

lemma silent_pc: "silent g = silent g' \<Longrightarrow> pc g = pc g'"
  by (metis silent_simps(3))

definition same_end :: "(int \<times> 'w machine) result \<Rightarrow> (int \<times> 'w machine) result \<Rightarrow> bool" where
  "same_end = rel_sum (=) (\<lambda>(ret, g) (ret', g'). ret = ret' \<and> silent g = silent g')"

lemma step_silent:
  assumes "silent g = silent g'"
  shows "same_end (step_instruction h g) (step_instruction h g')"
proof -
  have split: "step_instruction h x = carry_status (stdout_chars x) (step_instruction h (silent x))" for x
    using step_printed [of h "stdout_chars x" "silent x"] by simp
  have eqs: "step_instruction h g = carry_status (stdout_chars g) (step_instruction h (silent g))"
    "step_instruction h g' = carry_status (stdout_chars g') (step_instruction h (silent g))"
    using split [of g] split [of g'] unfolding assms [symmetric] .
  show ?thesis
    unfolding eqs by (cases "step_instruction h (silent g)") (auto simp: same_end_def)
qed

lemma say_simps [simp]:
  "silent (mach (say s d)) = silent (mach d)" "pc (mach (say s d)) = pc (mach d)"
  "breakpoints (say s d) = breakpoints d" "halted (say s d) = halted d"
  "file_size (say s d) = file_size d" "memory (mach (say s d)) = memory (mach d)"
  "stdin_chars (mach (say s d)) = stdin_chars (mach d)"
  "stdout_chars (mach (say s d)) = stdout_chars (mach d) @ s"
  by (simp_all add: say_def)

section \<open>One step\<close>

text \<open>A step under the debugger beside a step of the interpreter.\<close>

definition step_beside :: "'w debugger \<Rightarrow> int \<times> 'w debugger \<Rightarrow> int \<times> 'w machine \<Rightarrow> bool" where
  "step_beside d p q \<longleftrightarrow> fst p = fst q \<and> silent (mach (snd p)) = silent (snd q)
     \<and> breakpoints (snd p) = breakpoints d \<and> file_size (snd p) = file_size d
     \<and> (halted (snd p) \<longleftrightarrow> fst q \<noteq> 0)"

lemma do_step_beside:
  assumes "\<not> halted d" "silent (mach d) = silent g"
  shows "rel_sum (=) (step_beside d) (do_step h d) (step_instruction h g)"
proof -
  define d1 where "d1 = trace_instr (pc (mach d)) d"
  have d1: "silent (mach d1) = silent g" "breakpoints d1 = breakpoints d" "file_size d1 = file_size d"
    "\<not> halted d1"
    using assms by (simp_all add: d1_def trace_instr_def)
  have step: "do_step h d = rbind (step_instruction h (mach d1)) (\<lambda>(ret, g). Inr (ret,
      if ret = 1 then say (''Error during execution'' @ newline) (d1\<lparr>mach := g\<rparr>)\<lparr>halted := True\<rparr>
      else if ret = 2 then say (''Program exited.'' @ newline) (d1\<lparr>mach := g\<rparr>)\<lparr>halted := True\<rparr>
      else d1\<lparr>mach := g\<rparr>))"
    unfolding do_step_def d1_def Let_def using assms(1) by simp
  show ?thesis
  proof (cases "step_instruction h (mach d1)")
    case (Inl u)
    with step_silent [OF d1(1), of h] step show ?thesis
      by (auto simp: same_end_def elim: rel_sum.cases)
  next
    case (Inr p)
    then obtain ret g1 where p: "step_instruction h (mach d1) = Inr (ret, g1)" by (cases p) simp
    then have "ret \<in> {0, 1, 2}" using step_contract(1) by blast
    moreover obtain g2 where "step_instruction h g = Inr (ret, g2)" "silent g1 = silent g2"
      using step_silent [OF d1(1), of h] p by (auto simp: same_end_def elim: rel_sum.cases)
    ultimately show ?thesis
      using step p d1 by (auto simp: step_beside_def say_def)
  qed
qed

lemma do_step_status: "do_step h d = Inr (ret, d') \<Longrightarrow> ret \<in> {0, 1, 2}"
  by (auto simp: do_step_def Let_def rbind_Inr_iff dest: step_contract(1) split: if_splits)

section \<open>Continuing\<close>

text \<open>A step of the interpreter that stops at the addresses of \<open>stops_at\<close> as well.\<close>

definition step_to :: "'w host \<Rightarrow> u32 set \<Rightarrow> 'w machine \<Rightarrow> (int \<times> 'w machine) result" where
  "step_to h stops_at g =
     rbind (step_instruction h g) (\<lambda>(ret, g').
       Inr (if ret = 0 \<and> pc g' \<in> stops_at then 2 else ret, g'))"

lemma bp_contains_set: "bp_contains a d \<longleftrightarrow> a \<in> set (breakpoints d)"
  by (auto simp: bp_contains_def list_ex_iff)

lemma step_to_status: "step_to h B g = Inr (ret, g') \<Longrightarrow> ret \<in> {0, 1, 2}"
  by (auto simp: step_to_def rbind_Inr_iff dest: step_contract(1) split: if_splits)

lemma continue_round_status: "continue_round h d = Inr (ret, d') \<Longrightarrow> ret \<in> {0, 1, 2}"
  by (auto simp: continue_round_def rbind_Inr_iff split: if_splits)

definition running :: "u32 list \<Rightarrow> 'w debugger \<Rightarrow> 'w machine \<Rightarrow> bool" where
  "running bs d g \<longleftrightarrow> \<not> halted d \<and> breakpoints d = bs \<and> silent (mach d) = silent g"

definition stopped :: "u32 list \<Rightarrow> 'w debugger \<Rightarrow> 'w machine \<Rightarrow> bool" where
  "stopped bs d g \<longleftrightarrow> breakpoints d = bs \<and> silent (mach d) = silent g"

interpretation continue: simulation "continue_round h" "step_to h (set bs)" "running bs" "stopped bs"
  for h :: "'w host" and bs
proof unfold_locales
  fix d and g :: "'w machine" assume run: "running bs d g"
  then have "rel_sum (=) (step_beside d) (do_step h d) (step_instruction h g)"
    by (intro do_step_beside) (auto simp: running_def)
  then show "rel_sum (=) (\<lambda>(ret, s') (ret', t'). (ret = 0) = (ret' = 0) \<and>
      (if ret = 0 then running bs s' t' else stopped bs s' t')) (continue_round h d) (step_to h (set bs) g)"
    using run
    by (cases "do_step h d"; cases "step_instruction h g")
      (auto simp: continue_round_def step_to_def running_def stopped_def step_beside_def bp_contains_set
        silent_pc [of "mach _"] split: if_splits)
qed (blast dest: continue_round_status step_to_status)+


lemma continue_loops:
  assumes "\<not> halted d"
  shows "rel_option (rel_sum (=) (\<lambda>d' p. breakpoints d' = breakpoints d \<and> silent (mach d') = silent (snd p)))
    (do_continue h d) (loop (step_to h (set (breakpoints d))) (mach d))"
proof -
  have "running (breakpoints d) d (mach d)" using assms by (simp add: running_def)
  from continue.loop_sim [OF this, of h] show ?thesis
    using assms unfolding do_continue_def
    by (cases "loop (continue_round h) d"; cases "loop (step_to h (set (breakpoints d))) (mach d)")
      (auto simp: stopped_def elim!: rel_sum.cases)
qed

lemma step_to_steps:
  "steps (step_to h B) n g = Some g' \<longleftrightarrow> steps (step_instruction h) n g = Some g'
     \<and> (\<forall>k x. 0 < k \<and> k \<le> n \<and> steps (step_instruction h) k g = Some x \<longrightarrow> pc x \<notin> B)"
proof (induction n arbitrary: g')
  case (Suc n)
  show ?case
  proof
    assume "steps (step_to h B) (Suc n) g = Some g'"
    then obtain g1 where "steps (step_to h B) n g = Some g1" "step_to h B g1 = Inr (0, g')"
      unfolding steps_Suc_last by blast
    then have *: "steps (step_instruction h) (Suc n) g = Some g'" "pc g' \<notin> B"
      "\<forall>k x. 0 < k \<and> k \<le> n \<and> steps (step_instruction h) k g = Some x \<longrightarrow> pc x \<notin> B"
      unfolding steps_Suc_last Suc.IH by (auto simp: step_to_def rbind_Inr_iff split: if_splits)
    then show "steps (step_instruction h) (Suc n) g = Some g'
      \<and> (\<forall>k x. 0 < k \<and> k \<le> Suc n \<and> steps (step_instruction h) k g = Some x \<longrightarrow> pc x \<notin> B)"
      by (metis le_Suc_eq option.inject)
  next
    assume R: "steps (step_instruction h) (Suc n) g = Some g'
      \<and> (\<forall>k x. 0 < k \<and> k \<le> Suc n \<and> steps (step_instruction h) k g = Some x \<longrightarrow> pc x \<notin> B)"
    then obtain g1 where g1: "steps (step_instruction h) n g = Some g1" "step_instruction h g1 = Inr (0, g')"
      unfolding steps_Suc_last by blast
    from R have "steps (step_to h B) n g = Some g1" 
      unfolding Suc.IH using R g1(1) by (metis le_SucI)
    moreover have "pc g' \<notin> B" using R by blast
    with g1(2) have "step_to h B g1 = Inr (0, g')" by (simp add: step_to_def)
    ultimately show "steps (step_to h B) (Suc n) g = Some g'" unfolding steps_Suc_last by blast
  qed
qed simp

lemma step_to_stops:
  assumes "stops (step_to h B g) = Some (Inr (r, g'))"
  shows "\<exists>ret. step_instruction h g = Inr (ret, g') \<and> (ret \<noteq> 0 \<or> pc g' \<in> B)"
  using assms
  by (cases "step_instruction h g") (auto simp: stops_def step_to_def case_prod_beta split: if_splits)

text \<open>For closed examples: memory full of zeros is a program of \<open>nop\<close>.\<close>

lemma zero_machine_runs:
  "steps (step_instruction quiet_host) n zero_machine = Some (zero_machine\<lparr>pc := 4 * of_nat n\<rparr>)"
proof (induction n)
  case 0
  show ?case by (simp add: zero_machine_def)
next
  case (Suc n)
  have "step_instruction quiet_host (zero_machine\<lparr>pc := 4 * of_nat n\<rparr>)
      = Inr (0, zero_machine\<lparr>pc := 4 * of_nat (Suc n)\<rparr>)"
    by (simp add: step_instruction_def exec_inst_def exec_decoded_def fetch_def le_word_def
        zero_machine_def pc_step_def)
  with Suc show ?case unfolding steps_Suc_last by blast
qed

section \<open>Properties\<close>

lemma continue_executes:
  assumes "\<not> halted d" "breakpoints d = []"
  shows "rel_option (rel_sum (=) (\<lambda>d' (status, g). silent (mach d') = silent g \<and> breakpoints d' = []))
    (do_continue h d) (execute h (mach d))"
proof -
  have step: "step_to h {} = step_instruction h"
  proof
    fix g :: "'a machine"
    show "step_to h {} g = step_instruction h g"
      by (cases "step_instruction h g") (simp_all add: step_to_def case_prod_beta)
  qed
  have "rel_option (rel_sum (=) (\<lambda>d' p. breakpoints d' = [] \<and> silent (mach d') = silent (snd p)))
    (do_continue h d) (execute h (mach d))"
    using continue_loops [OF assms(1), of h] assms(2) by (simp add: step execute_def)
  then show ?thesis
    by (auto elim!: option.rel_mono_strong sum.rel_mono_strong)
qed

text \<open>
  C7: without breakpoints, \<open>continue\<close> runs the program to exactly the end \<open>execute\<close> gives it, in the
  same state but for the traces on stdout; it meets undefined behaviour exactly when \<open>execute\<close> does
  and does not return exactly when \<open>execute\<close> does not.
\<close>

theorem continue_agrees_with_execute:
  assumes "\<not> halted d" "breakpoints d = []"
  shows "rel_option (rel_sum (=) (\<lambda>d' (status, g). silent (mach d') = silent g \<and> breakpoints d' = []))
    (do_continue h d) (execute h (mach d))"
  by (rule continue_executes [OF assms])

lemma continue_agrees_with_execute_witness:
  "rel_option (rel_sum (=) (\<lambda>d' (status, g). silent (mach d') = silent g \<and> breakpoints d' = []))
    (do_continue quiet_host \<lparr>mach = zero_machine, file_size = 0, breakpoints = [], halted = False\<rparr>)
    (execute quiet_host zero_machine)"
  using continue_agrees_with_execute [of "\<lparr>mach = zero_machine, file_size = 0, breakpoints = [],
      halted = False\<rparr>" quiet_host]
  by simp

text \<open>
  C10: \<open>continue\<close> makes at least one step and stops after the first one that ends the program or
  reaches a breakpoint, and nowhere else, in the state the interpreter has there; it does not
  return exactly when the program runs on forever without reaching one.
\<close>

theorem continue_stops_at_breakpoint:
  assumes "\<not> halted d"
  shows "(\<forall>d'. do_continue h d = Some (Inr d') \<longrightarrow>
      (\<exists>n g ret g'. steps (step_instruction h) n (mach d) = Some g \<and> step_instruction h g = Inr (ret, g')
        \<and> (ret \<noteq> 0 \<or> pc g' \<in> set (breakpoints d)) \<and> silent (mach d') = silent g'
        \<and> (\<forall>k x. 0 < k \<and> k \<le> n \<and> steps (step_instruction h) k (mach d) = Some x
             \<longrightarrow> pc x \<notin> set (breakpoints d))))
    \<and> (do_continue h d = None \<longleftrightarrow>
      (\<forall>n. \<exists>g. steps (step_instruction h) n (mach d) = Some g \<and> (0 < n \<longrightarrow> pc g \<notin> set (breakpoints d))))"
proof -
  let ?B = "set (breakpoints d)"
  note loops = continue_loops [OF assms, of h]
  have "\<exists>n g ret g'. steps (step_instruction h) n (mach d) = Some g \<and> step_instruction h g = Inr (ret, g')
        \<and> (ret \<noteq> 0 \<or> pc g' \<in> ?B) \<and> silent (mach d') = silent g'
        \<and> (\<forall>k x. 0 < k \<and> k \<le> n \<and> steps (step_instruction h) k (mach d) = Some x \<longrightarrow> pc x \<notin> ?B)"
    if "do_continue h d = Some (Inr d')" for d'
  proof -
    from that loops obtain ret0 g' where ends: "loop (step_to h ?B) (mach d) = Some (Inr (ret0, g'))"
      "silent (mach d') = silent g'"
      by (auto simp: option_rel_Some1 elim!: rel_sum.cases)
    then obtain n g where "steps (step_to h ?B) n (mach d) = Some g"
      "stops (step_to h ?B g) = Some (Inr (ret0, g'))"
      unfolding continue.right.loop_iff by blast
    then have run: "steps (step_instruction h) n (mach d) = Some g"
      "\<forall>k x. 0 < k \<and> k \<le> n \<and> steps (step_instruction h) k (mach d) = Some x \<longrightarrow> pc x \<notin> ?B"
      and "\<exists>ret. step_instruction h g = Inr (ret, g') \<and> (ret \<noteq> 0 \<or> pc g' \<in> ?B)"
      unfolding step_to_steps by (blast dest: step_to_stops)+
    with ends(2) show ?thesis by blast
  qed
  moreover have "do_continue h d = None \<longleftrightarrow> (\<forall>n. \<exists>g. steps (step_to h ?B) n (mach d) = Some g)"
    using loops unfolding continue.right.loop_forever_iff [symmetric] by auto
  moreover have "(\<forall>n. \<exists>g. steps (step_to h ?B) n (mach d) = Some g) \<longleftrightarrow>
      (\<forall>n. \<exists>g. steps (step_instruction h) n (mach d) = Some g \<and> (0 < n \<longrightarrow> pc g \<notin> ?B))"
    unfolding step_to_steps by (metis (lifting) le_refl option.inject)
  ultimately show ?thesis by blast
qed

lemma continue_stops_at_breakpoint_witness:
  "do_continue quiet_host \<lparr>mach = zero_machine, file_size = 0, breakpoints = [8], halted = False\<rparr> \<noteq> None"
proof
  assume "do_continue quiet_host \<lparr>mach = zero_machine, file_size = 0, breakpoints = [8], halted = False\<rparr> = None"
  with continue_stops_at_breakpoint [of "\<lparr>mach = zero_machine, file_size = 0, breakpoints = [8],
      halted = False\<rparr>" quiet_host]
  have "\<forall>n. \<exists>g. steps (step_instruction quiet_host) n zero_machine = Some g \<and> (0 < n \<longrightarrow> pc g \<notin> {8})"
    by simp
  then show False using zero_machine_runs [of 2] by (auto dest: spec [of _ 2])
qed

lemma do_steps_halted [simp]: "halted d \<Longrightarrow> do_steps h n d = Inr d"
  by (cases n) simp_all

lemma do_steps_run:
  assumes "\<not> halted d" "silent (mach d) = silent g0" "steps (step_instruction h) n g0 = Some g"
  shows "\<exists>d'. do_steps h (n + m) d = do_steps h m d' \<and> \<not> halted d' \<and> silent (mach d') = silent g
    \<and> breakpoints d' = breakpoints d"
  using assms
proof (induction n arbitrary: d g0)
  case 0
  then show ?case by auto
next
  case (Suc n)
  then obtain g1 where g1: "step_instruction h g0 = Inr (0, g1)" "steps (step_instruction h) n g1 = Some g"
    by (auto split: sum.splits if_splits)
  with do_step_beside [OF Suc.prems(1,2), of h] obtain d1 where
    "do_step h d = Inr (0, d1)" "\<not> halted d1" "silent (mach d1) = silent g1" "breakpoints d1 = breakpoints d"
    by (auto simp: step_beside_def elim!: rel_sum.cases)
  with Suc.IH [OF this(2,3) g1(2)] Suc.prems(1) show ?case by simp
qed

text \<open>
  The command \<open>step n\<close> makes exactly \<open>n\<close> steps of the interpreter when none of them stops the
  program, and otherwise all steps up to and with the first one that does.
\<close>

lemma step_command_counts:
  assumes "\<not> halted d"
  shows "(\<forall>g. steps (step_instruction h) n (mach d) = Some g \<longrightarrow>
      (\<exists>d'. do_steps h n d = Inr d' \<and> \<not> halted d' \<and> silent (mach d') = silent g))
    \<and> (\<forall>m g ret g'. m < n \<and> steps (step_instruction h) m (mach d) = Some g
        \<and> step_instruction h g = Inr (ret, g') \<and> ret \<noteq> 0 \<longrightarrow>
      (\<exists>d'. do_steps h n d = Inr d' \<and> halted d' \<and> silent (mach d') = silent g'))"
proof (intro conjI allI impI)
  fix g assume "steps (step_instruction h) n (mach d) = Some g"
  from do_steps_run [OF assms refl this, of 0]
  show "\<exists>d'. do_steps h n d = Inr d' \<and> \<not> halted d' \<and> silent (mach d') = silent g" by auto
next
  fix m g ret g'
  assume stop: "m < n \<and> steps (step_instruction h) m (mach d) = Some g
    \<and> step_instruction h g = Inr (ret, g') \<and> ret \<noteq> 0"
  then obtain k where n: "n = m + Suc k" using less_iff_Suc_add by auto
  obtain d1 where d1: "do_steps h n d = do_steps h (Suc k) d1" "\<not> halted d1" "silent (mach d1) = silent g"
    using do_steps_run [OF assms refl, of h m g "Suc k"] stop n by auto
  with do_step_beside [OF d1(2,3), of h] stop obtain d2 where
    "do_step h d1 = Inr (ret, d2)" "halted d2" "silent (mach d2) = silent g'"
    by (auto simp: step_beside_def elim!: rel_sum.cases)
  with d1 show "\<exists>d'. do_steps h n d = Inr d' \<and> halted d' \<and> silent (mach d') = silent g'" by simp
qed

lemma step_command_counts_witness:
  "\<exists>d'. do_steps quiet_host 3 \<lparr>mach = zero_machine, file_size = 0, breakpoints = [], halted = False\<rparr>
      = Inr d' \<and> \<not> halted d' \<and> silent (mach d') = silent (zero_machine\<lparr>pc := 12\<rparr>)"
  using step_command_counts [of "\<lparr>mach = zero_machine, file_size = 0, breakpoints = [],
      halted = False\<rparr>" quiet_host 3] zero_machine_runs [of 3]
  by simp

end
