(* ===== verification/Dbg_Correct.thy ===== *)
theory Dbg_Correct
  imports Dbg_Run "HOL-Library.Multiset"
begin

text \<open>
  The debugger's data and its session: the breakpoints are a bounded set of addresses, listings
  end, lines are read as they were typed, and a session runs the commands one after the other.
\<close>

section \<open>Breakpoints\<close>

text \<open>What the commands rely on: a set of addresses with room for \<open>bound\<close> of them.\<close>

locale bounded_set =
  fixes member :: "'a \<Rightarrow> 's \<Rightarrow> bool" and add :: "'a \<Rightarrow> 's \<Rightarrow> 's" and delete :: "'a \<Rightarrow> 's \<Rightarrow> 's"
    and contents :: "'s \<Rightarrow> 'a set" and inv :: "'s \<Rightarrow> bool" and bound :: nat
  assumes member: "inv s \<Longrightarrow> member a s \<longleftrightarrow> a \<in> contents s"
    and finite_contents: "inv s \<Longrightarrow> finite (contents s) \<and> card (contents s) \<le> bound"
    and add: "inv s \<Longrightarrow> inv (add a s)
      \<and> contents (add a s) = (if card (contents s) < bound then insert a (contents s) else contents s)"
    and delete: "inv s \<Longrightarrow> inv (delete a s) \<and> contents (delete a s) = contents s - {a}"
begin

lemma add_all:
  assumes "inv s" "card (contents s \<union> set as) \<le> bound"
  shows "inv (fold add as s) \<and> contents (fold add as s) = contents s \<union> set as"
  using assms
proof (induction as arbitrary: s)
  case (Cons a as)
  have new: "contents (add a s) = insert a (contents s)"
  proof (cases "a \<in> contents s")
    case True
    with add [OF Cons.prems(1), of a] show ?thesis by (auto simp: insert_absorb)
  next
    case False
    have "card (insert a (contents s)) \<le> card (contents s \<union> set (a # as))"
      by (rule card_mono) (use finite_contents [OF Cons.prems(1)] in auto)
    with False Cons.prems(2) finite_contents [OF Cons.prems(1)] have "card (contents s) < bound" by simp
    with add [OF Cons.prems(1), of a] show ?thesis by simp
  qed
  with Cons.IH [of "add a s"] add [OF Cons.prems(1), of a] Cons.prems(2) show ?case by simp
qed simp

lemma delete_all:
  "inv s \<Longrightarrow> inv (fold delete as s) \<and> contents (fold delete as s) = contents s - set as"
proof (induction as arbitrary: s)
  case (Cons a as)
  from delete [OF Cons.prems, of a] Cons.IH [of "delete a s"] show ?case by auto
qed simp

end

definition bp_ok :: "'w debugger \<Rightarrow> bool" where
  "bp_ok d \<longleftrightarrow> distinct (breakpoints d) \<and> length (breakpoints d) \<le> MAX_BREAKPOINTS"

lemma bp_index_None: "bp_index a bs = None \<longleftrightarrow> a \<notin> set bs"
  by (induction bs) auto

lemma bp_index_Some: "bp_index a bs = Some i \<Longrightarrow> i < length bs \<and> bs ! i = a"
  by (induction bs arbitrary: i) (auto split: if_splits)

lemma swap_out_mset:
  assumes "i < length bs"
  shows "mset (take (length bs - 1) (bs[i := bs ! (length bs - 1)])) = mset bs - {#bs ! i#}"
proof (cases bs rule: rev_cases)
  case Nil
  with assms show ?thesis by simp
next
  case (snoc ys z)
  show ?thesis
  proof (cases "i = length ys")
    case True
    with snoc show ?thesis by simp
  next
    case False
    with assms snoc have i: "i < length ys" by simp
    then have "bs[i := z] = ys[i := z] @ [z]" using snoc by (simp add: list_update_append)
    with i snoc show ?thesis by (simp add: mset_update nth_append)
  qed
qed

lemma bp_add_breakpoints:
  "breakpoints (bp_add a d) = (if a \<in> set (breakpoints d) \<or> 128 \<le> length (breakpoints d)
     then breakpoints d else breakpoints d @ [a])"
  by (simp add: bp_add_def bp_contains_set)

lemma bp_delete_set:
  assumes "bp_ok d"
  shows "bp_ok (bp_delete a d) \<and> set (breakpoints (bp_delete a d)) = set (breakpoints d) - {a}"
proof (cases "bp_index a (breakpoints d)")
  case None
  then have "a \<notin> set (breakpoints d)" by (simp add: bp_index_None)
  with None assms show ?thesis by (simp add: bp_delete_def Let_def bp_ok_def)
next
  case (Some i)
  let ?bs = "breakpoints d"
  define bs' where "bs' = take (length ?bs - 1) (?bs[i := ?bs ! (length ?bs - 1)])"
  have bs': "mset bs' = mset ?bs - {#a#}"
    using swap_out_mset [of i ?bs] bp_index_Some [OF Some] by (simp add: bs'_def)
  have dist: "distinct ?bs" and len: "length ?bs \<le> 128" using assms by (simp_all add: bp_ok_def)
  have count: "count (mset bs') x = (if x \<in> set ?bs \<and> x \<noteq> a then 1 else 0)" for x
    using dist by (auto simp: bs' distinct_count_atmost_1)
  have "x \<in> set bs' \<longleftrightarrow> x \<in> set ?bs \<and> x \<noteq> a" for x
    using count [of x] by (metis count_mset_0_iff zero_neq_one)
  then have "set bs' = set ?bs - {a}" by blast
  moreover have "distinct bs'"
    unfolding distinct_count_atmost_1 using count calculation by auto
  moreover have "length bs' \<le> 128" using len by (simp add: bs'_def)
  ultimately show ?thesis using Some by (simp add: bp_delete_def Let_def bp_ok_def bs'_def)
qed

interpretation bps: bounded_set bp_contains bp_add bp_delete "\<lambda>d. set (breakpoints d)" bp_ok 128
proof unfold_locales
  fix d :: "'a debugger" and a
  assume ok: "bp_ok d"
  then have card: "card (set (breakpoints d)) = length (breakpoints d)"
    by (simp add: bp_ok_def distinct_card)
  show "bp_contains a d \<longleftrightarrow> a \<in> set (breakpoints d)" by (rule bp_contains_set)
  show "finite (set (breakpoints d)) \<and> card (set (breakpoints d)) \<le> 128"
    using ok card by (simp add: bp_ok_def)
  show "bp_ok (bp_add a d) \<and> set (breakpoints (bp_add a d)) = (if card (set (breakpoints d)) < 128
      then insert a (set (breakpoints d)) else set (breakpoints d))"
    using ok card by (auto simp: bp_ok_def bp_add_breakpoints)
  show "bp_ok (bp_delete a d) \<and> set (breakpoints (bp_delete a d)) = set (breakpoints d) - {a}"
    by (rule bp_delete_set [OF ok])
qed

text \<open>
  C31: the array of breakpoints implements a set of at most 128 addresses: whatever is added, in any
  order and with repetitions, as long as there is room for the distinct addresses, and then
  deleted, a breakpoint is found exactly when it was added or there before and not deleted; a full
  set takes no further address.
\<close>

theorem breakpoints_are_a_set:
  assumes "bp_ok d"
  shows "(card (set (breakpoints d) \<union> set as) \<le> 128 \<longrightarrow>
      bp_ok (fold bp_delete bs (fold bp_add as d))
      \<and> (bp_contains a (fold bp_delete bs (fold bp_add as d))
          \<longleftrightarrow> (bp_contains a d \<or> a \<in> set as) \<and> a \<notin> set bs))
    \<and> (length (breakpoints d) = 128 \<longrightarrow> breakpoints (bp_add a d) = breakpoints d)"
  using bps.add_all [OF assms, of as] bps.delete_all [of "fold bp_add as d" bs]
  by (auto simp: bp_contains_set bp_add_breakpoints)

lemma breakpoints_are_a_set_witness:
  "bp_contains 8 (fold bp_delete [4] (fold bp_add [4, 8, 4]
     \<lparr>mach = zero_machine, file_size = 0, breakpoints = [], halted = False\<rparr>))"
  using breakpoints_are_a_set [of "\<lparr>mach = zero_machine, file_size = 0, breakpoints = [], halted = False\<rparr>"
      "[4, 8, 4]" "[4]" 8] card_length [of "[4, 8, 4 :: u32]"]
  by (simp add: bp_ok_def)

section \<open>The listing of the program\<close>

lemma say_say [simp]: "say s (say t d) = say (t @ s) d" "say [] d = d"
  by (simp_all add: say_def put_stdout_def)

lemma code_line_say [simp]: "code_line a (say s d) = code_line a d"
  by (simp add: code_line_def word_at_def Let_def)

lemma unat_of_nat_small: "n < 4294967296 \<Longrightarrow> unat (of_nat n :: u32) = n"
  by (simp add: unat_of_nat take_bit_nat_eq_self)

lemma print_code_loop_ends:
  assumes "file_size d \<le> 0xFFFFFFFC" "k + n = (file_size d + 3) div 4"
  shows "print_code_loop (of_nat (4 * k)) d
    = Some (say (concat (map (\<lambda>j. code_line (of_nat (4 * j)) d) [k..<k + n])) d)"
  using assms
proof (induction n arbitrary: k d)
  case 0
  then have k: "k = (file_size d + 3) div 4" by simp
  have "4 * k \<le> file_size d + 3" "file_size d \<le> 4 * k" unfolding k by presburger+
  moreover from this have "unat (of_nat (4 * k) :: u32) = 4 * k"
    using 0(1) by (intro unat_of_nat_small) simp
  ultimately show ?case by (subst print_code_loop.simps) simp
next
  case (Suc n)
  have list: "[k..<k + Suc n] = k # [Suc k..<Suc k + n]" by (simp add: upt_conv_Cons del: upt_Suc)
  have less: "4 * k < file_size d" using Suc.prems(2) by presburger
  with Suc.prems(1) have "unat (of_nat (4 * k) :: u32) = 4 * k" by (intro unat_of_nat_small) simp
  then have "print_code_loop (of_nat (4 * k)) d
      = print_code_loop (of_nat (4 * k) + 4) (say (code_line (of_nat (4 * k)) d) d)"
    using less by (subst print_code_loop.simps) simp
  also have "(of_nat (4 * k) :: u32) + 4 = of_nat (4 * Suc k)" by simp
  also have "print_code_loop (of_nat (4 * Suc k)) (say (code_line (of_nat (4 * k)) d) d)
      = Some (say (concat (map (\<lambda>j. code_line (of_nat (4 * j)) d) [Suc k..<Suc k + n]))
          (say (code_line (of_nat (4 * k)) d) d))"
    by (rule Suc.IH [of "say (code_line (of_nat (4 * k)) d) d" "Suc k", unfolded code_line_say])
      (use Suc.prems in simp_all)
  finally show ?case unfolding list by simp
qed

lemma print_code_loop_runs_on:
  assumes "print_code_loop a d = Some d'" "4 dvd unat a"
  shows "file_size d \<le> 0xFFFFFFFC"
proof -
  have "4 dvd unat a \<longrightarrow> file_size d \<le> 0xFFFFFFFC"
  proof (rule print_code_loop.raw_induct [where P = "\<lambda>a d d'. 4 dvd unat a \<longrightarrow> file_size d \<le> 0xFFFFFFFC",
        OF _ assms(1)], rule impI)
    fix rec a and d d' :: "'a debugger"
    assume IH: "\<And>a d d'. rec a d = Some d' \<Longrightarrow> 4 dvd unat a \<longrightarrow> file_size d \<le> 0xFFFFFFFC"
      and eq: "(if unat a < file_size d then rec (a + 4) (say (code_line a d) d) else Some d) = Some d'"
      and dvd: "4 dvd unat (a :: u32)"
    show "file_size d \<le> 0xFFFFFFFC"
    proof (cases "unat a < file_size d")
      case True
      have "unat (a + 4) = (unat a + 4) mod 2 ^ 32" by (simp add: unat_word_ariths)
      then have "4 dvd unat (a + 4)" using dvd by (simp add: dvd_mod)
      moreover from True eq have "rec (a + 4) (say (code_line a d) d) = Some d'" by simp
      ultimately show ?thesis using IH by fastforce
    next
      case False
      have "unat a < 4294967296" by (rule unat_bounds(3))
      with dvd have "unat a \<le> 0xFFFFFFFC" by (elim dvdE) simp
      with False show ?thesis by simp
    qed
  qed
  with assms(2) show ?thesis by simp
qed

lemma code_listing_eq:
  "print_code d = (if file_size d \<le> 0xFFFFFFFC
     then Some (say (concat (map (\<lambda>j. code_line (of_nat (4 * j)) d) [0..<(file_size d + 3) div 4])) d)
     else None)"
proof (cases "file_size d \<le> 0xFFFFFFFC")
  case True
  then show ?thesis
    using print_code_loop_ends [of d 0 "(file_size d + 3) div 4"] by (simp add: print_code_def)
next
  case False
  then show ?thesis
    using print_code_loop_runs_on [of 0 d] by (cases "print_code d") (auto simp: print_code_def)
qed

text \<open>
  C32: the command \<open>code\<close> lists the words of the memory from address 0 up to the size of the file, each
  once, in order, and ends, unless the file is within three bytes of filling the memory: then its 32-bit
  counter wraps around and it never ends. These words are the program when it is a flat binary, which is
  loaded at 0 (and has not overwritten itself); the segments of an ELF file lie where its headers put them,
  and may not be listed at all.
\<close>

theorem code_listing_ends:
  "print_code d = (if file_size d \<le> 0xFFFFFFFC
     then Some (say (concat (map (\<lambda>j. code_line (of_nat (4 * j)) d) [0..<(file_size d + 3) div 4])) d)
     else None)"
  by (rule code_listing_eq)

section \<open>Commands\<close>

lemma hex_text:
  "length (hex a) = 10" "\<forall>c\<in>set (hex a). c \<noteq> CHR '' ''" "hex a = CHR ''0'' # CHR ''x'' # fmt_08x (unat a)"
proof -
  have "unat a < 2 ^ 32" using unat_bounds(3) [of a] by simp
  then show "length (hex a) = 10" by (simp add: fmt_08x_length)
  have "\<not> digit_in 16 (CHR '' '')" by (simp add: digit_in_def alnum_value_def)
  then show "\<forall>c\<in>set (hex a). c \<noteq> CHR '' ''" using fmt_08x_number(2) [of "unat a"] by auto
qed simp

lemma hex_token:
  assumes "rest = [] \<or> hd rest = CHR '' ''"
  shows "takeWhile (\<lambda>c. c \<noteq> CHR '' '') (hex a @ rest) = hex a"
    "dropWhile (\<lambda>c. c \<noteq> CHR '' '') (hex a @ rest) = rest"
  using assms hex_text(2) [of a] by (cases rest; auto simp: takeWhile_append dropWhile_append)+

lemma parse_addr_printed:
  assumes "cmd_arg line = Some (hex a @ rest)" "rest = [] \<or> hd rest = CHR '' ''"
  shows "parse_addr line d = (Some a, d)"
  using assms hex_token [OF assms(2), of a] hex_text(1) [of a]
    strtou32_digits [of "''0x''" "fmt_08x (unat a)" a] fmt_08x_number [of "unat a"]
  by (simp add: parse_addr_def)

text \<open>
  The commands do what their names say: an address as the debugger prints it, after \<open>break\<close>,
  \<open>delete\<close> or \<open>print\<close> or their one-letter forms, reaches the operation; \<open>memory\<close> takes a count, zero
  meaning one, and \<open>step\<close> a number of steps.
\<close>

lemma commands_reach_operations:
  "run_command h (''break '' @ hex a) d = Some (Inr (False, bp_add a d))
   \<and> run_command h (''b '' @ hex a) d = Some (Inr (False, bp_add a d))
   \<and> run_command h (''delete '' @ hex a) d = Some (Inr (False, bp_delete a d))
   \<and> run_command h (''print '' @ hex a) d = Some (Inr (False, print_word a d))
   \<and> run_command h (''memory '' @ hex a) d = Some (Inr (False, dump_memory a 1 d))
   \<and> run_command h (''memory '' @ hex a @ '' '' @ fmt_u (unat (n :: u32))) d
       = Some (Inr (False, dump_memory a (if n = 0 then 1 else unat n) d))
   \<and> run_command h (''step '' @ fmt_u (unat n)) d
       = Some (rbind (do_steps h (unat n) d) (\<lambda>d'. Inr (False, d')))"
proof -
  have arg: "cmd_arg (cmd @ CHR '' '' # hex a @ rest) = Some (hex a @ rest)"
    if "\<forall>c\<in>set cmd. c \<noteq> CHR '' ''" for cmd rest
    using that by (auto simp: cmd_arg_def hex_text(3) Let_def)
  have addr: "with_addr (cmd @ CHR '' '' # hex a) f d = f a d" if "\<forall>c\<in>set cmd. c \<noteq> CHR '' ''" for cmd f
    using parse_addr_printed [of "cmd @ CHR '' '' # hex a" a "[]" d] arg [OF that, of "[]"]
    by (simp add: with_addr_def)
  have small: "unat n < 2 ^ 32" using unat_bounds(3) [of n] by simp
  have count: "strtoul 10 (fmt_u (unat n)) = unat n" "strtol 10 (fmt_u (unat n)) = int (unat n)"
    using small by (simp_all add: strtoul_def strtoumax_def strtol_def strto_decimal)
  have "cmd_arg (''step '' @ fmt_u (unat n)) = Some (fmt_u (unat n))"
  proof -
    obtain c cs where c: "fmt_u (unat n) = c # cs" "is_digit c"
      using show_base_nonempty [of 10 "unat n"] show_base_digits [of _ "unat n"]
      by (metis fmt_u_def list.set_intros(1) neq_Nil_conv)
    then have "c \<noteq> CHR '' ''" by (auto simp: is_digit_def)
    with c(1) show ?thesis by (simp add: cmd_arg_def)
  qed
  moreover have "with_addr (''memory'' @ CHR '' '' # hex a @ '' '' @ s) f d = f a d" for s f
    using parse_addr_printed [of "''memory'' @ CHR '' '' # hex a @ '' '' @ s" a "'' '' @ s" d]
      arg [of "''memory''" "'' '' @ s"]
    by (simp add: with_addr_def)
  ultimately show ?thesis
    using addr [of "''break''" bp_add] addr [of "''b''" bp_add] addr [of "''delete''" bp_delete]
      addr [of "''print''" print_word] addr [of "''memory''"] arg [of "''memory''" "[]"]
      arg [of "''memory''" "'' '' @ fmt_u (unat n)"] hex_token [of "[]" a]
      hex_token [of "'' '' @ fmt_u (unat n)" a] count
    by (simp add: run_command_def is_cmd_def word_prefix_def Let_def unat_eq_0)
qed

end
