(* ===== verification/Dbg_Session.thy ===== *)
theory Dbg_Session
  imports Dbg_Correct
begin

text \<open>
  The session of the debugger: a line of the stream arrives as it was typed, and the loop runs one
  command per line until an empty line, the end of the input or the command to quit.
\<close>

section \<open>Reading a line\<close>

text \<open>A stream that leaves alone the part \<open>beside\<close> of the state its reader works on.\<close>

locale line_source = char_stream input rest inv
  for input :: "'s reader" and rest :: "'s \<Rightarrow> string" and inv :: "'s \<Rightarrow> bool" +
  fixes beside :: "'s \<Rightarrow> 'd"
  assumes read_beside: "input s = Some (r, s') \<Longrightarrow> beside s' = beside s"
begin

lemma pop_beside:
  assumes "cstream_pop input (Some cs) = Some (r, Some cs')"
  shows "beside (impl cs') = beside (impl cs)"
  using assms read_beside [of "impl cs"]
  by (auto simp: cstream_pop_def cstream_read_def split: if_splits)

lemma read_line_chars:
  assumes "ready (l @ xs) cs" "CHR 0x0A \<notin> set l" "vec_wf v"
    and "xs = [] \<or> (\<exists>r. xs = CHR 0x0A # r)"
  shows "\<exists>cs' v'. read_line input (total_alloc fresh) cs v = Some (Inr (None, cs', v'))
    \<and> (xs \<noteq> [] \<longrightarrow> ready (tl xs) cs') \<and> beside (impl cs') = beside (impl cs)
    \<and> vec_wf v' \<and> vec_chars v' = vec_chars v @ l @ [CHR 0x00]"
  using assms(1-3)
proof (induction l arbitrary: cs v)
  case Nil
  have "\<exists>cs' c. cstream_pop input (Some cs) = Some (Inr c, Some cs') \<and> (c = EOF \<or> c = 10)
      \<and> (xs \<noteq> [] \<longrightarrow> ready (tl xs) cs')"
    using assms(4) pop_end [of cs] pop_char [of "CHR 0x0A" "tl xs" cs] Nil.prems(1) by auto
  then obtain cs' c where pop: "cstream_pop input (Some cs) = Some (Inr c, Some cs')" "c = EOF \<or> c = 10"
    "xs \<noteq> [] \<longrightarrow> ready (tl xs) cs'" by blast
  obtain v' where "vec_push (total_alloc fresh) v (CHR 0x00) = Inr v'" "vec_wf v'"
    "vec_chars v' = vec_chars v @ [CHR 0x00]"
    using vec.push_ok [OF Nil.prems(3), of fresh "CHR 0x00"] by blast
  with pop pop_beside [OF pop(1)] show ?case by (subst read_line.simps) auto
next
  case (Cons c l)
  obtain cs1 where pop: "cstream_pop input (Some cs) = Some (Inr (of_char c), Some cs1)" "ready (l @ xs) cs1"
    using pop_char [of c "l @ xs" cs] Cons.prems(1) by auto
  obtain v1 where v1: "vec_push (total_alloc fresh) v c = Inr v1" "vec_wf v1" "vec_chars v1 = vec_chars v @ [c]"
    using vec.push_ok [OF Cons.prems(3), of fresh c] by blast
  have "(of_char c :: int) \<noteq> 10"
  proof
    assume "(of_char c :: int) = 10"
    then have "(of_char c :: int) = of_char (CHR 0x0A)" by simp
    then have "c = CHR 0x0A" by (simp only: of_char_eq_iff)
    with Cons.prems(2) show False by simp
  qed
  then have "read_line input (total_alloc fresh) cs v = read_line input (total_alloc fresh) cs1 v1"
    using pop(1) v1(1) char_not_EOF [of c] by (subst read_line.simps) simp
  with Cons.IH [OF pop(2) _ v1(2)] Cons.prems(2) v1(3) pop_beside [OF pop(1)] show ?case by auto
qed

end

lemma vec_wf_length: "vec_wf v \<Longrightarrow> length (vec_chars v) = vec_size v"
  by (auto simp: vec_wf_def vec_chars_def split: option.split)

section \<open>The session\<close>

text \<open>What a session is to do: the commands on the lines, in order.\<close>

fun run_lines :: "'w host \<Rightarrow> string list \<Rightarrow> 'w debugger \<Rightarrow> 'w debugger result option" where
  "run_lines h [] d = Some (Inr d)"
| "run_lines h (l # ls) d =
     (if l = [] then Some (Inr d)
      else case run_command h l d of
        None \<Rightarrow> None
      | Some (Inl u) \<Rightarrow> Some (Inl u)
      | Some (Inr (quit, d')) \<Rightarrow> if quit then Some (Inr d') else run_lines h ls d')"

definition text_line :: "string \<Rightarrow> bool" where
  "text_line l \<longleftrightarrow> CHR 0x0A \<notin> set l \<and> CHR 0x00 \<notin> set l"

locale session = line_source input rest inv snd
  for input :: "('s \<times> 'w debugger) reader" and rest inv +
  assumes other_debugger: "rest (s, d) = rest (s, d')" "inv (s, d) = inv (s, d')"
begin

lemma round:
  assumes "ready (l @ xs) cs" "text_line l" "xs = [] \<or> (\<exists>r. xs = CHR 0x0A # r)"
  shows "\<exists>cs'. (xs \<noteq> [] \<longrightarrow> ready (tl xs) cs') \<and> snd (impl cs') = snd (impl cs)
    \<and> debug_round h (total_alloc fresh) input cs =
      (if l = [] then Some (Inr (True, cs'))
       else map_option (\<lambda>r. rbind r (\<lambda>(quit, d). Inr (quit, cs'\<lparr>impl := (fst (impl cs'), d)\<rparr>)))
         (run_command h l (snd (impl cs))))"
proof -
  have wf: "vec_wf vec_init" "vec_chars vec_init = []" using vec.new_inv vec.new_chars by blast+
  have "CHR 0x0A \<notin> set l" using assms(2) by (simp add: text_line_def)
  from read_line_chars [OF assms(1) this wf(1) assms(3), of fresh]
  obtain cs' v where line: "read_line input (total_alloc fresh) cs vec_init = Some (Inr (None, cs', v))"
    "xs \<noteq> [] \<longrightarrow> ready (tl xs) cs'" "snd (impl cs') = snd (impl cs)" "vec_wf v"
    "vec_chars v = l @ [CHR 0x00]" using wf(2) by auto
  have "takeWhile (\<lambda>c. c \<noteq> CHR 0x00) (vec_chars v) = l"
    using assms(2) line(5) by (auto simp: text_line_def takeWhile_append)
  moreover have "vec_size v = Suc (length l)" using vec_wf_length [OF line(4)] line(5) by simp
  ultimately show ?thesis using line(1-3) by (auto simp: debug_round_def)
qed

lemma ready_update: "ready xs (cs\<lparr>impl := (fst (impl cs), d)\<rparr>) = ready xs cs"
  using other_debugger [of "fst (impl cs)" d "snd (impl cs)"] by (simp add: ready_def)

abbreviation run_session :: "(nat \<Rightarrow> nat \<Rightarrow> char) \<Rightarrow> 'w host \<Rightarrow> ('s \<times> 'w debugger) cstream \<Rightarrow> 'w debugger result option" where
  "run_session fresh h cs \<equiv> map_option (\<lambda>r. rbind r (\<lambda>cs. Inr (snd (impl cs))))
     (debug_loop h (total_alloc fresh) input cs)"

text \<open>One line: an empty one ends the session, any other is run and the rest of the lines follow.\<close>

lemma session_line:
  assumes "ready (l @ CHR 0x0A # xs) cs" "text_line l" "l \<noteq> []"
  shows "\<exists>cs'. ready xs cs' \<and> run_session fresh h cs =
    (case run_command h l (snd (impl cs)) of
       None \<Rightarrow> None
     | Some (Inl u) \<Rightarrow> Some (Inl u)
     | Some (Inr (quit, d)) \<Rightarrow>
         if quit then Some (Inr d) else run_session fresh h (cs'\<lparr>impl := (fst (impl cs'), d)\<rparr>))"
proof -
  from round [OF assms(1,2), of h fresh] assms(3) obtain cs' where "ready xs cs'"
    "debug_round h (total_alloc fresh) input cs =
       map_option (\<lambda>r. rbind r (\<lambda>(quit, d). Inr (quit, cs'\<lparr>impl := (fst (impl cs'), d)\<rparr>)))
         (run_command h l (snd (impl cs)))" by auto
  then show ?thesis
    by (intro exI [of _ cs'], subst debug_loop.simps) (simp split: option.split sum.split)
qed

lemma session_runs_lines:
  assumes "ready (concat (map (\<lambda>l. l @ newline) ls)) cs" "\<forall>l\<in>set ls. text_line l"
  shows "run_session fresh h cs = run_lines h ls (snd (impl cs))"
  using assms
proof (induction ls arbitrary: cs)
  case Nil
  have "ready ([] @ []) cs" "text_line []" using Nil by (simp_all add: text_line_def)
  from round [OF this, of h fresh] obtain cs' where "snd (impl cs') = snd (impl cs)"
    "debug_round h (total_alloc fresh) input cs = Some (Inr (True, cs'))" by auto
  then show ?case by (subst debug_loop.simps) simp
next
  case (Cons l ls)
  have l: "ready (l @ CHR 0x0A # concat (map (\<lambda>l. l @ newline) ls)) cs" "text_line l"
    using Cons.prems by simp_all
  show ?case
  proof (cases "l = []")
    case True
    from round [OF l, of h fresh] True obtain cs' where "snd (impl cs') = snd (impl cs)"
      "debug_round h (total_alloc fresh) input cs = Some (Inr (True, cs'))" by auto
    with True show ?thesis by (subst debug_loop.simps) simp
  next
    case False
    from session_line [OF l False, of h fresh] obtain cs' where
      "ready (concat (map (\<lambda>l. l @ newline) ls)) cs'" and
      run: "run_session fresh h cs = (case run_command h l (snd (impl cs)) of
         None \<Rightarrow> None
       | Some (Inl u) \<Rightarrow> Some (Inl u)
       | Some (Inr (quit, d)) \<Rightarrow>
           if quit then Some (Inr d) else run_session fresh h (cs'\<lparr>impl := (fst (impl cs'), d)\<rparr>))" by blast
    then have "run_session fresh h (cs'\<lparr>impl := (fst (impl cs'), d)\<rparr>) = run_lines h ls d" for d
      using Cons.IH [of "cs'\<lparr>impl := (fst (impl cs'), d)\<rparr>"] Cons.prems(2) by (simp add: ready_update)
    with False show ?thesis unfolding run by (simp split: option.split sum.split)
  qed
qed

end

interpretation terminal: session terminal_read "\<lambda>p. readline_rest (fst p)" "\<lambda>p. readline_ok (fst p)"
proof unfold_locales
  fix p :: "cstream_readline \<times> 'a debugger" and c cs
  assume "readline_ok (fst p)" "readline_rest (fst p) = c # cs"
  from from_terminal.read_char [OF this]
  show "\<exists>p'. terminal_read p = Some (Inr (of_char c), p') \<and> readline_ok (fst p') \<and> readline_rest (fst p') = cs"
    by (auto simp: terminal_read_def)
next
  fix p :: "cstream_readline \<times> 'a debugger"
  assume "readline_ok (fst p)" "readline_rest (fst p) = []"
  from from_terminal.read_end [OF this] show "\<exists>p'. terminal_read p = Some (Inr EOF, p')"
    by (auto simp: terminal_read_def)
qed (auto simp: terminal_read_def)

lemma session_lines:
  assumes "typed events = Some (concat (map (\<lambda>l. l @ newline) ls))" "\<forall>l\<in>set ls. text_line l"
  shows "debug h (total_alloc fresh) (Inl ((False, j), events)) d = run_lines h ls d"
proof -
  let ?cs = "with_debugger d (cstream_readline_create (False, j) events)"
  have "terminal.ready (concat (map (\<lambda>l. l @ newline) ls)) ?cs"
    unfolding terminal.ready_def using assms(1)
    by (simp add: with_debugger_def cstream_readline_create_def readline_ok_def readline_rest_def)
  from terminal.session_runs_lines [OF this assms(2), of h fresh] show ?thesis
    by (simp add: debug_def with_debugger_def)
qed

text \<open>
  C16: an interactive session runs exactly the commands on the typed lines, in order, each on the
  state the previous one left, until one quits, a line is empty or the input ends; the only
  assumption is that the uninitialised buffer flag of the stream is clear.
\<close>

theorem session_runs_typed_lines:
  assumes "typed events = Some (concat (map (\<lambda>l. l @ newline) ls))" "\<forall>l\<in>set ls. text_line l"
  shows "debug h (total_alloc fresh) (Inl ((False, j), events)) d = run_lines h ls d"
  by (rule session_lines [OF assms])

lemma session_runs_typed_lines_witness:
  "debug quiet_host (total_alloc (\<lambda>_ _. CHR 0x00))
     (Inl ((False, 0), [Rl_key (Some (Some ''b 8'')), Rl_key (Some (Some ''q'')), Rl_key (Some None)]))
     \<lparr>mach = zero_machine, file_size = 0, breakpoints = [], halted = False\<rparr>
   = run_lines quiet_host [''b 8'', ''q'']
     \<lparr>mach = zero_machine, file_size = 0, breakpoints = [], halted = False\<rparr>"
  by (rule session_runs_typed_lines) (simp_all add: text_line_def)

section \<open>Standard input that is no terminal\<close>

text \<open>
  Then the stream is the emulator's own stdin: what the debugger does not read is there for the
  program. \<open>no_input\<close> is the debugger but for it.
\<close>

definition no_input :: "'w debugger \<Rightarrow> 'w debugger" where
  "no_input d = d\<lparr>mach := (mach d)\<lparr>stdin_chars := []\<rparr>\<rparr>"

interpretation piped: line_source stdin_read "\<lambda>p. stdin_chars (mach (snd p))" "\<lambda>p. file_ok (fst p)"
  "\<lambda>p. no_input (snd p)"
proof unfold_locales
  fix p p' :: "cstream_file \<times> 'a debugger" and r
  assume "stdin_read p = Some (r, p')"
  then show "no_input (snd p') = no_input (snd p)" 
    by (cases p) (auto simp: stdin_read_def no_input_def Let_def)
qed (auto simp: stdin_read_def cstream_file_read_def c_fgetc_def file_ok_def char_not_EOF Let_def)

text \<open>
  On piped input, one round of the debugger takes exactly the first line of stdin and hands the
  command the rest of it: a program that the command runs reads what follows the command, and
  the next command is whatever the program leaves.
\<close>

lemma piped_round_takes_one_line:
  assumes "text_line l" "l \<noteq> []" "stdin_chars (mach d) = l @ CHR 0x0A # r"
    and "\<not> has_buffer cs" "impl cs = (s, d)" "file_ok s"
  shows "\<exists>cs'. \<not> has_buffer cs' \<and> file_ok (fst (impl cs'))
    \<and> debug_round h (total_alloc fresh) stdin_read cs =
      map_option (\<lambda>x. rbind x (\<lambda>(quit, d'). Inr (quit, cs'\<lparr>impl := (fst (impl cs'), d')\<rparr>)))
        (run_command h l (d\<lparr>mach := (mach d)\<lparr>stdin_chars := r\<rparr>\<rparr>))"
proof -
  have wf: "vec_wf vec_init" "vec_chars vec_init = []" using vec.new_inv vec.new_chars by blast+
  have ready: "piped.ready (l @ CHR 0x0A # r) cs"
    using assms(3-6) by (simp add: piped.ready_def)
  have "CHR 0x0A \<notin> set l" using assms(1) by (simp add: text_line_def)
  from piped.read_line_chars [OF ready this wf(1), of fresh]
  obtain cs' v where line: "read_line stdin_read (total_alloc fresh) cs vec_init = Some (Inr (None, cs', v))"
    "piped.ready r cs'" "no_input (snd (impl cs')) = no_input (snd (impl cs))" "vec_wf v"
    "vec_chars v = l @ [CHR 0x00]" using wf(2) by auto
  have "takeWhile (\<lambda>c. c \<noteq> CHR 0x00) (vec_chars v) = l"
    using assms(1) line(5) by (auto simp: text_line_def takeWhile_append)
  moreover have "vec_size v = Suc (length l)" using vec_wf_length [OF line(4)] line(5) by simp
  moreover have cs': "\<not> has_buffer cs'" "file_ok (fst (impl cs'))" "stdin_chars (mach (snd (impl cs'))) = r"
    using line(2) by (simp_all add: piped.ready_def)
  moreover have "snd (impl cs') = d\<lparr>mach := (mach d)\<lparr>stdin_chars := r\<rparr>\<rparr>"
  proof -
    have "x = y\<lparr>mach := (mach y)\<lparr>stdin_chars := stdin_chars (mach x)\<rparr>\<rparr>"
      if "no_input x = no_input y" for x y :: "'a debugger"
      using that by (cases x; cases y; cases "mach x"; cases "mach y") (simp add: no_input_def)
    from this [OF line(3)] cs'(3) assms(5) show ?thesis by simp
  qed
  ultimately show ?thesis
    using line(1) assms(2) by (intro exI [of _ cs']) (simp add: debug_round_def)
qed

lemma piped_round_takes_one_line_witness:
  "\<exists>cs'. debug_round quiet_host (total_alloc (\<lambda>_ _. CHR 0x00)) stdin_read
      (with_debugger \<lparr>mach = zero_machine\<lparr>stdin_chars := ''q'' @ [CHR 0x0A] @ ''42''\<rparr>, file_size = 0,
        breakpoints = [], halted = False\<rparr>
        (cstream_file_create \<lparr>pending = [], broken = False, error_flag = False, close_fails = False,
          closed = False, failure = \<lparr>program = [], errno_text = []\<rparr>\<rparr> False)) = Some (Inr (True, cs'))"
proof -
  let ?f = "\<lparr>pending = [], broken = False, error_flag = False, close_fails = False, closed = False,
    failure = \<lparr>program = [], errno_text = []\<rparr>\<rparr>"
  let ?d = "\<lparr>mach = zero_machine\<lparr>stdin_chars := ''q'' @ [CHR 0x0A] @ ''42''\<rparr>, file_size = 0,
    breakpoints = [], halted = False\<rparr>"
  have quit: "run_command quiet_host ''q'' e = Some (Inr (True, e))" for e
    by (simp add: run_command_def is_cmd_def word_prefix_def)
  show ?thesis
    using piped_round_takes_one_line [of "''q''" ?d "''42''" "with_debugger ?d (cstream_file_create ?f False)"
        "\<lparr>fclose_on_free = False, cfile = ?f, warned = []\<rparr>" quiet_host "\<lambda>_ _. CHR 0x00"]
    by (auto simp: text_line_def with_debugger_def cstream_file_create_def file_ok_def quit)
qed

section \<open>Sessions end\<close>

lemma file_size_kept [simp]:
  "file_size (bp_add a d) = file_size d" "file_size (bp_delete a d) = file_size d"
  "file_size (bp_list d) = file_size d" "file_size (print_registers d) = file_size d"
  "file_size (print_word a d) = file_size d" "file_size (dump_memory a n d) = file_size d"
  "file_size (help_debug d) = file_size d" "file_size (snd (parse_addr l d)) = file_size d"
  by (simp_all add: bp_add_def bp_delete_def bp_list_def print_registers_def print_word_def
      dump_memory_def help_debug_def parse_addr_def Let_def case_prod_beta split: option.split)

lemma with_addr_file_size [simp]:
  "(\<And>a e. file_size (f a e) = file_size e) \<Longrightarrow> file_size (with_addr l f d) = file_size d"
  using file_size_kept(8) [of l d]
  by (cases "parse_addr l d") (auto simp: with_addr_def split: option.split)

lemma do_step_file_size: "on_ok (\<lambda>p. file_size (snd p) = file_size d) (do_step h d)"
  by (auto simp: do_step_def on_ok_def rbind_Inr_iff trace_instr_def Let_def split: if_splits)

lemma do_steps_file_size: "on_ok (\<lambda>d'. file_size d' = file_size d) (do_steps h n d)"
proof (induction n arbitrary: d)
  case (Suc n)
  have "on_ok (\<lambda>p. on_ok (\<lambda>d'. file_size d' = file_size d) (do_steps h n (snd p))) (do_step h d)"
    by (rule on_ok_mono [OF do_step_file_size]) (use Suc.IH in \<open>metis on_ok_mono\<close>)
  then show ?case by (simp add: on_ok_rbind case_prod_beta)
qed simp

lemma run_command_returns:
  assumes "\<not> is_cmd l ''continue'' (Some ''c'')" "file_size d \<le> 0xFFFFFFFC"
  shows "\<exists>r. run_command h l d = Some r \<and> on_ok (\<lambda>p. file_size (snd p) = file_size d) r"
proof -
  have "on_ok (\<lambda>p. file_size (snd p) = file_size d) (rbind (do_steps h n d) (\<lambda>d'. Inr (False, d')))" for n
    using do_steps_file_size [of d h n] by (simp add: on_ok_rbind)
  moreover have "\<exists>d'. print_code d = Some d' \<and> file_size d' = file_size d"
    using assms(2) unfolding code_listing_eq by simp
  ultimately show ?thesis
    using assms(1) unfolding run_command_def Let_def by auto
qed

text \<open>
  C30: a session without \<open>continue\<close> ends. The lines are typed on the terminal without Ctrl-C and the input
  ends after them, the buffer flag of the stream is clear, and the file is at most 0xFFFFFFFC bytes long
  (for a longer one the command \<open>code\<close> never ends): then each command returns, and so does the session.
\<close>

theorem session_ends:
  assumes "typed events = Some (concat (map (\<lambda>l. l @ newline) ls))" "\<forall>l\<in>set ls. text_line l"
    and "\<forall>l\<in>set ls. \<not> is_cmd l ''continue'' (Some ''c'')" "file_size d \<le> 0xFFFFFFFC"
  shows "\<exists>r. debug h (total_alloc fresh) (Inl ((False, j), events)) d = Some r"
proof -
  have "\<exists>r. run_lines h ls d = Some r" using assms(3,4)
  proof (induction ls arbitrary: d)
    case (Cons l ls)
    then obtain r where r: "run_command h l d = Some r" "on_ok (\<lambda>p. file_size (snd p) = file_size d) r"
      using run_command_returns [of l d h] by auto
    with Cons show ?case by (cases r) (auto split: if_splits)
  qed simp
  then show ?thesis unfolding session_lines [OF assms(1,2)] .
qed

lemma session_ends_witness:
  "\<exists>r. debug quiet_host (total_alloc (\<lambda>_ _. CHR 0x00))
     (Inl ((False, 0), [Rl_key (Some (Some ''step 5'')), Rl_key (Some (Some ''code'')), Rl_key (Some None)]))
     \<lparr>mach = zero_machine, file_size = 8, breakpoints = [], halted = False\<rparr> = Some r"
  by (rule session_ends [where ls = "[''step 5'', ''code'']"])
    (simp_all add: text_line_def is_cmd_def word_prefix_def)

end
