(* ===== verification/Main_Program.thy ===== *)
theory Main_Program
  imports Typing Dbg_Session Jit_Run
begin

text \<open>
  The whole program (src/main.c): the command line, loading, and one of the three ways to run what
  was loaded: the debugger, the generated code or the interpreter.
\<close>

text \<open>
  The statics at the start: those of cpu.c say that no branch is pending, those of
  device.c that there is no window and no key; jit.c has no code buffer
  and an empty cache; dbg.c has no breakpoints.
\<close>

definition cold_start :: "'w global \<Rightarrow> 'w global" where
  "cold_start g = g\<lparr>cpu_state := (cpu_state g)\<lparr>branch_pending := False, branch_target := 0,
     gpu_ready := False, last_key := 0\<rparr>\<rparr>"

definition initial_jit :: jit where
  "initial_jit = \<lparr>code_buf = None, cache = (\<lambda>_. None)\<rparr>"

definition initial_debugger :: "'w global \<Rightarrow> 'w debugger" where
  "initial_debugger g =
     \<lparr>mach = cpu_state g, file_size = g_file_size g, breakpoints = [], halted = False\<rparr>"

text \<open>Returning from \<open>main\<close>: nothing is registered with \<open>atexit\<close> before the program runs.\<close>

definition exit_process :: "'w host \<Rightarrow> 'w global \<Rightarrow> 'w global" where
  "exit_process h g = g\<lparr>cpu_state := exit_handlers h (cpu_state g)\<rparr>"

text \<open>
  \<open>main\<close>: the exit status and the final state. Its arguments are those of its parts: the host, the
  allocator and the terminal or the piped input of the debugger, the operating system the loader
  asks, the address of \<open>struct global\<close>, the host registers and the success of \<open>mmap\<close> for the
  generated code, the command line, and the uninitialised block \<open>malloc\<close> returns.
\<close>

definition main ::
  "'w host \<Rightarrow> allocator \<Rightarrow> ((bool \<times> int) \<times> rl_event list) + c_file \<Rightarrow> load_env \<Rightarrow> u64 \<Rightarrow> 'w native
    \<Rightarrow> bool \<Rightarrow> string list \<Rightarrow> 'w global \<Rightarrow> (int \<times> 'w global) result option"
where
  "main h alloc input env base s mapped argv g =
     (if length argv < 2
      then Some (Inr (1, g\<lparr>cpu_state := put_stderr (''Usage: '' @ concat (take 1 argv)
        @ '' [-l] [-d] [-j] <path to MIPS executable>'' @ newline) (cpu_state g)\<rparr>))
      else case init_global env (tl argv) (cold_start g) of
        Inl u \<Rightarrow> Some (Inl u)
      | Inr (ok, g) \<Rightarrow>
          if \<not> ok then Some (Inr (1, g))
          else if debug_on g
          then map_option (\<lambda>r. rbind r (\<lambda>d. Inr (0, exit_process h (clean_exit env (g\<lparr>cpu_state := mach d\<rparr>)))))
            (debug h alloc input (initial_debugger g))
          else map_option (\<lambda>r. rbind r (\<lambda>(ret, m).
              let g1 = g\<lparr>cpu_state := m\<rparr>;
                  g2 = (if ret = 1 then log_error ''main.c'' 40 ''Error during execution'' g1 else g1)
              in Inr (0, exit_process h (clean_exit env g2))))
            (if jit_on g
             then map_option (\<lambda>r. rbind r (\<lambda>(ret, j, m). Inr (ret, m)))
               (execute_jit h base s mapped initial_jit (cpu_state g))
             else execute h (cpu_state g)))"

section \<open>Properties\<close>

text \<open>The program's exit, against the machine the interpreter leaves.\<close>

definition ends_as :: "'w host \<Rightarrow> int \<times> 'w global \<Rightarrow> int \<times> 'w machine \<Rightarrow> bool" where
  "ends_as h p q \<longleftrightarrow> fst p = 0 \<and> memory (cpu_state (snd p)) = memory (snd q)
     \<and> reg (cpu_state (snd p)) = reg (snd q) \<and> stdout_chars (cpu_state (snd p)) = stdout_chars (snd q)
     \<and> world (cpu_state (snd p)) = world (exit_handlers h (snd q))"

lemma ends_as_execute:
  "rel_option (rel_sum (=) (ends_as h))
     (map_option (\<lambda>r. rbind r (\<lambda>(ret, m).
        let g1 = g\<lparr>cpu_state := m\<rparr>;
            g2 = (if ret = 1 then log_error ''main.c'' 40 ''Error during execution'' g1 else g1)
        in Inr (0, exit_process h (clean_exit env g2)))) r) r"
proof (cases r)
  case (Some x)
  then show ?thesis
    by (cases x) (auto simp: ends_as_def clean_exit_def exit_process_def exit_handlers_def gpu_shutdown_def
        log_error_def logger_def Let_def)
qed simp



text \<open>
  C3: whatever file is loaded, and with or without \<open>-j\<close>, the program ends exactly as the interpreter
  does on the loaded machine, with the same memory, registers and output; with \<open>-j\<close> this needs that
  the trace flag is off, that the loaded program does not modify the code it executes and that its
  blocks fit in the space the generator reserves.
\<close>

theorem main_ends_as_interpreter:
  assumes "init_global env args (cold_start g) = Inr (True, g')" "args \<noteq> []" "\<not> debug_on g'"
    and "jit_on g' \<Longrightarrow> \<not> log_on (cpu_state g') \<and> code_stable h (cpu_state g')
      \<and> short_blocks h base (cpu_state g')"
  shows "rel_option (rel_sum (=) (ends_as h)) (main h alloc input env base s mapped (name # args) g)
    (execute h (cpu_state g'))"
proof -
  have "reg (cpu_state g') R0 = 0" using init_registers [OF assms(1)] by simp
  then have jit: "outcome (execute_jit h base s mapped initial_jit (cpu_state g')) = execute h (cpu_state g')"
    if "jit_on g'"
    using jit_agrees_or_overruns [of h "cpu_state g'" initial_jit base s mapped] assms(4) [OF that]
    by (simp add: initial_jit_def)
  have "main h alloc input env base s mapped (name # args) g = map_option (\<lambda>r. rbind r (\<lambda>(ret, m).
      let g1 = g'\<lparr>cpu_state := m\<rparr>;
          g2 = (if ret = 1 then log_error ''main.c'' 40 ''Error during execution'' g1 else g1)
      in Inr (0, exit_process h (clean_exit env g2)))) (execute h (cpu_state g'))"
    using assms(1-3) jit [unfolded outcome_def] by (cases args) (simp_all add: main_def)
  with ends_as_execute [of h g' env "execute h (cpu_state g')"] show ?thesis by simp
qed

text \<open>A flat binary that starts with \<open>break\<close>, run with \<open>-j\<close>.\<close>

lemma break_first:
  assumes "word_at (pc g) g = 0x0D"
  shows "code_stable h g" "short_blocks h base g" "\<exists>g'. step_instruction h g = Inr (2, g')"
proof -
  show stop: "\<exists>g'. step_instruction h g = Inr (2, g')"
    using assms by (simp add: step_instruction_def fetch_def word_at_def exec_inst_def exec_decoded_def
        field_defs)
  have run: "g' = g" if "steps (step_instruction h) n g = Some g'" for n g'
    using that stop by (cases n) auto
  have "\<not> overlong base g"
    using assms by (intro few_inlined) (simp add: block_body_stops five_words(4))
  with run show "code_stable h g" "short_blocks h base g"
    unfolding code_stable_def short_blocks_def by blast+
qed

lemma main_ends_as_interpreter_witness:
  "\<forall>s. \<exists>m. memory m 0 = 0x0D \<and> pc m = 0
    \<and> rel_option (rel_sum (=) (ends_as quiet_host))
        (main quiet_host (total_alloc (\<lambda>_ _. CHR 0x00)) (Inl ((False, 0), []))
          (good_env (0x0D # replicate 51 0)) 0x1000 s True [''my_mips'', ''-j'', ''prog''] sample_global)
        (execute quiet_host m)"
proof
  fix s
  let ?env = "good_env (0x0D # replicate 51 0)" and ?args = "[''-j'', ''prog'']"
  have env: "no_failures ?env" "52 \<le> length (contents ?env)" "length (contents ?env) < MEM_SIZE"
    by (simp_all add: no_failures_def good_env_def)
  have header: "\<not> check_header (read_ehdr (take 52 (contents ?env)))"
    by (auto simp: check_header_def read_ehdr_def good_env_def intro!: exI [of _ 0])
  obtain g' where init: "init_global ?env ?args (cold_start sample_global) = Inr (True, g')" and
    image: "\<forall>a. memory (cpu_state g') a
      = (if unat a < length (contents ?env) then contents ?env ! unat a else 0)"
      "pc (cpu_state g') = 0" and
    options: "\<not> debug_on g'" "\<not> log_on (cpu_state g')"
    using flat_loaded [OF env header, of ?args "cold_start sample_global"] by auto
  have bytes: "memory (cpu_state g') 0 = 0x0D" "memory (cpu_state g') 1 = 0"
    "memory (cpu_state g') 2 = 0" "memory (cpu_state g') 3 = 0"
    using image(1) by (simp_all add: good_env_def)
  then have "word_at (pc (cpu_state g')) (cpu_state g') = 0x0D"
    by (simp add: image(2) word_at_def le_word_def)
  from break_first [OF this] options
  have "jit_on g' \<Longrightarrow> \<not> log_on (cpu_state g') \<and> code_stable quiet_host (cpu_state g')
      \<and> short_blocks quiet_host 0x1000 (cpu_state g')" by simp
  from main_ends_as_interpreter [OF init _ options(1) this]
  have "rel_option (rel_sum (=) (ends_as quiet_host))
      (main quiet_host (total_alloc (\<lambda>_ _. CHR 0x00)) (Inl ((False, 0), [])) ?env 0x1000 s True
        (''my_mips'' # ?args) sample_global) (execute quiet_host (cpu_state g'))" by blast
  with bytes(1) image(2) show "\<exists>m. memory m 0 = 0x0D \<and> pc m = 0
      \<and> rel_option (rel_sum (=) (ends_as quiet_host))
        (main quiet_host (total_alloc (\<lambda>_ _. CHR 0x00)) (Inl ((False, 0), [])) ?env 0x1000 s True
          [''my_mips'', ''-j'', ''prog''] sample_global) (execute quiet_host m)" by blast
qed

section \<open>Under the debugger\<close>

text \<open>What the debugger prints goes to the same stream as the program's output, which is left out.\<close>

definition ends_apart_from_output :: "'w host \<Rightarrow> int \<times> 'w global \<Rightarrow> int \<times> 'w machine \<Rightarrow> bool" where
  "ends_apart_from_output h p q \<longleftrightarrow> fst p = 0 \<and> memory (cpu_state (snd p)) = memory (snd q)
     \<and> reg (cpu_state (snd p)) = reg (snd q) \<and> pc (cpu_state (snd p)) = pc (snd q)
     \<and> stdin_chars (cpu_state (snd p)) = stdin_chars (snd q)
     \<and> world (cpu_state (snd p)) = world (exit_handlers h (snd q))"

lemma silent_fields:
  assumes "silent g = silent g'"
  shows "memory g = memory g'" "reg g = reg g'" "pc g = pc g'" "stdin_chars g = stdin_chars g'"
    "world g = world g'" "gpu_ready g = gpu_ready g'"
  using assms by (cases g; cases g'; simp add: silent_def)+

lemma continue_and_quit:
  "run_lines h [''c'', ''q''] d = do_continue h d"
proof -
  have c: "run_command h ''c'' d = map_option (\<lambda>r. rbind r (\<lambda>d'. Inr (False, d'))) (do_continue h d)"
    by (simp add: run_command_def is_cmd_def word_prefix_def)
  have q: "run_command h ''q'' d' = Some (Inr (True, d'))" for d'
    by (simp add: run_command_def is_cmd_def word_prefix_def)
  show ?thesis
  proof (cases "do_continue h d")
    case (Some r)
    then show ?thesis by (cases r) (simp_all add: c q)
  qed (simp add: c)
qed

text \<open>
  C4: with \<open>-d\<close> on a terminal, a session that types \<open>c\<close> and \<open>q\<close> makes the program end exactly as the
  interpreter does from the loaded machine, with the same memory, registers, program counter,
  remaining input and effects outside, and the exit status 0; only the text on stdout is different.
\<close>

theorem main_debugged_ends_as_interpreter:
  assumes "init_global env args (cold_start g) = Inr (True, g')" "args \<noteq> []" "debug_on g'"
    and "typed events = Some (''c'' @ newline @ ''q'' @ newline)"
  shows "rel_option (rel_sum (=) (ends_apart_from_output h))
    (main h (total_alloc fresh) (Inl ((False, j), events)) env base s mapped (name # args) g)
    (execute h (cpu_state g'))"
proof -
  let ?d = "initial_debugger g'"
  have "debug h (total_alloc fresh) (Inl ((False, j), events)) ?d = do_continue h ?d"
    unfolding continue_and_quit [symmetric]
    using assms(4) by (intro session_lines) (simp_all add: text_line_def)
  then have main: "main h (total_alloc fresh) (Inl ((False, j), events)) env base s mapped (name # args) g
      = map_option (\<lambda>r. rbind r (\<lambda>d. Inr (0, exit_process h (clean_exit env (g'\<lparr>cpu_state := mach d\<rparr>)))))
        (do_continue h ?d)"
    using assms(1-3) by (cases args) (simp_all add: main_def)
  have ends: "ends_apart_from_output h (0, exit_process h (clean_exit env (g'\<lparr>cpu_state := mach d\<rparr>))) (status, m)"
    if "silent (mach d) = silent m" for d and m :: "'a machine" and status
    using silent_fields [OF that]
    by (auto simp: ends_apart_from_output_def clean_exit_def exit_process_def exit_handlers_def gpu_shutdown_def
        log_error_def logger_def)
  have "rel_option (rel_sum (=) (\<lambda>d' (status, m). silent (mach d') = silent m \<and> breakpoints d' = []))
      (do_continue h ?d) (execute h (cpu_state g'))"
    using continue_executes [of ?d h] by (simp add: initial_debugger_def)
  then show ?thesis
    unfolding main option.rel_map
    by (rule option.rel_mono_strong) (auto elim!: rel_sum.cases intro!: ends)
qed

lemma main_debugged_ends_as_interpreter_witness:
  "\<forall>s. \<exists>m. memory m 51 = 7 \<and> pc m = 0
    \<and> rel_option (rel_sum (=) (ends_apart_from_output quiet_host))
        (main quiet_host (total_alloc (\<lambda>_ _. CHR 0x00))
          (Inl ((False, 0), [Rl_key None, Rl_key (Some (Some ''c'')), Rl_key (Some (Some ''q'')), Rl_key (Some None)]))
          (good_env (replicate 52 7)) 0 s False [''my_mips'', ''-d'', ''prog''] sample_global)
        (execute quiet_host m)"
proof
  fix s
  let ?env = "good_env (replicate 52 7)" and ?args = "[''-d'', ''prog'']"
  let ?events = "[Rl_key None, Rl_key (Some (Some ''c'')), Rl_key (Some (Some ''q'')), Rl_key (Some None)]"
  have env: "no_failures ?env" "52 \<le> length (contents ?env)" "length (contents ?env) < MEM_SIZE"
    by (simp_all add: no_failures_def good_env_def)
  have header: "\<not> check_header (read_ehdr (take 52 (contents ?env)))"
    by (auto simp: check_header_def read_ehdr_def good_env_def intro!: exI [of _ 0])
  obtain g' where init: "init_global ?env ?args (cold_start sample_global) = Inr (True, g')" and
    image: "\<forall>a. memory (cpu_state g') a
      = (if unat a < length (contents ?env) then contents ?env ! unat a else 0)"
      "pc (cpu_state g') = 0" and option: "debug_on g'"
    using flat_loaded [OF env header, of ?args "cold_start sample_global"] by auto
  have "memory (cpu_state g') 51 = 7" using image(1) by (simp add: good_env_def)
  moreover have "rel_option (rel_sum (=) (ends_apart_from_output quiet_host))
      (main quiet_host (total_alloc (\<lambda>_ _. CHR 0x00)) (Inl ((False, 0), ?events)) ?env 0 s False
        (''my_mips'' # ?args) sample_global) (execute quiet_host (cpu_state g'))"
    by (rule main_debugged_ends_as_interpreter [OF init _ option]) simp_all
  ultimately show "\<exists>m. memory m 51 = 7 \<and> pc m = 0
      \<and> rel_option (rel_sum (=) (ends_apart_from_output quiet_host))
        (main quiet_host (total_alloc (\<lambda>_ _. CHR 0x00)) (Inl ((False, 0), ?events)) ?env 0 s False
          [''my_mips'', ''-d'', ''prog''] sample_global) (execute quiet_host m)" using image(2) by blast
qed

end
