(* ===== verification/Dbg_Invariant.thy ===== *)
theory Dbg_Invariant
  imports Dbg_Session
begin

text \<open>
  What holds in every state a debugging session can reach, by whatever commands: a transition
  system whose steps are commands, and an invariant by rule induction.
\<close>

inductive dbg_reaches :: "'w host \<Rightarrow> 'w debugger \<Rightarrow> 'w debugger \<Rightarrow> bool" for h where
  start: "dbg_reaches h d d"
| command: "dbg_reaches h d e \<Longrightarrow> run_command h l e = Some (Inr (quit, e')) \<Longrightarrow> dbg_reaches h d e'"

text \<open>A session ends in a state its commands reach.\<close>

lemma run_lines_reaches:
  "dbg_reaches h d0 d \<Longrightarrow> run_lines h ls d = Some (Inr d') \<Longrightarrow> dbg_reaches h d0 d'"
proof (induction ls arbitrary: d)
  case (Cons l ls)
  then show ?case
    by (auto split: if_splits option.splits sum.splits) (blast intro: dbg_reaches.command)+
qed simp

text \<open>The invariant, and what a finished program keeps.\<close>

definition dbg_inv :: "'w debugger \<Rightarrow> bool" where
  "dbg_inv d \<longleftrightarrow> bp_ok d \<and> reg (mach d) R0 = 0"

definition finished_as :: "'w debugger \<Rightarrow> 'w debugger \<Rightarrow> bool" where
  "finished_as d d' \<longleftrightarrow> (halted d \<longrightarrow> halted d' \<and> silent (mach d') = silent (mach d))"

definition command_keeps :: "'w debugger \<Rightarrow> 'w debugger \<Rightarrow> bool" where
  "command_keeps d d' \<longleftrightarrow> (dbg_inv d \<longrightarrow> dbg_inv d') \<and> finished_as d d'"

lemma dbg_inv_say [simp]: "dbg_inv (say s d) = dbg_inv d"
  by (simp add: dbg_inv_def bp_ok_def say_def)

lemma command_keeps_say [simp]: "command_keeps d (say s d') = command_keeps d d'" "command_keeps d d"
  by (simp_all add: command_keeps_def finished_as_def)

lemma mach_breakpoints [simp]:
  "silent (mach (bp_add a d)) = silent (mach d)" "silent (mach (bp_delete a d)) = silent (mach d)"
  "halted (bp_add a d) = halted d" "halted (bp_delete a d) = halted d"
  "reg (mach (bp_add a d)) = reg (mach d)" "reg (mach (bp_delete a d)) = reg (mach d)"
  by (simp_all add: bp_add_def bp_delete_def say_def Let_def split: option.split)

lemma command_keeps_listings [simp]:
  "command_keeps d (bp_add a d)" "command_keeps d (bp_delete a d)" "command_keeps d (bp_list d)"
  "command_keeps d (print_registers d)" "command_keeps d (print_word a d)"
  "command_keeps d (dump_memory a n d)" "command_keeps d (help_debug d)"
proof -
  show "command_keeps d (bp_add a d)" "command_keeps d (bp_delete a d)"
    using bps.add [of d a] bps.delete [of d a]
    by (auto simp: command_keeps_def dbg_inv_def finished_as_def)
qed (simp_all add: bp_list_def print_registers_def print_word_def dump_memory_def help_debug_def Let_def)

lemma parse_addr_result:
  "(\<exists>s. parse_addr l d = (None, say s d)) \<or> (\<exists>a. parse_addr l d = (Some a, d))"
  by (auto simp: parse_addr_def Let_def case_prod_beta split: option.split)

lemma command_keeps_addr:
  assumes "\<And>a. command_keeps d (f a d)"
  shows "command_keeps d (with_addr l f d)"
  using parse_addr_result [of l d] assms by (auto simp: with_addr_def)

section \<open>Execution keeps it\<close>

lemma do_step_inv:
  assumes "dbg_inv d" "do_step h d = Inr (ret, d')"
  shows "dbg_inv d'"
proof (cases "halted d")
  case True
  with assms show ?thesis by (auto simp: do_step_def)
next
  case False
  let ?d = "trace_instr (pc (mach d)) d"
  from False assms(2) obtain g where g: "step_instruction h (mach ?d) = Inr (ret, g)"
    and d': "d' = ?d\<lparr>mach := g\<rparr> \<or> (\<exists>s. d' = say s (?d\<lparr>mach := g\<rparr>)\<lparr>halted := True\<rparr>)"
    by (auto simp: do_step_def Let_def rbind_Inr_iff split: if_splits)
  have "dbg_inv ?d" using assms(1) by (simp add: trace_instr_def)
  then have "dbg_inv (?d\<lparr>mach := g\<rparr>)"
    using cpu.step_inv [OF _ g] by (simp add: dbg_inv_def bp_ok_def)
  with d' show ?thesis by (auto simp: dbg_inv_def bp_ok_def say_def)
qed

interpretation stepping: stepper "do_step h" dbg_inv for h :: "'w host"
  by unfold_locales (rule do_step_inv)

interpretation continuing: stepper "continue_round h" dbg_inv for h :: "'w host"
  by unfold_locales
    (auto simp: continue_round_def rbind_Inr_iff dest: stepping.step_inv split: if_splits)

lemma do_steps_keep: "do_steps h n d = Inr d' \<Longrightarrow> command_keeps d d'"
proof (induction n arbitrary: d)
  case (Suc n)
  show ?case
  proof (cases "halted d")
    case True
    with Suc.prems show ?thesis by simp
  next
    case False
    with Suc.prems obtain ret e where e: "do_step h d = Inr (ret, e)" "do_steps h n e = Inr d'"
      by (auto simp: rbind_Inr_iff)
    with Suc.IH [OF e(2)] stepping.step_inv [OF _ e(1)] False show ?thesis
      by (auto simp: command_keeps_def finished_as_def)
  qed
qed simp

lemma do_continue_keeps:
  assumes "do_continue h d = Some (Inr d')"
  shows "command_keeps d d'"
proof (cases "halted d")
  case True
  with assms show ?thesis by (auto simp: do_continue_def)
next
  case False
  with assms obtain ret where "loop (continue_round h) d = Some (Inr (ret, d'))"
    by (auto simp: do_continue_def rbind_Inr_iff)
  then obtain n e where "steps (continue_round h) n d = Some e" "stops (continue_round h e) = Some (Inr (ret, d'))"
    unfolding continue.left.loop_iff by blast
  then have "dbg_inv d \<longrightarrow> dbg_inv d'"
    using continuing.steps_inv continuing.stops_inv by blast
  with False show ?thesis by (simp add: command_keeps_def finished_as_def)
qed

definition result_keeps :: "'w debugger \<Rightarrow> (bool \<times> 'w debugger) result option \<Rightarrow> bool" where
  "result_keeps d r \<longleftrightarrow> (\<forall>quit d'. r = Some (Inr (quit, d')) \<longrightarrow> command_keeps d d')"

lemma result_keeps_intros:
  "command_keeps d d' \<Longrightarrow> result_keeps d (Some (Inr (quit, d')))"
  "result_keeps d (Some (rbind (do_steps h n d) (\<lambda>d'. Inr (False, d'))))"
  "result_keeps d (map_option (\<lambda>r. rbind r (\<lambda>d'. Inr (False, d'))) (do_continue h d))"
  "result_keeps d (map_option (\<lambda>d'. Inr (False, d')) (print_code d))"
  by (auto simp: result_keeps_def rbind_Inr_iff code_listing_eq dest: do_steps_keep do_continue_keeps)

lemma if_keeps: "result_keeps d x \<Longrightarrow> result_keeps d y \<Longrightarrow> result_keeps d (if c then x else y)"
  by simp

lemma run_command_keeps: "result_keeps d (run_command h l d)"
  unfolding run_command_def Let_def
  by (intro if_keeps result_keeps_intros command_keeps_addr command_keeps_listings) simp_all

lemma reaches_keeps:
  assumes "dbg_reaches h d e"
  shows "command_keeps d e"
  using assms
proof (induction rule: dbg_reaches.induct)
  case (command d e l quit e')
  then show ?case
    using run_command_keeps [of e h l]
    by (auto simp: result_keeps_def command_keeps_def finished_as_def)
qed simp

text \<open>
  C17: in every state that commands can reach, in any order and with any arguments, the breakpoints
  are at most 128 distinct addresses and register 0 is zero; and once the program has finished it
  stays finished, no command changing anything of the machine but the text on stdout.
\<close>

theorem debugger_invariant:
  assumes "dbg_reaches h d e"
  shows "(bp_ok d \<and> reg (mach d) R0 = 0 \<longrightarrow> bp_ok e \<and> reg (mach e) R0 = 0)
    \<and> (halted d \<longrightarrow> halted e \<and> silent (mach e) = silent (mach d))"
  using reaches_keeps [OF assms] by (auto simp: command_keeps_def dbg_inv_def finished_as_def)

lemma debugger_invariant_witness:
  "\<exists>e. dbg_reaches quiet_host \<lparr>mach = zero_machine, file_size = 0, breakpoints = [], halted = False\<rparr> e
     \<and> breakpoints e = [8] \<and> bp_ok e"
proof -
  let ?d = "\<lparr>mach = zero_machine, file_size = 0, breakpoints = [], halted = False\<rparr>"
  have "strtou32 ''8'' 16 = (8, 0)"
    using strtou32_digits [of "[]" "''8''" 8]
    by (simp add: digit_in_def alnum_value_def number_value_def)
  then have "run_command quiet_host ''b 8'' ?d = Some (Inr (False, bp_add 8 ?d))"
    by (simp add: run_command_def is_cmd_def word_prefix_def with_addr_def parse_addr_def cmd_arg_def)
  then have reach: "dbg_reaches quiet_host ?d (bp_add 8 ?d)"
    by (rule dbg_reaches.command [OF dbg_reaches.start])
  have "bp_ok ?d" "reg (mach ?d) R0 = 0" by (simp_all add: bp_ok_def zero_machine_def)
  with debugger_invariant [OF reach] have "bp_ok (bp_add 8 ?d)" by blast
  moreover have "breakpoints (bp_add 8 ?d) = [8]" by (simp add: bp_add_breakpoints)
  ultimately show ?thesis using reach by blast
qed

end
