(* ===== verification/Test_Programs.thy ===== *)
theory Test_Programs
  imports Control
begin

text \<open>
  Test programs of the repository (test/, the assembler files), executed by the model of the interpreter:
  each prints what test/test.json expects and ends cleanly. The words are the programs assembled, with
  test/c/crt.s and test/c/stdlib.s in front as the linker script has it. The runs are evaluated by
  rewriting; the sequence that prints a line is a lemma, which the runs use as one step.
\<close>

section \<open>Images of programs\<close>

fun program_image :: "u32 \<Rightarrow> u32 list \<Rightarrow> u32 \<Rightarrow> u8" where
  "program_image a [] = (\<lambda>_. 0)"
| "program_image a (w # ws) = le_update a w (program_image (a + 4) ws)"

fun holds :: "(u32 \<Rightarrow> u8) \<Rightarrow> u32 \<Rightarrow> u32 list \<Rightarrow> bool" where
  "holds m a [] \<longleftrightarrow> True"
| "holds m a (w # ws) \<longleftrightarrow> le_word m a = w \<and> holds m (a + 4) ws"

lemma apart_later:
  assumes "n < 0x1000"
  shows "apart a (a + 4 + 4 * of_nat n)"
proof -
  define k :: u32 where "k = of_nat (4 + 4 * n)"
  have unat: "unat (of_nat m :: u32) = m" if "m < 2 ^ 32" for m using that by (simp add: unat_of_nat)
  have k: "unat k = 4 + 4 * n" unfolding k_def by (rule unat) (use assms in simp)
  then have c: "uint k = int (4 + 4 * n)" by (metis uint_nat)
  have "uint (- k) = (- int (4 + 4 * n)) mod 2 ^ 32" by (simp add: uint_word_ariths c)
  also have "\<dots> = (2 ^ 32 - int (4 + 4 * n)) mod 2 ^ 32" by (rule minus_mod_self1 [symmetric])
  also have "\<dots> = 2 ^ 32 - int (4 + 4 * n)" using assms by (intro mod_pos_pos_trivial) simp_all
  finally have "4 \<le> k \<and> 4 \<le> - k" using assms c by (simp add: word_le_def)
  then have "apart a (a + k)" by (simp add: apart_def)
  then show ?thesis by (simp add: k_def add.assoc)
qed

lemma holds_update:
  assumes "\<And>n. n < length ws \<Longrightarrow> apart b (a + 4 * of_nat n)"
  shows "holds (le_update b v m) a ws = holds m a ws"
  using assms
proof (induction ws arbitrary: a)
  case (Cons w ws)
  have "apart b a" using Cons.prems [of 0] by simp
  moreover have "apart b (a + 4 + 4 * of_nat n)" if "n < length ws" for n
    using Cons.prems [of "Suc n"] that by (simp add: algebra_simps)
  ultimately show ?case using Cons.IH [of "a + 4"] by (simp add: le_word_update_apart)
qed simp

lemma holds_image: "length ws < 0x1000 \<Longrightarrow> holds (program_image a ws) a ws"
proof (induction ws arbitrary: a)
  case (Cons w ws)
  have "holds (le_update a w (program_image (a + 4) ws)) (a + 4) ws = holds (program_image (a + 4) ws) (a + 4) ws"
    using Cons.prems by (intro holds_update apart_later) simp
  with Cons show ?case by (simp add: le_word_update_same)
qed simp

lemma holds_append: "holds m a (xs @ ys) \<longleftrightarrow> holds m a xs \<and> holds m (a + 4 * of_nat (length xs)) ys"
  by (induction xs arbitrary: a) (simp_all add: algebra_simps)

lemma image_outside: "4 * length ws \<le> unat (b - a) \<Longrightarrow> program_image a ws b = 0"
proof (induction ws arbitrary: a)
  case (Cons w ws)
  have le: "4 \<le> b - a" using Cons.prems by (simp add: word_le_nat_alt)
  then have "unat (b - a - 4) = unat (b - a) - 4" by (simp add: unat_sub)
  then have "4 * length ws \<le> unat (b - (a + 4))" using Cons.prems by (simp add: diff_diff_eq)
  then show ?case using Cons.IH [of "a + 4"] le by (simp add: le_update_other)
qed simp

section \<open>The library the programs are linked with\<close>

text \<open>test/c/crt.s and test/c/stdlib.s, up to 0x100, where every program starts.\<close>

definition runtime :: "u32 list" where
  "runtime =
    [0x0C000040, 0, 0x3402000A, 0x0000000C, 0x34020001, 0x0000000C, 0x03E00008, 0, 0,
     0x34020004, 0x0000000C, 0x03E00008, 0, 0, 0x34020005, 0x0000000C, 0x03E00008, 0, 0,
     0x34020008, 0x0000000C, 0x03E00008, 0, 0, 0x3402000A, 0x0000000C, 0x03E00008, 0, 0,
     0x3402000B, 0x0000000C, 0x03E00008, 0, 0, 0x3402000C, 0x0000000C, 0x03E00008, 0, 0,
     0x3402000D, 0x0000000C, 0x03E00008, 0, 0, 0x3402000E, 0x0000000C, 0x03E00008, 0, 0,
     0x3402000F, 0x0000000C, 0x03E00008, 0, 0, 0x34020010, 0x0000000C, 0x03E00008, 0, 0,
     0x34020011, 0x0000000C, 0x03E00008, 0, 0]"

lemma runtime_length: "length runtime = 64"
  by (simp add: runtime_def)

lemma program_holds:
  assumes "length p < 0x300"
  shows "runtime = ws \<Longrightarrow> holds (program_image 0 (runtime @ p)) 0 ws"
    and "p = ws \<Longrightarrow> holds (program_image 0 (runtime @ p)) 0x100 ws"
  using holds_image [of "runtime @ p" 0] assms by (simp_all add: holds_append runtime_length)

lemmas runtime_code = program_holds(1) [OF _ runtime_def, simplified]

lemma image_stack:
  assumes "length p < 0x300" "0x1000 \<le> b"
  shows "program_image 0 (runtime @ p) b = 0"
    and "b \<le> 0xFFFFFFFC \<Longrightarrow> le_word (program_image 0 (runtime @ p)) b = 0"
proof -
  have zero: "program_image 0 (runtime @ p) c = 0" if "0x1000 \<le> c" for c
    using that assms(1) by (intro image_outside) (simp add: runtime_length word_le_nat_alt)
  then show "program_image 0 (runtime @ p) b = 0" using assms(2) .
  assume b: "b \<le> 0xFFFFFFFC"
  have "0x1000 \<le> b + k" if "k \<le> 3" for k
    using that assms(2) b by (simp add: word_le_nat_alt unat_plus_if_size word_size)
  then show "le_word (program_image 0 (runtime @ p)) b = 0" using assms(2) by (simp add: le_word_def zero)
qed

section \<open>Evaluation\<close>

text \<open>The loaded machine, and what its run prints; it has to end cleanly and print no error.\<close>

definition boot :: "u32 list \<Rightarrow> string \<Rightarrow> unit machine" where
  "boot p inp = zero_machine\<lparr>memory := program_image 0 (runtime @ p), reg := (\<lambda>_. 0)(SP := 0xFFFFFFFC),
     stdin_chars := inp\<rparr>"

definition prints :: "u32 list \<Rightarrow> string \<Rightarrow> string \<Rightarrow> bool" where
  "prints p inp out \<longleftrightarrow> (case execute quiet_host (boot p inp) of
      Some (Inr (ret, g)) \<Rightarrow> ret = 0 \<and> stdout_chars g = out \<and> stderr_chars g = []
    | _ \<Rightarrow> False)"

definition lines :: "string list \<Rightarrow> string" where
  "lines ls = concat (map (\<lambda>l. l @ [CHR 0x0A]) ls)"

text \<open>
  Rules that evaluate arguments before bodies: only the chosen case of a \<open>switch\<close>, and a \<open>let\<close> when its
  value is there.
\<close>

lemma switch_pair: "switch k ((l, v) # cs) d = (if k = l then v else switch k cs d)"
  by simp

lemma switch_weak_cong: "k = k' \<Longrightarrow> switch k cs d = switch k' cs d"
  by simp

lemma rbind_weak_cong: "r = r' \<Longrightarrow> rbind r f = rbind r' f"
  by simp

lemmas run_congs = switch_weak_cong rbind_weak_cong let_weak_cong

lemma let_values:
  "Let True f1 = f1 True" "Let False f1 = f1 False"
  "Let (- numeral n :: 'n :: {numeral, uminus}) f2 = f2 (- numeral n)"
  "Let (machine.machine_ext a b c d e f g h i j k l m n' p q r) f3
     = f3 (machine.machine_ext a b c d e f g h i j k l m n' p q r)"
  "Let (u, v) f4 = f4 (u, v)" "Let (Inr x) f5 = f5 (Inr x)" "Let (Inl x) f6 = f6 (Inl x)"
  "Let (Fin s' m' e') f7 = f7 (Fin s' m' e')"
  by simp_all

lemma le_word_poke:
  fixes x a :: u32
  shows
  "4 \<le> x - a \<Longrightarrow> le_word (m(x := v)) a = le_word m a"
  "\<not> 4 \<le> x - a \<Longrightarrow> le_word (m(x := v)) a = ucast ((m(x := v)) a) OR push_bit 8 (ucast ((m(x := v)) (a + 1)))
     OR push_bit 16 (ucast ((m(x := v)) (a + 2))) OR push_bit 24 (ucast ((m(x := v)) (a + 3)))"
proof -
  assume far: "4 \<le> x - a"
  have "x \<noteq> a" "x \<noteq> a + 1" "x \<noteq> a + 2" "x \<noteq> a + 3" using far by (auto simp: word_le_nat_alt)
  then show "le_word (m(x := v)) a = le_word m a" by (simp add: le_word_def)
qed (simp only: le_word_def)

lemma chars: "char_of (10 :: nat) = CHR 0x0A" "char_of (65 :: nat) = CHR ''A''" "char_of (66 :: nat) = CHR ''B''"
  "char_of (90 :: nat) = CHR ''Z''"
  by code_simp+

lemma quiet_fields: "\<not> have_sdl quiet_host" "nan_single quiet_host i ops = 0x7FC00000"
  "nan_double quiet_host i ops = 0x7FF8000000000000"
  by (simp_all add: quiet_host_def)

lemmas eval_simps = switch_pair
  step_instruction_def fetch_def exec_inst_def exec_decoded_def exec_register_def exec_immediate_def
  exec_special2_def exec_regimm_def exec_jump_def finish_def finish_r0_def schedule_branch_def pc_step_def
  branch_dest_def call_syscall_def print_int_def print_char_def char_of_byte_def read_char_def byte_of_def
  let_values field_defs add_instr_def sub_instr_def addi_instr_def mult_instr_def multu_instr_def div_instr_def
  divu_instr_def accumulate_def set_hilo_def acc_s64_def acc_u64_def clz_loop.simps clo_loop.simps
  set_reg_def set_fpr_def put_stdout_def put_stderr_def sreg_def fits_signed_def
  mem_addr_def load_byte_def load_half_def load_word_def store_byte_def store_half_def store_word_def poke_def
  device_load_word_def device_store_word_def quiet_fields word_align_def lwl_merge_def lwr_merge_def
  swl_merge_def swr_merge_def exec_lwl_def exec_lwr_def exec_swl_def exec_swr_def le_word_poke
  exec_cop1_def exec_cop1_ldst_def fp_single_def fp_double_def fp_word_def getf_def setf_def getw_def setw_def
  getd_def setd_def set_cond_def f32_def f64_def to_f32_def to_f64_def fp_to_int32_def fp_decode_def
  fp_encode_def fp_bias_def fp_emin_def bitlen.simps round_at_def fp_round_def fp_int_def fp_align_def
  fp_sub_def isqrt.simps fp_le_def fp_of_int_def

lemma loop_steps: "steps f n s = Some s' \<Longrightarrow> loop f s = loop f s'"
proof (induction n arbitrary: s)
  case (Suc n)
  then obtain s1 where s1: "f s = Inr (0, s1)" "steps f n s1 = Some s'"
    by (auto split: sum.splits if_splits)
  then have "loop f s = loop f s1" by (subst loop.simps) simp
  with Suc.IH [OF s1(2)] show ?case by simp
qed simp

lemma steps_numeral: "steps f (numeral k) s =
     (case f s of Inl u \<Rightarrow> None | Inr (ret, s') \<Rightarrow> if ret = 0 then steps f (pred_numeral k) s' else None)"
  by (simp add: numeral_eq_Suc)

lemma aligned_index:
  fixes x :: u32
  assumes "x AND 3 = 0"
  shows "4 * (x div 4) = x" "4 * ((x + 4) div 4) = x + 4" "4 * ((x + 8) div 4) = x + 8"
    "4 * ((x + 12) div 4) = x + 12" "4 * ((x + 16) div 4) = x + 16"
proof -
  have index: "4 * ((x + y) div 4) = x + y" if "y AND 3 = 0" for y
  proof -
    have "(x + y) AND mask 2 = ((x AND mask 2) + (y AND mask 2)) AND mask 2" by (simp only: mask_eqs)
    then have "(x + y) AND mask 2 = 0" using assms that by (simp add: mask_eq_exp_minus_1)
    then have "(x + y) mod 4 = 0" by (simp add: take_bit_eq_mask [symmetric] take_bit_eq_mod)
    then show ?thesis using mult_div_mod_eq [of 4 "x + y"] by simp
  qed
  show "4 * (x div 4) = x" "4 * ((x + 4) div 4) = x + 4" "4 * ((x + 8) div 4) = x + 8"
    "4 * ((x + 12) div 4) = x + 12" "4 * ((x + 16) div 4) = x + 16"
    using index [of 0] index [of 4] index [of 8] index [of 12] index [of 16] by simp_all
qed

text \<open>
  \<open>jal print_int\<close>, \<open>jal nl\<close>: the routine of test/c/stdlib.s and the one most programs end with, thirteen
  instructions that print \<open>$a0\<close> on a line.
\<close>

abbreviation "running r hi' lo' fr fc m p b t gr k inp out err \<equiv>
  machine.machine_ext r hi' lo' fr fc m p False b t gr k inp out err () ()"

lemma print_line:
  fixes r :: "u8 \<Rightarrow> u32"
  assumes "le_word m p = 0x0C000004" "le_word m (p + 4) = 0" "le_word m (p + 8) = w" "le_word m (p + 12) = 0"
    and "op w = OP_JAL" "push_bit 2 w AND 0x0FFFFFFC = n" "w \<noteq> 0"
    and "le_word m 0x10 = 0x34020001" "le_word m 0x14 = 0x0C" "le_word m 0x18 = 0x03E00008" "le_word m 0x1C = 0"
    and "le_word m n = 0x3404000A" "le_word m (n + 4) = 0x3402000B" "le_word m (n + 8) = 0x0C"
      "le_word m (n + 12) = 0x03E00008" "le_word m (n + 16) = 0"
    and "r R0 = 0" "p AND 0xF0000000 = 0" "(p + 8) AND 0xF0000000 = 0" "p AND 3 = 0" "n AND 3 = 0"
  shows "loop (step_instruction quiet_host) (running r hi' lo' fr fc m p False bt gr k inp out err)
    = loop (step_instruction quiet_host) (running (r(RA := 16 + p, A0 := 10, V0 := 11, R0 := 0)) hi' lo' fr fc m
        (16 + p) False (16 + p) gr k inp (out @ fmt_d (sint (r A0)) @ [CHR 0x0A]) err)"
proof (rule loop_steps [where n = 13])
  have lets: "Let (x + p) f = f (x + p)" "Let (x + n) f = f (x + n)" "Let p f = f p" "Let w f = f w"
    "Let n f = f n" "Let (p + x) f = f (p + x)" "Let (n + x) f = f (n + x)" "Let (r y) f = f (r y)"
    for x y and f :: "u32 \<Rightarrow> 'b"
    by simp_all
  note code = assms(1-4,7-17) assms(1-19) [unfolded add.commute [of p] add.commute [of n]]
    assms(5,6) [unfolded field_defs]
  note index = aligned_index aligned_index [unfolded add.commute [of _ "numeral _"]]
  show "steps (step_instruction quiet_host) 13 (running r hi' lo' fr fc m p False bt gr k inp out err)
    = Some (running (r(RA := 16 + p, A0 := 10, V0 := 11, R0 := 0)) hi' lo' fr fc m
        (16 + p) False (16 + p) gr k inp (out @ fmt_d (sint (r A0)) @ [CHR 0x0A]) err)"
    using assms(20,21)
    by (simp add: steps_numeral eval_simps chars code assms(18,19) index lets
        cong: run_congs del: switch.simps(2))
qed

text \<open>The loop, one instruction at a time but for such lines.\<close>

lemma loop_next:
  assumes "\<not> (le_word m p = 0x0C000004 \<and> op (le_word m (p + 8)) = OP_JAL)"
  shows "loop (step_instruction h) (running r hi' lo' fr fc m p b t gr k inp out err) =
    (case step_instruction h (running r hi' lo' fr fc m p b t gr k inp out err) of
        Inl u \<Rightarrow> Some (Inl u)
      | Inr (ret, s') \<Rightarrow>
          if ret = 1 then Some (Inr (1, s'))
          else if ret = 2 then Some (Inr (0, s'))
          else loop (step_instruction h) s')"
  by (rule loop.simps)

lemmas run_simps = prints_def boot_def zero_machine_def execute_def lines_def eval_simps loop_next
  print_line [OF _ _ refl _ _ refl] image_stack fmt_d_def show_base.simps digit_char_def chars runtime_code

declare switch.simps(2) [simp del]

section \<open>The programs\<close>

text \<open>test/add.s.\<close>

definition add_exe :: "u32 list" where
  "add_exe =
    [0x34080042, 0x34090024, 0x01092020, 0x0C000004, 0, 0x08000018, 0]"

lemma add_length: "length add_exe < 0x300"
  by (simp add: add_exe_def)

lemmas add_code = program_holds(2) [OF add_length add_exe_def, simplified]

lemma test_add: "prints add_exe [] (''102'')"
  by (simp add: run_simps add_length add_code cong: run_congs)

text \<open>test/addu.s.\<close>

definition addu_exe :: "u32 list" where
  "addu_exe =
    [0x34080042, 0x34090024, 0x01092021, 0x0C000004, 0, 0x08000018, 0]"

lemma addu_length: "length addu_exe < 0x300"
  by (simp add: addu_exe_def)

lemmas addu_code = program_holds(2) [OF addu_length addu_exe_def, simplified]

lemma test_addu: "prints addu_exe [] (''102'')"
  by (simp add: run_simps addu_length addu_code cong: run_congs)

text \<open>test/sub.s.\<close>

definition sub_exe :: "u32 list" where
  "sub_exe =
    [0x34080042, 0x34090024, 0x01282022, 0x0C000004, 0, 0x08000018, 0]"

lemma sub_length: "length sub_exe < 0x300"
  by (simp add: sub_exe_def)

lemmas sub_code = program_holds(2) [OF sub_length sub_exe_def, simplified]

lemma test_sub: "prints sub_exe [] (''-30'')"
  by (simp add: run_simps sub_length sub_code cong: run_congs)

text \<open>test/logic.s.\<close>

definition logic_exe :: "u32 list" where
  "logic_exe =
    [0x340800F0, 0x3409003C, 0x01092024, 0x0C000004, 0, 0x0C00006A, 0, 0x340800F0, 0x3409000C,
     0x01092025, 0x0C000004, 0, 0x0C00006A, 0, 0x340800FF, 0x3409000F, 0x01092026, 0x0C000004,
     0, 0x0C00006A, 0, 0x3408000F, 0x340900F0, 0x01092027, 0x0C000004, 0, 0x0C00006A, 0,
     0x340800FF, 0x3104000F, 0x0C000004, 0, 0x0C00006A, 0, 0x340800FF, 0x390400F0, 0x0C000004,
     0, 0x0C00006A, 0, 0x08000018, 0, 0x3404000A, 0x3402000B, 0x0000000C, 0x03E00008, 0, 0]"

lemma logic_length: "length logic_exe < 0x300"
  by (simp add: logic_exe_def)

lemmas logic_code = program_holds(2) [OF logic_length logic_exe_def, simplified]

lemma test_logic: "prints logic_exe [] (lines [''48'', ''252'', ''240'', ''-256'', ''15'', ''15''])"
  by (simp add: run_simps logic_length logic_code cong: run_congs)

text \<open>test/shift.s.\<close>

definition shift_exe :: "u32 list" where
  "shift_exe =
    [0x34080001, 0x00082100, 0x0C000004, 0, 0x0C000069, 0, 0x34080080, 0x00082102, 0x0C000004,
     0, 0x0C000069, 0, 0x2008FFF0, 0x00082083, 0x0C000004, 0, 0x0C000069, 0, 0x34080003,
     0x34090005, 0x01282004, 0x0C000004, 0, 0x0C000069, 0, 0x34080100, 0x34090004, 0x01282006,
     0x0C000004, 0, 0x0C000069, 0, 0x2008FFC0, 0x34090002, 0x01282007, 0x0C000004, 0,
     0x0C000069, 0, 0x08000018, 0, 0x3404000A, 0x3402000B, 0x0000000C, 0x03E00008, 0, 0]"

lemma shift_length: "length shift_exe < 0x300"
  by (simp add: shift_exe_def)

lemmas shift_code = program_holds(2) [OF shift_length shift_exe_def, simplified]

lemma test_shift: "prints shift_exe [] (lines [''16'', ''8'', ''-4'', ''96'', ''16'', ''-16''])"
  by (simp add: run_simps shift_length shift_code cong: run_congs)

text \<open>test/hilo.s.\<close>

definition hilo_exe :: "u32 list" where
  "hilo_exe =
    [0x34081234, 0x01000011, 0x00002010, 0x0C000004, 0, 0x0C000050, 0, 0x34095678, 0x01200013,
     0x00002012, 0x0C000004, 0, 0x0C000050, 0, 0x08000018, 0, 0x3404000A, 0x3402000B,
     0x0000000C, 0x03E00008, 0, 0]"

lemma hilo_length: "length hilo_exe < 0x300"
  by (simp add: hilo_exe_def)

lemmas hilo_code = program_holds(2) [OF hilo_length hilo_exe_def, simplified]

lemma test_hilo: "prints hilo_exe [] (lines [''4660'', ''22136''])"
  by (simp add: run_simps hilo_length hilo_code cong: run_congs)

text \<open>test/setless.s.\<close>

definition setless_exe :: "u32 list" where
  "setless_exe =
    [0x2008FFFF, 0x34090001, 0x0109202A, 0x0C000004, 0, 0x0C000053, 0, 0x0109202B, 0x0C000004,
     0, 0x0C000053, 0, 0x2C040005, 0x0C000004, 0, 0x0C000053, 0, 0x08000018, 0, 0x3404000A,
     0x3402000B, 0x0000000C, 0x03E00008, 0, 0]"

lemma setless_length: "length setless_exe < 0x300"
  by (simp add: setless_exe_def)

lemmas setless_code = program_holds(2) [OF setless_length setless_exe_def, simplified]

lemma test_setless: "prints setless_exe [] (lines [''1'', ''0'', ''1''])"
  by (simp add: run_simps setless_length setless_code cong: run_congs)

text \<open>test/branch.s.\<close>

definition branch_exe :: "u32 list" where
  "branch_exe =
    [0x34040001, 0x34080005, 0x34090003, 0x15090003, 0, 0, 0x34040000, 0x0C000004, 0,
     0x0C00008A, 0, 0x34040001, 0x34080005, 0x34090005, 0x15090003, 0, 0, 0x34040000,
     0x0C000004, 0, 0x0C00008A, 0, 0x34040001, 0x34080005, 0x1D000003, 0, 0, 0x34040000,
     0x0C000004, 0, 0x0C00008A, 0, 0x34040001, 0x2008FFFF, 0x1D000003, 0, 0, 0x34040000,
     0x0C000004, 0, 0x0C00008A, 0, 0x34040001, 0x34080000, 0x19000003, 0, 0, 0x34040000,
     0x0C000004, 0, 0x0C00008A, 0, 0x34040001, 0x2008FFFF, 0x05000003, 0, 0, 0x34040000,
     0x0C000004, 0, 0x0C00008A, 0, 0x34040001, 0x34080000, 0x05010003, 0, 0, 0x34040000,
     0x0C000004, 0, 0x0C00008A, 0, 0x08000018, 0, 0x3404000A, 0x3402000B, 0x0000000C,
     0x03E00008, 0, 0]"

lemma branch_length: "length branch_exe < 0x300"
  by (simp add: branch_exe_def)

lemmas branch_code = program_holds(2) [OF branch_length branch_exe_def, simplified]

lemma test_branch: "prints branch_exe [] (lines [''1'', ''0'', ''1'', ''0'', ''1'', ''1'', ''1''])"
  by (simp add: run_simps branch_length branch_code cong: run_congs)

text \<open>test/branchlink.s.\<close>

definition branchlink_exe :: "u32 list" where
  "branchlink_exe =
    [0x34040007, 0x34080144, 0x0100F809, 0, 0, 0x34040008, 0x34090000, 0x05310009, 0, 0,
     0x34040009, 0x200AFFFF, 0x05500004, 0, 0, 0x08000018, 0, 0x34020001, 0x0000000C,
     0x3404000A, 0x3402000B, 0x0000000C, 0x03E00008, 0, 0]"

lemma branchlink_length: "length branchlink_exe < 0x300"
  by (simp add: branchlink_exe_def)

lemmas branchlink_code = program_holds(2) [OF branchlink_length branchlink_exe_def, simplified]

lemma test_branchlink: "prints branchlink_exe [] (lines [''7'', ''8'', ''9''])"
  by (simp add: run_simps branchlink_length branchlink_code cong: run_congs)

text \<open>test/byte_half.s.\<close>

definition byte_half_exe :: "u32 list" where
  "byte_half_exe =
    [0x340800AB, 0xA3A8FFFC, 0x83A4FFFC, 0x0C000004, 0, 0x0C00005A, 0, 0x93A4FFFC, 0x0C000004,
     0, 0x0C00005A, 0, 0x34098765, 0xA7A9FFF8, 0x87A4FFF8, 0x0C000004, 0, 0x0C00005A, 0,
     0x97A4FFF8, 0x0C000004, 0, 0x0C00005A, 0, 0x08000018, 0, 0x3404000A, 0x3402000B,
     0x0000000C, 0x03E00008, 0, 0]"

lemma byte_half_length: "length byte_half_exe < 0x300"
  by (simp add: byte_half_exe_def)

lemmas byte_half_code = program_holds(2) [OF byte_half_length byte_half_exe_def, simplified]

lemma test_byte_half: "prints byte_half_exe [] (lines [''-85'', ''171'', ''-30875'', ''34661''])"
  by (simp add: run_simps byte_half_length byte_half_code cong: run_congs)

text \<open>test/trap.s.\<close>

definition trap_exe :: "u32 list" where
  "trap_exe =
    [0x3C087FFF, 0x3508FFFF, 0x34090001, 0x01095020, 0x001A2025, 0x0C000004, 0, 0x0C00005F, 0,
     0x34080001, 0x34090002, 0x01092020, 0x0C000004, 0, 0x0C00005F, 0, 0x001A2025, 0x0C000004,
     0, 0x0C00005F, 0, 0x3C088000, 0x34090001, 0x01095022, 0x001A2025, 0x0C000004, 0,
     0x0C00005F, 0, 0x08000018, 0, 0x3404000A, 0x3402000B, 0x0000000C, 0x03E00008, 0, 0]"

lemma trap_length: "length trap_exe < 0x300"
  by (simp add: trap_exe_def)

lemmas trap_code = program_holds(2) [OF trap_length trap_exe_def, simplified]

lemma test_trap: "prints trap_exe [] (lines [''1'', ''3'', ''0'', ''1''])"
  by (simp add: run_simps trap_length trap_code cong: run_congs)

text \<open>test/errors.s.\<close>

definition errors_exe :: "u32 list" where
  "errors_exe =
    [0x3C087FFF, 0x3508FFFF, 0x21090001, 0x001A2025, 0x0C000004, 0, 0x0C000053, 0, 0x34080005,
     0x34090000, 0x0109001A, 0x0109001B, 0x34040007, 0x0C000004, 0, 0x0C000053, 0, 0x08000018,
     0, 0x3404000A, 0x3402000B, 0x0000000C, 0x03E00008, 0, 0]"

lemma errors_length: "length errors_exe < 0x300"
  by (simp add: errors_exe_def)

lemmas errors_code = program_holds(2) [OF errors_length errors_exe_def, simplified]

lemma test_errors: "prints errors_exe [] (lines [''1'', ''7''])"
  by (simp add: run_simps errors_length errors_code cong: run_congs)

text \<open>test/mips32.s.\<close>

definition mips32_exe :: "u32 list" where
  "mips32_exe =
    [0x34080006, 0x34090007, 0x71092002, 0x0C000004, 0, 0x0C000091, 0, 0x34080063, 0x340A0000,
     0x34040000, 0x010A200A, 0x0C000004, 0, 0x0C000091, 0, 0x3408004D, 0x340A0005, 0x34040000,
     0x010A200B, 0x0C000004, 0, 0x0C000091, 0, 0x3408000B, 0x340A0001, 0x34040016, 0x010A200A,
     0x0C000004, 0, 0x0C000091, 0, 0x3C0800FF, 0x71042020, 0x0C000004, 0, 0x0C000091, 0,
     0x3C08FFF0, 0x71042021, 0x0C000004, 0, 0x0C000091, 0, 0x00000011, 0x00000013, 0x34080003,
     0x34090004, 0x71090000, 0x00002012, 0x0C000004, 0, 0x0C000091, 0, 0x34080002, 0x34090005,
     0x71090004, 0x00002012, 0x0C000004, 0, 0x0C000091, 0, 0x00000011, 0x00000013, 0x3408000A,
     0x3409000A, 0x71090001, 0x00002012, 0x0C000004, 0, 0x0C000091, 0, 0x34080008, 0x34090005,
     0x71090005, 0x00002012, 0x0C000004, 0, 0x0C000091, 0, 0x08000018, 0, 0x3404000A,
     0x3402000B, 0x0000000C, 0x03E00008, 0, 0]"

lemma mips32_length: "length mips32_exe < 0x300"
  by (simp add: mips32_exe_def)

lemmas mips32_code = program_holds(2) [OF mips32_length mips32_exe_def, simplified]

lemma test_mips32: "prints mips32_exe [] (lines [''42'', ''99'', ''77'', ''22'', ''8'', ''12'', ''12'', ''2'', ''100'', ''60''])"
  by (simp add: run_simps mips32_length mips32_code cong: run_congs)

text \<open>test/char.s.\<close>

definition char_exe :: "u32 list" where
  "char_exe =
    [0x34040041, 0x3402000B, 0x0000000C, 0x34040042, 0x3402000B, 0x0000000C, 0x3404000A,
     0x3402000B, 0x0000000C, 0x3402000C, 0x0000000C, 0x00022025, 0x3402000B, 0x0000000C,
     0x08000018, 0]"

lemma char_length: "length char_exe < 0x300"
  by (simp add: char_exe_def)

lemmas char_code = program_holds(2) [OF char_length char_exe_def, simplified]

lemma test_char: "prints char_exe ''Z'' (lines [''AB''] @ ''Z'')"
  by (simp add: run_simps char_length char_code cong: run_congs)

text \<open>test/exit2.s.\<close>

definition exit2_exe :: "u32 list" where
  "exit2_exe =
    [0x34040041, 0x3402000B, 0x0000000C, 0x34040000, 0x34020011, 0x0000000C, 0x34040042,
     0x3402000B, 0x0000000C, 0x08000018, 0]"

lemma exit2_length: "length exit2_exe < 0x300"
  by (simp add: exit2_exe_def)

lemmas exit2_code = program_holds(2) [OF exit2_length exit2_exe_def, simplified]

lemma test_exit2: "prints exit2_exe [] (''A'')"
  by (simp add: run_simps exit2_length exit2_code cong: run_congs)

text \<open>test/break.s.\<close>

definition break_exe :: "u32 list" where
  "break_exe =
    [0x34040041, 0x3402000B, 0x0000000C, 0x0000000D, 0x34040042, 0x3402000B, 0x0000000C,
     0x08000018, 0]"

lemma break_length: "length break_exe < 0x300"
  by (simp add: break_exe_def)

lemmas break_code = program_holds(2) [OF break_length break_exe_def, simplified]

lemma test_break: "prints break_exe [] (''A'')"
  by (simp add: run_simps break_length break_code cong: run_congs)

end
