(* ===== verification/Spec2Isabelle.thy ===== *)
theory Spec2Isabelle
  imports Undefined Load_Store Gpu Jit_Stale Main_Program Dbg_Invariant Test_Programs
begin

text \<open>
  A verification of my_mips, an emulator of 32-bit little-endian MIPS programs with an interpreter,
  a generator of x86-64 code and a debugger.

  Parts and theories. A function of the sources has the definition of the same name, unless it
  clashes with HOL; \<open>struct global\<close> is the record \<open>machine\<close> (what running programs use) inside the
  record \<open>global\<close> (what the loader adds). The C code is the dialect of the Makefile: gcc on x86-64.

    \<^item> Prelude: machine words, the result type \<open>undef + 'a\<close> whose left side is C's undefined
      behaviour, the \<open>switch\<close> statement. Steps: runs of a step function that returns 0, 1 or 2, the
      loop that drives it, and the locales \<open>stepper\<close> (invariants), \<open>driver\<close> (the loop returns what the
      first stopping step gives, or forever steps) and \<open>simulation\<close> (two drivers in lock step).
    \<^item> Decode, Machine: include/decode.h, define.h and utils.h; the host, that is the operating
      system, SDL and NaN payloads, as a record of functions.
    \<^item> Device (device.c), Word_Port, Functions (functions.c): memory accesses and arithmetic. The
      locale \<open>word_port\<close> is the interface of word accesses, met outside the device registers; Gpu extends
      it to the locale \<open>word_array\<close> and interprets that on the screen.
    \<^item> Pipeline, Ieee754, Fpu (fpu.c), Format, Syscalls (syscalls.c), Disasm (disasm.c), Logger
      (logger.c), Cpu (cpu.c): the instructions. The locale \<open>executor\<close> is the contract every group of
      instructions keeps towards \<open>step_instruction\<close>.
    \<^item> X86, Jit (jit.c): the emitted bytes and a decoder and semantics of the instructions emitted.
    \<^item> Vec (vec.c), Cstream (error.c, cstream.c, cstream_file.c, cstream_readline.c,
      interruptible_readline.c): the locales \<open>char_buffer\<close> and \<open>char_stream\<close> are their contracts.
    \<^item> Strto (strtou32 of utils.c), Dbg (dbg.c): the debugger.
    \<^item> Loader (utils.c, map_elf.c), Main_Program (main.c): loading, and the whole program.

  Theorems. These are about single instructions and calls, against independent specifications: Alu
  (the instructions that compute a value, against a table over integers), Arith (overflow, products,
  division), Load_Store and Memory (little-endian and unaligned accesses), Control (the control flow
  with delay slots), Gpu (the frames that are shown), Safety (register 0, and the decoder against the
  disassembler over all words), Fpu_Correct, Syscalls_Correct (the results and memory effects of the
  calls) and Undefined (the exact table of the undefined behaviour of an instruction). Rounding
  states rounding to nearest even on real numbers and proves that \<open>fp_round\<close> meets it, for exact
  values and for those of which only a sticky bit is known (division and root); Fpu_Correct draws
  from it that the floating-point instructions are correctly rounded. Typing shows that reachable
  states keep to the types of the C fields. Jit_Correct and Jit_Run show that generated code does what
  the interpreter does, for programs that do not write the code they execute and
  whose blocks are not longer than the generator reserves, and how far blocks stay in their buffer;
  Jit_Stale has a program that shows what goes wrong otherwise. Output shows that a program cannot
  observe earlier output, from which Dbg_Run concludes that the debugger runs programs unchanged and stops at breakpoints;
  Dbg_Correct and Dbg_Session treat breakpoints (locale \<open>bounded_set\<close>), listings, commands and the
  session (locales \<open>line_source\<close> and \<open>session\<close>), and Dbg_Invariant
  the states a session can reach. Loader_Correct gives the memory image of a file and when loading
  fails; Main_Program composes loading and running: with \<open>-j\<close>, and with \<open>-d\<close> and the command to
  continue, the whole program ends as the interpreter does on the loaded machine. Test_Programs runs
  sixteen programs of the test suite and finds the output that test/test.json expects.

  Loops. All loops of the sources that always end are structural or have a measure. Those that may
  run forever are \<open>partial_function (option)\<close> with \<open>None\<close> for not returning: \<open>loop\<close> (the interpreter,
  the dispatcher, \<open>continue\<close>), \<open>print_code_loop\<close>, \<open>read_line\<close> and \<open>debug_loop\<close>; when each returns is a
  theorem. There is no fuel; the 1024 instructions of a block and the 128 breakpoints are bounds of
  the code.

  Assumptions of the model. Memory is the mapping of 4 GB, addressed by 32 bits. The standard streams
  of stdio and the file descriptors 0 and 1 of the system calls are kept apart, so the order of
  buffered and direct output is not modelled. Allocation succeeds, except where \<open>allocator\<close> says
  otherwise. \<open>struct global\<close> has its fields at the offsets of the System V ABI (\<open>offset_of\<close> in X86).
  The allocator, the addresses and the success of mmap, the file and the failures of the calls on it,
  and what happens on the terminal are arguments.

  Not modelled: what the readline library does with single keys; \<open>interruptible_readline_setup\<close>, which
  installs the handler the events assume; the place among the program's own output of what the
  line editor and the stream warnings print on stderr.
\<close>

end
